(* ===== verification/Prelude.thy ===== *)
theory Prelude
  imports Complex_Main "HOL-Library.Multiset"
begin

text \<open>
  Shared vocabulary of the RoughGAN development: the Python exceptions the
  generator code can raise, numpy's index wrap-around, the shape of a square
  array, and numpy's reductions \<open>np.mean\<close> and population standard deviation
  over an array.  Floating-point numbers are modelled as reals; NaN, the only
  IEEE special value the code can reach, is modelled explicitly where it arises
  (see GaussianField).  The lemma collection \<open>grid_simps\<close> gathers the shape
  facts the component proofs share.
\<close>

named_theorems grid_simps "shape and indexing facts on square arrays"

section \<open>Python exceptions\<close>

datatype py_error =
    ZeroDivisionError  \<comment> \<open>\<open>x // 0\<close>, \<open>x / 0\<close> on Python numbers\<close>
  | ValueError         \<comment> \<open>\<open>np.zeros\<close> with a negative dimension, \<open>range\<close> with step 0\<close>
  | IndexError         \<comment> \<open>array index out of range\<close>
  | TypeError          \<comment> \<open>\<open>range(None)\<close>\<close>
  | StopIteration      \<comment> \<open>\<open>next\<close> on an exhausted generator\<close>
  | AttributeError     \<comment> \<open>a method called on \<open>None\<close>\<close>
  | NameError          \<comment> \<open>a name bound neither in the module nor in builtins\<close>
  | FileNotFoundError  \<comment> \<open>\<open>open\<close> or \<open>torch.load\<close> on a path with no file\<close>
  | UsageError         \<comment> \<open>click's \<open>UsageError\<close>: a bad command line, exit status 2\<close>

type_synonym 'a result = "py_error + 'a"

text \<open>Python's true division on numbers raises on a zero divisor.\<close>

definition py_truediv :: "real \<Rightarrow> real \<Rightarrow> real result" where
  "py_truediv a b = (if b = 0 then Inl ZeroDivisionError else Inr (a / b))"

text \<open>Python's floor division on ints: HOL's \<open>div\<close> on \<open>int\<close> also rounds
  towards minus infinity, only the zero divisor must be written out.\<close>

definition py_floordiv :: "int \<Rightarrow> int \<Rightarrow> int result" where
  "py_floordiv a b = (if b = 0 then Inl ZeroDivisionError else Inr (a div b))"

section \<open>numpy indexing\<close>

text \<open>numpy reads a negative index from the end; anything outside
  \<open>[-n, n)\<close> raises IndexError.\<close>

definition np_index :: "nat \<Rightarrow> int \<Rightarrow> nat result" where
  "np_index n i =
     (if - int n \<le> i \<and> i < 0 then Inr (nat (int n + i))
      else if 0 \<le> i \<and> i < int n then Inr (nat i)
      else Inl IndexError)"

text \<open>\<open>R[i, j] = v\<close> on an \<open>n \<times> n\<close> array.\<close>

definition np_set2 :: "nat \<Rightarrow> 'a list list \<Rightarrow> int \<Rightarrow> int \<Rightarrow> 'a \<Rightarrow> 'a list list result" where
  "np_set2 n R i j v =
     (case np_index n i of
        Inl e \<Rightarrow> Inl e
      | Inr i' \<Rightarrow> (case np_index n j of
           Inl e \<Rightarrow> Inl e
         | Inr j' \<Rightarrow> Inr (R[i' := (R ! i')[j' := v]])))"

section \<open>Square arrays\<close>

text \<open>An array of shape \<open>(n, n)\<close>, stored row by row.\<close>

definition square :: "nat \<Rightarrow> 'a list list \<Rightarrow> bool" where
  "square n A \<longleftrightarrow> length A = n \<and> list_all (\<lambda>r. length r = n) A"

definition np_zeros :: "nat \<Rightarrow> real list list" where
  "np_zeros n = replicate n (replicate n 0)"

text \<open>Elementwise map, as numpy's broadcasting arithmetic on one array.\<close>

definition map2d :: "('a \<Rightarrow> 'b) \<Rightarrow> 'a list list \<Rightarrow> 'b list list" where
  "map2d f A = map (map f) A"

text \<open>Elementwise combination of two arrays of equal shape.\<close>

definition zip2d :: "('a \<Rightarrow> 'b \<Rightarrow> 'c) \<Rightarrow> 'a list list \<Rightarrow> 'b list list \<Rightarrow> 'c list list" where
  "zip2d f A B = map2 (map2 f) A B"

section \<open>numpy reductions\<close>

text \<open>\<open>np.mean(np.mean(X))\<close>: \<open>np.mean\<close> with no axis averages the whole
  array to a scalar, and the mean of a scalar is itself.\<close>

definition mean :: "real list \<Rightarrow> real" where
  "mean xs = sum_list xs / real (length xs)"

definition np_mean :: "real list list \<Rightarrow> real" where
  "np_mean X = mean (concat X)"

text \<open>Population standard deviation, \<open>np.sqrt(np.mean(np.mean((X - aveX) ** 2)))\<close>.\<close>

definition np_std :: "real list list \<Rightarrow> real" where
  "np_std X = sqrt (np_mean (map2d (\<lambda>x. (x - np_mean X)\<^sup>2) X))"

definition std :: "real list \<Rightarrow> real" where
  "std xs = sqrt (mean (map (\<lambda>x. (x - mean xs)\<^sup>2) xs))"

section \<open>Shared lemmas\<close>

lemma square_iff [grid_simps]:
  "square n A \<longleftrightarrow> length A = n \<and> (\<forall>r \<in> set A. length r = n)"
  by (simp add: square_def list_all_iff)

lemma square_nth_length [grid_simps]:
  "square n A \<Longrightarrow> i < n \<Longrightarrow> length (A ! i) = n"
  by (simp add: square_iff)

lemma length_concat_square [grid_simps]:
  "square n A \<Longrightarrow> length (concat A) = n * n"
proof -
  assume sq: "square n A"
  then have "map length A = replicate n n"
    by (auto simp: square_iff intro: replicate_eqI)
  then show ?thesis
    by (simp add: length_concat sum_list_replicate)
qed

lemma square_np_zeros [grid_simps]: "square n (np_zeros n)"
  by (simp add: square_def np_zeros_def list_all_iff)

lemma square_map2d [grid_simps]: "square n (map2d f A) \<longleftrightarrow> square n A"
  by (simp add: square_iff map2d_def)

lemma np_index_in_range [simp]:
  "0 \<le> i \<Longrightarrow> i < int n \<Longrightarrow> np_index n i = Inr (nat i)"
  by (simp add: np_index_def)

lemma np_index_negative [simp]:
  "- int n \<le> i \<Longrightarrow> i < 0 \<Longrightarrow> np_index n i = Inr (nat (int n + i))"
  by (simp add: np_index_def)

lemma np_index_Inr_bound:
  "np_index n i = Inr k \<Longrightarrow> k < n"
  by (auto simp: np_index_def split: if_splits)

lemma neg_mod_wrap:
  fixes i :: int
  shows "- int n \<le> i \<Longrightarrow> i < 0 \<Longrightarrow> i mod int n = i + int n"
  by (metis add.commute mod_add_self2 mod_pos_pos_trivial add_less_same_cancel1
      diff_add_cancel diff_ge_0_iff_ge minus_diff_eq uminus_add_conv_diff)

lemma np_index_Inr_mod:
  "np_index n i = Inr k \<Longrightarrow> int k = i mod int n"
  by (cases "i < 0") (auto simp: np_index_def neg_mod_wrap split: if_splits)

lemma np_index_mod:
  "- int n \<le> i \<Longrightarrow> i < int n \<Longrightarrow> np_index n i = Inr (nat (i mod int n))"
  by (cases "i < 0") (simp_all add: neg_mod_wrap add.commute)

lemma np_set2_square:
  "square n R \<Longrightarrow> np_set2 n R i j v = Inr R' \<Longrightarrow> square n R'"
  by (auto simp: np_set2_def square_iff np_index_Inr_bound nth_list_update
      split: sum.splits dest!: set_update_subset_insert [THEN subsetD])

lemma np_set2_nth:
  assumes "square n R" "- int n \<le> a" "a < int n" "- int n \<le> b" "b < int n"
  shows "\<exists>R'. np_set2 n R a b v = Inr R' \<and> square n R' \<and>
    (\<forall>i < n. \<forall>j < n. R' ! i ! j =
       (if i = nat (a mod int n) \<and> j = nat (b mod int n) then v else R ! i ! j))"
proof -
  have p: "nat (a mod int n) < n" "nat (b mod int n) < n"
    using assms by (simp_all add: nat_less_iff)
  show ?thesis
    using assms p by (auto simp: np_set2_def np_index_mod square_iff nth_list_update
        dest!: set_update_subset_insert [THEN subsetD])
qed

lemma map2d_nth [grid_simps]:
  "square n A \<Longrightarrow> i < n \<Longrightarrow> j < n \<Longrightarrow> map2d f A ! i ! j = f (A ! i ! j)"
  by (simp add: map2d_def square_iff)

lemma square_zip2d [grid_simps]:
  "square n A \<Longrightarrow> square n B \<Longrightarrow> square n (zip2d f A B)"
  by (auto simp: zip2d_def square_iff set_zip)

lemma zip2d_nth [grid_simps]:
  "square n A \<Longrightarrow> square n B \<Longrightarrow> i < n \<Longrightarrow> j < n \<Longrightarrow>
   zip2d f A B ! i ! j = f (A ! i ! j) (B ! i ! j)"
  by (simp add: zip2d_def square_iff)

lemma map2d_map2d: "map2d f (map2d g A) = map2d (f \<circ> g) A"
  by (simp add: map2d_def)

lemma square_eqI:
  assumes "square n A" "square n B" "\<And>i j. i < n \<Longrightarrow> j < n \<Longrightarrow> A ! i ! j = B ! i ! j"
  shows "A = B"
  using assms by (intro nth_equalityI) (auto simp: square_iff intro!: nth_equalityI)

lemma mean_mset_eq:
  "mset xs = mset ys \<Longrightarrow> mean xs = mean ys"
proof -
  assume m: "mset xs = mset ys"
  have "sum_list xs = sum_list ys"
    by (metis m sum_mset_sum_list)
  moreover have "length xs = length ys"
    using m by (rule mset_eq_length)
  ultimately show ?thesis by (simp add: mean_def)
qed

lemma std_mset_eq:
  "mset xs = mset ys \<Longrightarrow> std xs = std ys"
proof -
  assume m: "mset xs = mset ys"
  define c where "c = mean xs"
  have c: "mean ys = c"
    using mean_mset_eq [OF m] by (simp add: c_def)
  have "mset (map (\<lambda>x. (x - c)\<^sup>2) xs) = mset (map (\<lambda>x. (x - c)\<^sup>2) ys)"
    using m by simp
  then have "mean (map (\<lambda>x. (x - c)\<^sup>2) xs) = mean (map (\<lambda>x. (x - c)\<^sup>2) ys)"
    by (rule mean_mset_eq)
  then show ?thesis
    by (simp add: std_def c c_def)
qed

lemma mean_nonneg: "(\<And>x. x \<in> set xs \<Longrightarrow> 0 \<le> x) \<Longrightarrow> 0 \<le> mean xs"
  by (simp add: mean_def sum_list_nonneg)

lemma std_nonneg: "0 \<le> std xs"
  unfolding std_def by (rule real_sqrt_ge_zero, rule mean_nonneg) auto

subsection \<open>Statistics under affine maps\<close>

lemma sum_list_affine:
  "sum_list (map (\<lambda>x. a * x + b) xs) = a * sum_list xs + real (length xs) * b"
  by (induction xs) (simp_all add: algebra_simps)

lemma mean_affine:
  "xs \<noteq> [] \<Longrightarrow> mean (map (\<lambda>x. a * x + b) xs) = a * mean xs + b"
  by (simp add: mean_def sum_list_affine add_divide_distrib)

lemma std_affine:
  assumes "xs \<noteq> []"
  shows "std (map (\<lambda>x. a * x + b) xs) = \<bar>a\<bar> * std xs"
proof -
  have m: "mean (map (\<lambda>x. a * x + b) xs) = a * mean xs + b"
    using assms by (rule mean_affine)
  have e: "map (\<lambda>y. (y - mean (map (\<lambda>x. a * x + b) xs))\<^sup>2) (map (\<lambda>x. a * x + b) xs) =
        map (\<lambda>x. a\<^sup>2 * x + 0) (map (\<lambda>x. (x - mean xs)\<^sup>2) xs)"
    unfolding m by (simp add: power2_eq_square algebra_simps)
  have "mean (map (\<lambda>x. a\<^sup>2 * x + 0) (map (\<lambda>x. (x - mean xs)\<^sup>2) xs)) =
        a\<^sup>2 * mean (map (\<lambda>x. (x - mean xs)\<^sup>2) xs) + 0"
    using assms by (intro mean_affine) simp
  then show ?thesis
    unfolding std_def e by (simp add: real_sqrt_mult)
qed

lemma concat_map2d: "concat (map2d f X) = map f (concat X)"
  by (simp add: map2d_def map_concat)

lemma np_std_std: "np_std X = std (concat X)"
  by (simp add: np_std_def std_def np_mean_def concat_map2d)

lemma np_mean_affine:
  "concat X \<noteq> [] \<Longrightarrow> np_mean (map2d (\<lambda>x. a * x + b) X) = a * np_mean X + b"
  by (simp add: np_mean_def concat_map2d mean_affine)

lemma np_std_affine:
  "concat X \<noteq> [] \<Longrightarrow> np_std (map2d (\<lambda>x. a * x + b) X) = \<bar>a\<bar> * np_std X"
  by (simp add: np_std_std concat_map2d std_affine)

lemma np_std_nonneg: "0 \<le> np_std X"
  by (simp add: np_std_std std_nonneg)

lemma concat_square_ne: "square n X \<Longrightarrow> 0 < n \<Longrightarrow> concat X \<noteq> []"
  by (metis length_concat_square list.size(3) mult_is_0 neq0_conv)

end
