(* ===== verification/Datasets.thy ===== *)
theory Datasets
  imports Prelude
begin

text \<open>
  The dataset container \<open>NanoroughSurfaceDataset\<close> that the loaders build and the
  command line writes.  Its module, roughgan/data/sets.py, is not among the
  repository's files; it is modelled from its uses: a record of the surfaces and the
  transforms, \<open>from_list\<close>, and the \<open>.pt\<close> files \<open>to_pt\<close> writes and \<open>from_pt\<close>
  reads, as a map from paths to the datasets stored there.  Writing then reading a
  path gives the dataset back, which is what \<open>torch.save\<close> and \<open>torch.load\<close> promise.
\<close>

section \<open>Definitions\<close>

text \<open>\<open>NanoroughSurfaceDataset\<close>: a list of surfaces and a list of transforms.\<close>

record 't nanorough_dataset =
  ds_surfaces :: "real list list list"
  ds_transforms :: "'t list"

definition from_list :: "real list list list \<Rightarrow> 't list \<Rightarrow> 't nanorough_dataset" where
  "from_list surfaces transforms = \<lparr>ds_surfaces = surfaces, ds_transforms = transforms\<rparr>"

text \<open>The \<open>.pt\<close> files: the dataset stored at each path.\<close>

type_synonym 't pt_files = "string \<Rightarrow> 't nanorough_dataset option"

definition to_pt :: "'t nanorough_dataset \<Rightarrow> string \<Rightarrow> 't pt_files \<Rightarrow> 't pt_files" where
  "to_pt dataset path files = files(path \<mapsto> dataset)"

definition from_pt :: "string \<Rightarrow> 't pt_files \<Rightarrow> 't nanorough_dataset result" where
  "from_pt path files = (case files path of None \<Rightarrow> Inl FileNotFoundError | Some d \<Rightarrow> Inr d)"

section \<open>Lemmas\<close>

lemma from_pt_to_pt [simp]: "from_pt path (to_pt d path files) = Inr d"
  by (simp add: from_pt_def to_pt_def)

lemma from_pt_to_pt_other [simp]: "p \<noteq> path \<Longrightarrow> from_pt p (to_pt d path files) = from_pt p files"
  by (simp add: from_pt_def to_pt_def)

end
