(* ===== verification/RankSwap.thy ===== *)
theory RankSwap
  imports Prelude
begin

text \<open>
  The non-Gaussian reshaper, the third step of
  \<open>SurfaceGenerator.generate_surface\<close> (src/roughgan/data/generators.py,
  lines 110--121): both fields are flattened in column-major order, the
  Gaussian field's argsort \<open>Igs\<close> is computed, the Pearson sample is sorted, the
  sorted sample is scattered to the positions \<open>Igs\<close> names
  (\<open>v_ngs[Igs] = vs_ngn\<close>), and the result is reshaped in column-major order
  and conjugate-transposed.  numpy's default argsort is not stable, so the
  permutation it returns is modelled by the predicate \<open>argsort_spec\<close> that every
  sorting permutation satisfies; \<open>np_argsort_stable\<close> is one executable instance.
  The lemmas show that the reshaper outputs a permutation of the sample (exact
  multiset equality), that it keeps the rank order of the Gaussian field, that the
  scatter equals the gather of the inverse permutation, and that flattening and
  reshaping in column-major order are inverse.
\<close>

section \<open>Column-major flatten and reshape\<close>

definition ncols :: "'a list list \<Rightarrow> nat" where
  "ncols A = (case A of [] \<Rightarrow> 0 | r # _ \<Rightarrow> length r)"

text \<open>\<open>A.flatten(order="F")\<close>: element \<open>k\<close> is \<open>A[k mod rows, k div rows]\<close>.\<close>

definition flatten_F :: "'a list list \<Rightarrow> 'a list" where
  "flatten_F A = (let r = length A in map (\<lambda>k. A ! (k mod r) ! (k div r)) [0..<r * ncols A])"

text \<open>\<open>v.reshape(r, c, order="F")\<close>: \<open>M[i, j] = v[i + j * r]\<close>; a size
  mismatch raises ValueError.\<close>

definition reshape_F :: "nat \<Rightarrow> nat \<Rightarrow> 'a list \<Rightarrow> 'a list list result" where
  "reshape_F r c v =
     (if length v = r * c then Inr (map (\<lambda>i. map (\<lambda>j. v ! (i + j * r)) [0..<c]) [0..<r])
      else Inl ValueError)"

text \<open>\<open>np.asmatrix(M).H\<close>: the conjugate transpose, on real entries the transpose.\<close>

definition np_H :: "'a list list \<Rightarrow> 'a list list" where
  "np_H A = map (\<lambda>j. map (\<lambda>i. A ! i ! j) [0..<length A]) [0..<ncols A]"

section \<open>argsort, sort and the scatter\<close>

text \<open>\<open>np.argsort(v)\<close> returns a permutation of the indices of \<open>v\<close> that lists
  \<open>v\<close> in ascending order; which one, among equal values, is not specified.\<close>

definition is_perm :: "nat \<Rightarrow> nat list \<Rightarrow> bool" where
  "is_perm n p \<longleftrightarrow> mset p = mset [0..<n]"

definition argsort_spec :: "real list \<Rightarrow> nat list \<Rightarrow> bool" where
  "argsort_spec v p \<longleftrightarrow> is_perm (length v) p \<and> sorted (map ((!) v) p)"

definition np_argsort_stable :: "real list \<Rightarrow> nat list" where
  "np_argsort_stable v = sort_key ((!) v) [0..<length v]"

text \<open>\<open>SurfaceGenerator.sort\<close> (lines 41--44): \<open>elements[indices], indices\<close>.\<close>

definition sg_sort :: "real list \<Rightarrow> nat list \<Rightarrow> real list \<times> nat list" where
  "sg_sort elements indices = (map ((!) elements) indices, indices)"

text \<open>\<open>v[idx] = vals\<close> with an index array: the assignments in order; the
  arrays must have one value per index and every index must be in range.\<close>

definition np_scatter :: "'a list \<Rightarrow> nat list \<Rightarrow> 'a list \<Rightarrow> 'a list result" where
  "np_scatter v idx vals =
     (if length idx \<noteq> length vals then Inl ValueError
      else if list_ex (\<lambda>i. length v \<le> i) idx then Inl IndexError
      else Inr (fold (\<lambda>(i, x) acc. acc[i := x]) (zip idx vals) v))"

text \<open>Lines 116--119: \<open>vs_ngn = np.sort(v_ngn)\<close>,
  \<open>v_ngs = np.zeros_like(vs_ngn)\<close>, \<open>v_ngs[Igs] = vs_ngn\<close>.\<close>

definition rank_swap :: "nat list \<Rightarrow> real list \<Rightarrow> real list result" where
  "rank_swap Igs v_ngn =
     (let vs_ngn = sort v_ngn in np_scatter (replicate (length vs_ngn) 0) Igs vs_ngn)"

text \<open>The reference the spec states: output position \<open>i\<close> takes the sorted
  sample value whose rank is the position of \<open>i\<close> in \<open>Igs\<close>.\<close>

fun pos_in :: "nat list \<Rightarrow> nat \<Rightarrow> nat" where
  "pos_in [] i = 0"
| "pos_in (x # xs) i = (if x = i then 0 else Suc (pos_in xs i))"

definition rank_swap_ref :: "nat list \<Rightarrow> real list \<Rightarrow> real list" where
  "rank_swap_ref Igs v_ngn = map (\<lambda>i. sort v_ngn ! pos_in Igs i) [0..<length v_ngn]"

text \<open>Lines 110--121 as one step: from the Gaussian field \<open>z_gs\<close>, the Pearson
  sample \<open>z_ngn\<close> and the argsort \<open>Igs\<close> of \<open>z_gs\<close>'s column-major flattening,
  the surface \<open>z_ngs\<close>.\<close>

definition reshape_non_gaussian :: "nat \<Rightarrow> real list list \<Rightarrow> nat list \<Rightarrow> real list list result" where
  "reshape_non_gaussian n z_ngn Igs =
     (let v_ngn = flatten_F z_ngn in
      case rank_swap Igs v_ngn of
        Inl e \<Rightarrow> Inl e
      | Inr v_ngs \<Rightarrow> (case reshape_F n n v_ngs of
           Inl e \<Rightarrow> Inl e
         | Inr M \<Rightarrow> Inr (np_H M)))"

section \<open>Lemmas\<close>

subsection \<open>Permutations\<close>

lemma is_perm_length: "is_perm n p \<Longrightarrow> length p = n"
  by (metis is_perm_def length_upt minus_nat.diff_0 mset_eq_length)

lemma is_perm_set: "is_perm n p \<Longrightarrow> set p = {..<n}"
  by (metis is_perm_def atLeast_upt set_mset_mset)

lemma is_perm_distinct: "is_perm n p \<Longrightarrow> distinct p"
  by (metis is_perm_def distinct_upt mset_eq_imp_distinct_iff)

lemma is_perm_nth_less: "is_perm n p \<Longrightarrow> k < n \<Longrightarrow> p ! k < n"
  by (metis is_perm_length is_perm_set lessThan_iff nth_mem)

lemma is_perm_surj: "is_perm n p \<Longrightarrow> a < n \<Longrightarrow> \<exists>k < n. p ! k = a"
  by (metis in_set_conv_nth is_perm_length is_perm_set lessThan_iff)

lemma is_perm_iff_sort: "is_perm n p \<longleftrightarrow> sort p = [0..<n]"
  by (metis is_perm_def mset_sort properties_for_sort sorted_upt)

lemma pos_in_nth: "distinct p \<Longrightarrow> k < length p \<Longrightarrow> pos_in p (p ! k) = k"
proof (induction p arbitrary: k)
  case Nil
  then show ?case by simp
next
  case (Cons x p)
  then show ?case
    by (cases k) auto
qed

lemma map_nth_perm_mset:
  "is_perm (length xs) p \<Longrightarrow> mset (map ((!) xs) p) = mset xs"
proof -
  assume "is_perm (length xs) p"
  then have "mset (map ((!) xs) p) = mset (map ((!) xs) [0..<length xs])"
    by (metis is_perm_def mset_map)
  then show ?thesis by (simp add: map_nth)
qed

lemma np_argsort_stable_spec: "argsort_spec v (np_argsort_stable v)"
  by (simp add: argsort_spec_def np_argsort_stable_def is_perm_def sorted_sort_key)

lemma sg_sort_argsort: "argsort_spec v p \<Longrightarrow> fst (sg_sort v p) = sort v"
proof -
  assume sp: "argsort_spec v p"
  have m: "mset (map ((!) v) p) = mset v" and s: "sorted (map ((!) v) p)"
    using sp map_nth_perm_mset unfolding argsort_spec_def by blast+
  show ?thesis
    using properties_for_sort [OF m s] by (simp add: sg_sort_def)
qed

subsection \<open>The scatter\<close>

abbreviation upd_all :: "nat list \<Rightarrow> 'a list \<Rightarrow> 'a list \<Rightarrow> 'a list" where
  "upd_all p vs v \<equiv> fold (\<lambda>(i, x) acc. acc[i := x]) (zip p vs) v"

lemma upd_all_length [simp]: "length (upd_all p vs v) = length v"
  by (induction p vs arbitrary: v rule: list_induct2') auto

lemma upd_all_other: "i \<notin> set p \<Longrightarrow> upd_all p vs v ! i = v ! i"
  by (induction p vs arbitrary: v rule: list_induct2') auto

lemma upd_all_distinct:
  "distinct p \<Longrightarrow> length p = length vs \<Longrightarrow> set p \<subseteq> {..<length v} \<Longrightarrow> k < length p \<Longrightarrow>
   upd_all p vs v ! (p ! k) = vs ! k"
proof (induction p vs arbitrary: v k rule: list_induct2')
  case (4 x p y vs)
  then show ?case
    by (cases k) (auto simp: upd_all_other nth_list_update)
qed auto

lemma np_scatter_perm:
  assumes "is_perm (length v) p" "length vals = length v"
  shows "\<exists>r. np_scatter v p vals = Inr r \<and> length r = length v \<and>
           (\<forall>k < length v. r ! (p ! k) = vals ! k)"
proof -
  have len: "length p = length vals"
    using assms is_perm_length by simp
  have "\<not> list_ex (\<lambda>i. length v \<le> i) p"
    using is_perm_set [OF assms(1)] by (auto simp: list_ex_iff)
  then show ?thesis
    using upd_all_distinct [OF is_perm_distinct [OF assms(1)] len] len assms is_perm_set
    by (simp add: np_scatter_def)
qed

lemma rank_swap_perm:
  assumes "is_perm (length v_ngn) Igs"
  obtains r where "rank_swap Igs v_ngn = Inr r" "length r = length v_ngn"
    "\<And>k. k < length v_ngn \<Longrightarrow> r ! (Igs ! k) = sort v_ngn ! k"
  using np_scatter_perm [of "replicate (length v_ngn) 0" Igs "sort v_ngn"] assms
  by (auto simp: rank_swap_def)

lemma rank_swap_gather:
  assumes "is_perm (length v_ngn) Igs" "rank_swap Igs v_ngn = Inr r"
  shows "map ((!) r) Igs = sort v_ngn" and "length r = length v_ngn"
proof -
  obtain r' where r': "rank_swap Igs v_ngn = Inr r'" "length r' = length v_ngn"
    "\<And>k. k < length v_ngn \<Longrightarrow> r' ! (Igs ! k) = sort v_ngn ! k"
    using rank_swap_perm [OF assms(1)] by blast
  with assms(2) have "r = r'" by simp
  with r' assms(1) show "map ((!) r) Igs = sort v_ngn"
    by (intro nth_equalityI) (simp_all add: is_perm_length)
  from r' \<open>r = r'\<close> show "length r = length v_ngn" by simp
qed

subsection \<open>Column-major layout\<close>

lemma upt_mult_Suc: "[0..<r * Suc c] = [0..<r * c] @ [r * c..<r * c + r]"
  by (metis upt_add_eq_append zero_le mult_Suc_right add.commute)
lemma upt_shift: "[r * c..<r * c + r] = map (\<lambda>i. i + c * r) [0..<r]"
  using map_add_upt [of "c * r" r] by (simp add: mult.commute add.commute)
lemma map_upt_mult:
  "map f [0..<r * c] = concat (map (\<lambda>j. map (\<lambda>i. f (i + j * r)) [0..<r]) [0..<c])"
proof (induction c)
  case 0
  then show ?case by simp
next
  case (Suc c)
  show ?case
    by (simp only: upt_mult_Suc upt_shift map_append map_map Suc.IH upt_Suc_append concat_append)
      (simp add: o_def)
qed
lemma mset_concat_map_upt:
  "mset (concat (map (\<lambda>j. map (g j) [0..<n]) [0..<m])) = (\<Sum>j<m. \<Sum>i<n. {#g j i#})"
proof -
  have row: "mset (map h [0..<n]) = (\<Sum>i<n. {#h i#})" for h :: "nat \<Rightarrow> 'a"
    by (induction n) auto
  show ?thesis
    by (induction m) (simp_all del: mset_map mset_upt add: row)
qed

lemma ncols_square [grid_simps]: "square n A \<Longrightarrow> 0 < n \<Longrightarrow> ncols A = n"
  by (cases A) (auto simp: ncols_def square_iff)

lemma square_rows_eq: "square n A \<Longrightarrow> A = map (\<lambda>i. map (\<lambda>j. A ! i ! j) [0..<n]) [0..<n]"
  by (rule nth_equalityI) (auto simp: square_iff intro!: nth_equalityI)

lemma flatten_F_square:
  assumes "square n A"
  shows "flatten_F A = concat (map (\<lambda>j. map (\<lambda>i. A ! i ! j) [0..<n]) [0..<n])"
proof (cases "n = 0")
  case True
  with assms show ?thesis by (simp add: flatten_F_def square_iff)
next
  case False
  with assms have "ncols A = n" and "length A = n"
    by (simp_all add: ncols_square square_iff)
  then have "flatten_F A = map (\<lambda>k. A ! (k mod n) ! (k div n)) [0..<n * n]"
    by (simp add: flatten_F_def)
  also have "\<dots> = concat (map (\<lambda>j. map (\<lambda>i. A ! i ! j) [0..<n]) [0..<n])"
    unfolding map_upt_mult by (intro arg_cong [where f = concat] map_cong refl) simp
  finally show ?thesis .
qed

lemma flatten_F_square_idx:
  "square n A \<Longrightarrow> flatten_F A = map (\<lambda>k. A ! (k mod n) ! (k div n)) [0..<n * n]"
proof (cases "n = 0")
  case True
  assume "square n A"
  with True show ?thesis by (simp add: flatten_F_def square_iff)
next
  case False
  assume sq: "square n A"
  with False have "ncols A = n" and "length A = n"
    by (simp_all add: ncols_square square_iff)
  then show ?thesis by (simp add: flatten_F_def)
qed

lemma length_flatten_F [grid_simps]: "square n A \<Longrightarrow> length (flatten_F A) = n * n"
  by (simp add: flatten_F_square_idx)

lemma nth_flatten_F [grid_simps]:
  "square n A \<Longrightarrow> k < n * n \<Longrightarrow> flatten_F A ! k = A ! (k mod n) ! (k div n)"
  by (simp add: flatten_F_square_idx)

lemma mset_flatten_F: "square n A \<Longrightarrow> mset (flatten_F A) = mset (concat A)"
proof -
  assume sq: "square n A"
  have "mset (flatten_F A) = (\<Sum>j<n. \<Sum>i<n. {#A ! i ! j#})"
    by (simp only: flatten_F_square [OF sq] mset_concat_map_upt)
  also have "\<dots> = (\<Sum>i<n. \<Sum>j<n. {#A ! i ! j#})"
    by (rule sum.swap)
  also have "\<dots> = mset (concat A)"
    by (subst (2) square_rows_eq [OF sq]) (simp only: mset_concat_map_upt)
  finally show ?thesis .
qed

subsection \<open>The reshaper\<close>

lemma rank_swap_ok:
  assumes "is_perm (length v_ngn) Igs"
  shows "\<exists>r. rank_swap Igs v_ngn = Inr r"
  using rank_swap_perm [OF assms] by metis

lemma rank_swap_mset_eq:
  assumes "is_perm (length v_ngn) Igs" "rank_swap Igs v_ngn = Inr r"
  shows "mset r = mset v_ngn"
proof -
  from rank_swap_gather [OF assms] have g: "map ((!) r) Igs = sort v_ngn" "length r = length v_ngn"
    by simp_all
  have "mset r = mset (map ((!) r) Igs)"
    using assms(1) g(2) by (metis map_nth_perm_mset)
  also have "\<dots> = mset v_ngn"
    using g(1) by simp
  finally show ?thesis .
qed

text \<open>C5: The reshaper never fails on a permutation \<open>Igs\<close>, and its output is a rearrangement of the Pearson sample: the multiset of output values equals the multiset of sample values exactly.\<close>

theorem rank_swap_mset:
  "is_perm (length v_ngn) Igs \<Longrightarrow> \<exists>r. rank_swap Igs v_ngn = Inr r \<and> mset r = mset v_ngn"
  using rank_swap_ok rank_swap_mset_eq by blast

lemma rank_swap_nth_le:
  assumes sp: "argsort_spec v_gs Igs" and len: "length v_ngn = length v_gs"
    and r: "rank_swap Igs v_ngn = Inr r"
    and ab: "a < length v_gs" "b < length v_gs" "v_gs ! a < v_gs ! b"
  shows "r ! a \<le> r ! b"
proof -
  have perm: "is_perm (length v_ngn) Igs" and srt: "sorted (map ((!) v_gs) Igs)"
    using sp len by (simp_all add: argsort_spec_def)
  have lenI: "length Igs = length v_gs"
    using perm len by (simp add: is_perm_length)
  obtain i j where i: "i < length v_gs" "Igs ! i = a" and j: "j < length v_gs" "Igs ! j = b"
    using is_perm_surj [OF perm] ab len by metis
  have "i < j"
  proof (rule ccontr)
    assume "\<not> i < j"
    then have "v_gs ! (Igs ! j) \<le> v_gs ! (Igs ! i)"
      using sorted_nth_mono [OF srt, of j i] i j lenI by simp
    with i j ab show False by simp
  qed
  from rank_swap_gather [OF perm r] have g: "map ((!) r) Igs = sort v_ngn" by simp
  have "r ! a = sort v_ngn ! i" and "r ! b = sort v_ngn ! j"
    using arg_cong [OF g, of "\<lambda>xs. xs ! i"] arg_cong [OF g, of "\<lambda>xs. xs ! j"] i j lenI by simp_all
  moreover have "sort v_ngn ! i \<le> sort v_ngn ! j"
    using \<open>i < j\<close> j len by (intro sorted_nth_mono) simp_all
  ultimately show ?thesis by simp
qed

text \<open>C7: The reshaper keeps the rank order of the Gaussian field: where the Gaussian field is strictly smaller, the output is not larger, whatever sorting permutation numpy's argsort returns.\<close>

theorem rank_swap_monotone:
  assumes "argsort_spec v_gs Igs" "length v_ngn = length v_gs"
  shows "\<exists>r. rank_swap Igs v_ngn = Inr r \<and>
    (\<forall>a < length v_gs. \<forall>b < length v_gs. v_gs ! a < v_gs ! b \<longrightarrow> r ! a \<le> r ! b)"
  using assms rank_swap_ok [of v_ngn Igs] rank_swap_nth_le [OF assms]
  by (auto simp: argsort_spec_def)

text \<open>C8: The scatter \<open>v_ngs[Igs] = vs_ngn\<close> computes the spec's reference: every position takes the sorted sample value whose rank is that position's place in the argsort.\<close>

theorem rank_swap_eq_ref:
  assumes "is_perm (length v_ngn) Igs"
  shows "rank_swap Igs v_ngn = Inr (rank_swap_ref Igs v_ngn)"
proof -
  obtain r where r: "rank_swap Igs v_ngn = Inr r" "length r = length v_ngn"
    "\<And>k. k < length v_ngn \<Longrightarrow> r ! (Igs ! k) = sort v_ngn ! k"
    using rank_swap_perm [OF assms] by blast
  have "r = rank_swap_ref Igs v_ngn"
  proof (rule nth_equalityI)
    show "length r = length (rank_swap_ref Igs v_ngn)"
      using r(2) by (simp add: rank_swap_ref_def)
  next
    fix a assume a: "a < length r"
    then obtain k where k: "k < length v_ngn" "Igs ! k = a"
      using is_perm_surj [OF assms] r(2) by metis
    then have "pos_in Igs a = k"
      using pos_in_nth [OF is_perm_distinct [OF assms]] assms by (auto simp: is_perm_length)
    then show "r ! a = rank_swap_ref Igs v_ngn ! a"
      using k r(2) r(3) [of k] a by (simp add: rank_swap_ref_def)
  qed
  with r show ?thesis by simp
qed

subsection \<open>Round trips and the whole reshaper\<close>

lemma col_major_idx:
  fixes i j n :: nat
  assumes "i < n" "j < n"
  shows "i + j * n < n * n" and "(i + j * n) mod n = i" and "(i + j * n) div n = j"
proof -
  have "i + j * n < Suc j * n" using assms(1) by simp
  also have "Suc j * n \<le> n * n" using assms(2) by (intro mult_le_mono1) simp
  finally show "i + j * n < n * n" .
  show "(i + j * n) mod n = i" using assms(1) by simp
  show "(i + j * n) div n = j" using assms(1) by simp
qed

lemma reshape_F_square:
  assumes "length v = n * n"
  shows "reshape_F n n v = Inr (map (\<lambda>i. map (\<lambda>j. v ! (i + j * n)) [0..<n]) [0..<n])"
    and "square n (map (\<lambda>i. map (\<lambda>j. v ! (i + j * n)) [0..<n]) [0..<n])"
  using assms by (simp_all add: reshape_F_def square_iff)

lemma concat_square_idx:
  "square n A \<Longrightarrow> concat A = map (\<lambda>k. A ! (k div n) ! (k mod n)) [0..<n * n]"
proof -
  assume sq: "square n A"
  have "map (\<lambda>k. A ! (k div n) ! (k mod n)) [0..<n * n] =
        concat (map (\<lambda>j. map (\<lambda>i. A ! j ! i) [0..<n]) [0..<n])"
    unfolding map_upt_mult by (intro arg_cong [where f = concat] map_cong refl) simp
  then show ?thesis
    using square_rows_eq [OF sq] by simp
qed

text \<open>Reshaping in column-major order inverts flattening in column-major order on a square array.\<close>

theorem reshape_flatten_F:
  "square n A \<Longrightarrow> reshape_F n n (flatten_F A) = Inr A"
proof -
  assume sq: "square n A"
  have "map (\<lambda>i. map (\<lambda>j. flatten_F A ! (i + j * n)) [0..<n]) [0..<n] =
        map (\<lambda>i. map (\<lambda>j. A ! i ! j) [0..<n]) [0..<n]"
    using sq by (intro map_cong refl) (simp add: nth_flatten_F col_major_idx)
  also have "\<dots> = A"
    using sq by (rule square_rows_eq [symmetric])
  finally show ?thesis
    using sq by (simp add: reshape_F_def length_flatten_F)
qed

text \<open>Flattening in column-major order inverts reshaping in column-major order on a vector of \<open>n * n\<close> values.\<close>

theorem flatten_reshape_F:
  assumes "length v = n * n"
  shows "\<exists>M. reshape_F n n v = Inr M \<and> square n M \<and> flatten_F M = v"
proof -
  let ?M = "map (\<lambda>i. map (\<lambda>j. v ! (i + j * n)) [0..<n]) [0..<n]"
  have sq: "square n ?M" by (simp add: square_iff)
  have "flatten_F ?M = v"
  proof (rule nth_equalityI)
    show "length (flatten_F ?M) = length v"
      using sq assms by (simp add: length_flatten_F)
  next
    fix k assume "k < length (flatten_F ?M)"
    then have k: "k < n * n" using sq by (simp add: length_flatten_F)
    then have "0 < n" by (cases n) auto
    then have "k mod n < n" "k div n < n"
      using k by (simp_all add: less_mult_imp_div_less)
    then show "flatten_F ?M ! k = v ! k"
      using sq k by (simp add: nth_flatten_F)
  qed
  with sq assms show ?thesis by (simp add: reshape_F_def)
qed

lemma square_np_H:
  assumes "square n M"
  shows "square n (np_H M)" and "\<And>i j. i < n \<Longrightarrow> j < n \<Longrightarrow> np_H M ! i ! j = M ! j ! i"
proof -
  have c: "ncols M = n"
  proof (cases "n = 0")
    case True
    with assms show ?thesis by (simp add: ncols_def square_iff)
  next
    case False
    with assms show ?thesis by (simp add: ncols_square)
  qed
  show "square n (np_H M)"
    using assms c by (simp add: np_H_def square_iff)
  show "\<And>i j. i < n \<Longrightarrow> j < n \<Longrightarrow> np_H M ! i ! j = M ! j ! i"
    using assms c by (simp add: np_H_def square_iff)
qed

lemma reshape_non_gaussian_nth:
  assumes sq: "square n z_ngn" and perm: "is_perm (n * n) Igs"
  obtains S r where "reshape_non_gaussian n z_ngn Igs = Inr S" "square n S"
    "rank_swap Igs (flatten_F z_ngn) = Inr r" "length r = n * n"
    "\<And>i j. i < n \<Longrightarrow> j < n \<Longrightarrow> S ! i ! j = r ! (j + i * n)"
proof -
  have lv: "length (flatten_F z_ngn) = n * n" using sq by (rule length_flatten_F)
  obtain r where r: "rank_swap Igs (flatten_F z_ngn) = Inr r"
    using rank_swap_ok [of "flatten_F z_ngn" Igs] perm lv by auto
  have lr: "length r = n * n"
    using rank_swap_gather(2) [OF _ r] perm lv by simp
  let ?M = "map (\<lambda>i. map (\<lambda>j. r ! (i + j * n)) [0..<n]) [0..<n]"
  have M: "reshape_F n n r = Inr ?M" "square n ?M"
    using reshape_F_square [OF lr] by simp_all
  have S: "reshape_non_gaussian n z_ngn Igs = Inr (np_H ?M)"
    using r M by (simp add: reshape_non_gaussian_def)
  have "np_H ?M ! i ! j = r ! (j + i * n)" if "i < n" "j < n" for i j
    using square_np_H(2) [OF M(2) that] that by simp
  then show ?thesis
    using that S square_np_H(1) [OF M(2)] r lr by blast
qed

text \<open>On any permutation \<open>Igs\<close>, lines 110--121 return an \<open>n \<times> n\<close> array holding
  exactly the sample's values; output cell \<open>(i, j)\<close> is element \<open>j + i * n\<close> of the scatter.\<close>

lemma reshape_non_gaussian_perm:
  assumes sq_ngn: "square n z_ngn" and perm: "is_perm (n * n) Igs"
  shows "\<exists>S r. reshape_non_gaussian n z_ngn Igs = Inr S \<and> square n S \<and>
           mset (concat S) = mset (concat z_ngn) \<and>
           rank_swap Igs (flatten_F z_ngn) = Inr r \<and> length r = n * n \<and>
           (\<forall>i < n. \<forall>j < n. S ! i ! j = r ! (j + i * n))"
proof -
  obtain S r where S: "reshape_non_gaussian n z_ngn Igs = Inr S" "square n S"
    and r: "rank_swap Igs (flatten_F z_ngn) = Inr r" "length r = n * n"
    and Sr: "\<And>i j. i < n \<Longrightarrow> j < n \<Longrightarrow> S ! i ! j = r ! (j + i * n)"
    using reshape_non_gaussian_nth [OF sq_ngn perm] by metis
  have "concat S = r"
  proof (rule nth_equalityI)
    show "length (concat S) = length r"
      using S(2) r(2) by (simp add: length_concat_square)
  next
    fix k assume "k < length (concat S)"
    then have k: "k < n * n" using S(2) by (simp add: length_concat_square)
    then have "0 < n" by (cases n) auto
    then have "k mod n < n" "k div n < n"
      using k by (simp_all add: less_mult_imp_div_less)
    then show "concat S ! k = r ! k"
      using k Sr S(2) by (simp add: concat_square_idx)
  qed
  then have ms: "mset (concat S) = mset (concat z_ngn)"
    using rank_swap_mset_eq [OF _ r(1)] perm sq_ngn
    by (simp add: length_flatten_F mset_flatten_F)
  with S r Sr show ?thesis by blast
qed

text \<open>Lines 110--121 with \<open>Igs\<close> an argsort of the Gaussian field: the output ranks
  as the transposed Gaussian field, position \<open>(i, j)\<close> of the output as position
  \<open>(j, i)\<close> of \<open>z_gs\<close>.\<close>

lemma reshape_non_gaussian_rank:
  assumes sq_gs: "square n z_gs" and sq_ngn: "square n z_ngn"
    and srt: "argsort_spec (flatten_F z_gs) Igs"
  shows "\<exists>S. reshape_non_gaussian n z_ngn Igs = Inr S \<and> square n S \<and>
           mset (concat S) = mset (concat z_ngn) \<and>
           (\<forall>i < n. \<forall>j < n. \<forall>k < n. \<forall>l < n.
              z_gs ! j ! i < z_gs ! l ! k \<longrightarrow> S ! i ! j \<le> S ! k ! l)"
proof -
  have lg: "length (flatten_F z_gs) = n * n" using sq_gs by (rule length_flatten_F)
  have perm: "is_perm (n * n) Igs" using srt lg by (simp add: argsort_spec_def)
  obtain S r where S: "reshape_non_gaussian n z_ngn Igs = Inr S" "square n S"
    "mset (concat S) = mset (concat z_ngn)"
    and r: "rank_swap Igs (flatten_F z_ngn) = Inr r" "length r = n * n"
    and Sr: "\<forall>i < n. \<forall>j < n. S ! i ! j = r ! (j + i * n)"
    using reshape_non_gaussian_perm [OF sq_ngn perm] by blast
  have lv: "length (flatten_F z_ngn) = length (flatten_F z_gs)"
    using sq_ngn lg by (simp add: length_flatten_F)
  have mono: "r ! a \<le> r ! b"
    if "a < n * n" "b < n * n" "flatten_F z_gs ! a < flatten_F z_gs ! b" for a b
    using rank_swap_nth_le [OF srt lv r(1)] that lg by simp
  have "S ! i ! j \<le> S ! k ! l"
    if "i < n" "j < n" "k < n" "l < n" "z_gs ! j ! i < z_gs ! l ! k" for i j k l
  proof -
    have "flatten_F z_gs ! (j + i * n) = z_gs ! j ! i" "flatten_F z_gs ! (l + k * n) = z_gs ! l ! k"
      using that sq_gs by (simp_all add: nth_flatten_F col_major_idx)
    then show ?thesis
      using mono [of "j + i * n" "l + k * n"] that Sr by (simp add: col_major_idx)
  qed
  with S show ?thesis by blast
qed

subsection \<open>Witnesses\<close>

lemma is_perm_102: "is_perm (length [3, 1, 2 :: real]) [1, 0, 2]"
  by (simp add: is_perm_iff_sort upt_rec)

theorem rank_swap_mset_witness:
  "is_perm (length [3, 1, 2 :: real]) [1, 0, 2] \<and>
   (\<exists>r. rank_swap [1, 0, 2] [3, 1, 2] = Inr r \<and> mset r = mset [3, 1, 2 :: real])"
  by (rule conjI [OF is_perm_102 rank_swap_mset [OF is_perm_102]])

lemma argsort_example: "argsort_spec [0.5, 0.2, 0.9] [1, 0, 2]"
  by (simp add: argsort_spec_def is_perm_iff_sort upt_rec)

theorem rank_swap_monotone_witness:
  "argsort_spec [0.5, 0.2, 0.9] [1, 0, 2] \<and> length [3, 1, 2 :: real] = length [0.5, 0.2, 0.9 :: real] \<and>
   (\<exists>r. rank_swap [1, 0, 2] [3, 1, 2] = Inr r \<and>
      (\<forall>a < length [0.5, 0.2, 0.9 :: real]. \<forall>b < length [0.5, 0.2, 0.9 :: real].
         [0.5, 0.2, 0.9 :: real] ! a < [0.5, 0.2, 0.9] ! b \<longrightarrow> r ! a \<le> r ! b))"
proof -
  have len: "length [3, 1, 2 :: real] = length [0.5, 0.2, 0.9 :: real]" by simp
  show ?thesis
    using argsort_example len rank_swap_monotone [OF argsort_example len] by blast
qed

theorem rank_swap_eq_ref_witness:
  "is_perm (length [3, 1, 2 :: real]) [1, 0, 2] \<and>
   rank_swap [1, 0, 2] [3, 1, 2] = Inr (rank_swap_ref [1, 0, 2] [3, 1, 2])"
  by (rule conjI [OF is_perm_102 rank_swap_eq_ref [OF is_perm_102]])

lemma square_example: "square 2 [[1, 2], [3, 4 :: real]]"
  by (simp add: square_iff)

theorem reshape_flatten_F_witness:
  "square 2 [[1, 2], [3, 4 :: real]] \<and> reshape_F 2 2 (flatten_F [[1, 2], [3, 4 :: real]]) = Inr [[1, 2], [3, 4]]"
  using square_example reshape_flatten_F [OF square_example] by simp

theorem flatten_reshape_F_witness:
  "length [1, 3, 2, 4 :: real] = 2 * 2 \<and>
   (\<exists>M. reshape_F 2 2 [1, 3, 2, 4 :: real] = Inr M \<and> square 2 M \<and> flatten_F M = [1, 3, 2, 4])"
  using flatten_reshape_F [of "[1, 3, 2, 4 :: real]" 2] by simp

lemma square_example2: "square 2 [[0, 1], [2, 3 :: real]]" and square_example3: "square 2 [[10, 20], [30, 40 :: real]]"
  by (simp_all add: square_iff)

lemma argsort_example2: "argsort_spec (flatten_F [[0, 1], [2, 3]]) [0, 2, 1, 3]"
  by code_simp

text \<open>The output is not aligned with the Gaussian field itself: on a \<open>2 \<times> 2\<close>
  field where position \<open>(0, 1)\<close> is below position \<open>(1, 0)\<close>, the output has
  the larger value at \<open>(0, 1)\<close>.\<close>

lemma reshape_non_gaussian_not_aligned:
  "argsort_spec (flatten_F [[0, 1], [2, 3]]) [0, 2, 1, 3] \<and>
   [[0, 1], [2, 3 :: real]] ! 0 ! 1 < [[0, 1], [2, 3]] ! 1 ! 0 \<and>
   reshape_non_gaussian 2 [[10, 20], [30, 40]] [0, 2, 1, 3] = Inr [[10, 30], [20, 40]] \<and>
   [[10, 30], [20, 40 :: real]] ! 1 ! 0 < [[10, 30], [20, 40]] ! 0 ! 1"
  using argsort_example2 by code_simp

end
