(* ===== verification/Autocorrelation.thy ===== *)
theory Autocorrelation
  imports Prelude
begin

text \<open>
  The generator object and its autocorrelation models
  (src/roughgan/data/generators.py).  \<open>SurfaceGenerator.__init__\<close> (lines 11--21)
  stores the configuration and sets \<open>_mean = 0\<close>, \<open>_length = 0\<close>; the two
  subclasses differ only in \<open>autocorrelation\<close>: \<open>NonGaussianSurfaceGenerator\<close>
  (lines 139--145) uses the generalised exponential decay, and
  \<open>BesselNonGaussianSurfaceGenerator\<close> (lines 165--169) multiplies it by the Bessel
  function \<open>J\<^sub>0\<close> of the scaled lag.  The subclass is the constructor of
  \<open>acf_kind\<close>, the Bessel periods its arguments.

  Python's true division raises ZeroDivisionError on a zero correlation length or
  period, and numpy's power and exponential are written out where IEEE arithmetic
  leaves the reals: \<open>0.0 ** e\<close> is \<open>inf\<close> for \<open>e < 0\<close> and \<open>1\<close> for \<open>e = 0\<close>, and
  \<open>exp(-inf) = 0\<close>.  The lemmas give the value at the origin on every branch of
  \<open>alpha\<close>, the error cases, the evenness of both models in each lag, the bound
  \<open>0 \<le> R \<le> rms\<^sup>2\<close> of the base model, and the agreement of the two models at the
  origin.
\<close>

section \<open>The generator object\<close>

datatype acf_kind =
    NonGaussian
  | BesselNonGaussian real real   \<comment> \<open>\<open>beta_x\<close>, \<open>beta_y\<close>\<close>

record surface_generator =
  n_points :: int
  rms :: real
  skewness :: real
  kurtosis :: real
  corlength_x :: real
  corlength_y :: real
  alpha :: real
  sg_mean :: real          \<comment> \<open>\<open>self._mean\<close>\<close>
  sg_length :: "int option" \<comment> \<open>\<open>self._length\<close>; \<open>None\<close> is Python's \<open>None\<close>\<close>
  kind :: acf_kind

text \<open>\<open>SurfaceGenerator.__init__\<close> with the subclass that calls it.\<close>

definition sg_init ::
  "acf_kind \<Rightarrow> int \<Rightarrow> real \<Rightarrow> real \<Rightarrow> real \<Rightarrow> real \<Rightarrow> real \<Rightarrow> real \<Rightarrow> surface_generator" where
  "sg_init k n r s ku cx cy a =
     \<lparr>n_points = n, rms = r, skewness = s, kurtosis = ku, corlength_x = cx, corlength_y = cy,
      alpha = a, sg_mean = 0, sg_length = Some 0, kind = k\<rparr>"

definition NonGaussianSurfaceGenerator ::
  "int \<Rightarrow> real \<Rightarrow> real \<Rightarrow> real \<Rightarrow> real \<Rightarrow> real \<Rightarrow> real \<Rightarrow> surface_generator" where
  "NonGaussianSurfaceGenerator n r s ku cx cy a = sg_init NonGaussian n r s ku cx cy a"

definition BesselNonGaussianSurfaceGenerator ::
  "int \<Rightarrow> real \<Rightarrow> real \<Rightarrow> real \<Rightarrow> real \<Rightarrow> real \<Rightarrow> real \<Rightarrow> real \<Rightarrow> real \<Rightarrow> surface_generator" where
  "BesselNonGaussianSurfaceGenerator n r s ku cx cy a bx by =
     sg_init (BesselNonGaussian bx by) n r s ku cx cy a"

text \<open>The constructors' defaults: \<open>NonGaussianSurfaceGenerator()\<close>.\<close>

definition default_generator :: surface_generator where
  "default_generator = NonGaussianSurfaceGenerator 128 1 0 3 4 4 1"

section \<open>numpy's power and exponential\<close>

text \<open>\<open>x ** y\<close> on a non-negative float64; \<open>None\<close> is \<open>+inf\<close>.\<close>

definition np_power :: "real \<Rightarrow> real \<Rightarrow> real option" where
  "np_power x y =
     (if x = 0 then (if y = 0 then Some 1 else if 0 < y then Some 0 else None)
      else Some (x powr y))"

text \<open>\<open>np.exp(-v)\<close>, with \<open>exp(-inf) = 0\<close>.\<close>

definition np_exp_neg :: "real option \<Rightarrow> real" where
  "np_exp_neg v = (case v of None \<Rightarrow> 0 | Some x \<Rightarrow> exp (- x))"

section \<open>The Bessel function of the first kind of order zero\<close>

text \<open>\<open>sympy.besselj(0, x)\<close>, by its power series.\<close>

definition besselj0 :: "real \<Rightarrow> real" where
  "besselj0 x = (\<Sum>k. (-1) ^ k / (fact k)\<^sup>2 * (x / 2) ^ (2 * k))"

section \<open>The autocorrelation models\<close>

text \<open>\<open>NonGaussianSurfaceGenerator.autocorrelation\<close>, lines 139--145:
  \<open>rms**2 * np.exp(-(abs(np.sqrt((tx/corlength_x)**2 + (ty/corlength_y)**2)))**(2*alpha))\<close>.\<close>

definition autocorrelation_ng :: "surface_generator \<Rightarrow> int \<Rightarrow> int \<Rightarrow> real result" where
  "autocorrelation_ng g tx ty =
     (if corlength_x g = 0 then Inl ZeroDivisionError
      else if corlength_y g = 0 then Inl ZeroDivisionError
      else Inr (rms g ^ 2 * np_exp_neg (np_power
             \<bar>sqrt ((tx / corlength_x g)\<^sup>2 + (ty / corlength_y g)\<^sup>2)\<bar> (2 * alpha g))))"

text \<open>\<open>BesselNonGaussianSurfaceGenerator.autocorrelation\<close>, lines 165--169: the
  base value times \<open>besselj(0, 2*pi*sqrt((tx/beta_x)**2 + (ty/beta_y)**2))\<close>.\<close>

definition autocorrelation_bessel ::
  "surface_generator \<Rightarrow> real \<Rightarrow> real \<Rightarrow> int \<Rightarrow> int \<Rightarrow> real result" where
  "autocorrelation_bessel g bx by tx ty =
     (case autocorrelation_ng g tx ty of
        Inl e \<Rightarrow> Inl e
      | Inr r \<Rightarrow>
          (if bx = 0 then Inl ZeroDivisionError
           else if by = 0 then Inl ZeroDivisionError
           else Inr (r * besselj0 (2 * pi * sqrt ((tx / bx)\<^sup>2 + (ty / by)\<^sup>2)))))"

text \<open>Dynamic dispatch of \<open>self.autocorrelation\<close> (line 67).\<close>

definition autocorrelation :: "surface_generator \<Rightarrow> int \<Rightarrow> int \<Rightarrow> real result" where
  "autocorrelation g tx ty =
     (case kind g of
        NonGaussian \<Rightarrow> autocorrelation_ng g tx ty
      | BesselNonGaussian bx by \<Rightarrow> autocorrelation_bessel g bx by tx ty)"

text \<open>The divisors the autocorrelation needs non-zero.\<close>

definition acf_divisors_ok :: "surface_generator \<Rightarrow> bool" where
  "acf_divisors_ok g \<longleftrightarrow> corlength_x g \<noteq> 0 \<and> corlength_y g \<noteq> 0 \<and>
     (case kind g of NonGaussian \<Rightarrow> True | BesselNonGaussian bx by \<Rightarrow> bx \<noteq> 0 \<and> by \<noteq> 0)"

section \<open>Lemmas\<close>

lemma besselj0_zero [simp]: "besselj0 0 = 1"
proof -
  have "(\<Sum>k. (-1) ^ k / (fact k)\<^sup>2 * (0 / 2 :: real) ^ (2 * k)) =
        (\<Sum>k\<in>{0}. (-1) ^ k / (fact k)\<^sup>2 * (0 / 2 :: real) ^ (2 * k))"
    by (rule suminf_finite) auto
  then show ?thesis by (simp add: besselj0_def)
qed

lemma np_exp_neg_bounds:
  "(\<And>x. v = Some x \<Longrightarrow> 0 \<le> x) \<Longrightarrow> 0 \<le> np_exp_neg v \<and> np_exp_neg v \<le> 1"
  by (cases v) (auto simp: np_exp_neg_def)

lemma np_power_nonneg: "np_power x y = Some z \<Longrightarrow> 0 \<le> z"
  by (auto simp: np_power_def split: if_splits)

lemma np_power_zero:
  "np_power 0 y = (if y = 0 then Some 1 else if 0 < y then Some 0 else None)"
  by (simp add: np_power_def)

lemma autocorrelation_ng_Inr:
  "corlength_x g \<noteq> 0 \<Longrightarrow> corlength_y g \<noteq> 0 \<Longrightarrow>
   autocorrelation_ng g tx ty = Inr (rms g ^ 2 * np_exp_neg (np_power
     \<bar>sqrt ((tx / corlength_x g)\<^sup>2 + (ty / corlength_y g)\<^sup>2)\<bar> (2 * alpha g)))"
  by (simp add: autocorrelation_ng_def)

lemma default_generator_fields [simp]:
  "n_points default_generator = 128" "rms default_generator = 1"
  "corlength_x default_generator = 4" "corlength_y default_generator = 4"
  "alpha default_generator = 1" "kind default_generator = NonGaussian"
  by (simp_all add: default_generator_def NonGaussianSurfaceGenerator_def sg_init_def)


subsection \<open>Properties\<close>

text \<open>C21: At lag \<open>(0, 0)\<close> the base model is \<open>rms\<^sup>2\<close> when \<open>alpha > 0\<close>; numpy's \<open>0.0 ** 0 = 1\<close> makes it \<open>rms\<^sup>2 * exp(-1)\<close> when \<open>alpha = 0\<close>, and \<open>0.0 ** e = inf\<close> makes it \<open>0\<close> when \<open>alpha < 0\<close>.\<close>

theorem autocorrelation_ng_origin:
  assumes "corlength_x g \<noteq> 0" "corlength_y g \<noteq> 0"
  shows "autocorrelation_ng g 0 0 =
    Inr (if 0 < alpha g then (rms g)\<^sup>2 else if alpha g = 0 then (rms g)\<^sup>2 * exp (- 1) else 0)"
  using assms by (simp add: autocorrelation_ng_def np_power_zero np_exp_neg_def)

text \<open>At lag \<open>(0, 0)\<close> the Bessel model equals the base model: \<open>J\<^sub>0(0) = 1\<close>.\<close>

theorem autocorrelation_bessel_origin:
  assumes "bx \<noteq> 0" "by \<noteq> 0"
  shows "autocorrelation_bessel g bx by 0 0 = autocorrelation_ng g 0 0"
  using assms by (simp add: autocorrelation_bessel_def split: sum.split)

text \<open>C22: The autocorrelation raises exactly when a correlation length (or, in the Bessel model, a period) is zero, and then it raises ZeroDivisionError; it returns a value otherwise.\<close>

theorem autocorrelation_errors:
  "(autocorrelation g tx ty = Inl ZeroDivisionError \<longleftrightarrow> \<not> acf_divisors_ok g) \<and>
   ((\<exists>r. autocorrelation g tx ty = Inr r) \<longleftrightarrow> acf_divisors_ok g)"
  by (auto simp: autocorrelation_def autocorrelation_bessel_def autocorrelation_ng_def
      acf_divisors_ok_def split: acf_kind.splits)

text \<open>Both autocorrelation models are even in each lag.\<close>

theorem autocorrelation_even:
  "autocorrelation g (- tx) ty = autocorrelation g tx ty \<and>
   autocorrelation g tx (- ty) = autocorrelation g tx ty"
  by (simp add: autocorrelation_def autocorrelation_bessel_def autocorrelation_ng_def
      minus_divide_left [symmetric] split: acf_kind.splits)

text \<open>C23: With non-zero correlation lengths the base model returns a value between \<open>0\<close> and \<open>rms\<^sup>2\<close> at every lag, for every \<open>alpha\<close>.\<close>

theorem autocorrelation_ng_bounds:
  assumes "corlength_x g \<noteq> 0" "corlength_y g \<noteq> 0"
  shows "\<exists>r. autocorrelation_ng g tx ty = Inr r \<and> 0 \<le> r \<and> r \<le> (rms g)\<^sup>2"
proof -
  let ?v = "np_power \<bar>sqrt ((tx / corlength_x g)\<^sup>2 + (ty / corlength_y g)\<^sup>2)\<bar> (2 * alpha g)"
  have "0 \<le> np_exp_neg ?v \<and> np_exp_neg ?v \<le> 1"
    by (rule np_exp_neg_bounds) (rule np_power_nonneg)
  then have "0 \<le> (rms g)\<^sup>2 * np_exp_neg ?v \<and> (rms g)\<^sup>2 * np_exp_neg ?v \<le> (rms g)\<^sup>2"
    by (simp add: mult_left_le)
  then show ?thesis
    using assms by (simp add: autocorrelation_ng_def)
qed

theorem autocorrelation_ng_origin_witness:
  "corlength_x default_generator \<noteq> 0 \<and> corlength_y default_generator \<noteq> 0 \<and>
   autocorrelation_ng default_generator 0 0 = Inr 1"
proof -
  have h: "corlength_x default_generator \<noteq> 0" "corlength_y default_generator \<noteq> 0"
    by simp_all
  show ?thesis
    using h autocorrelation_ng_origin [OF h] by simp
qed


theorem autocorrelation_bessel_origin_witness:
  "(1000 :: real) \<noteq> 0 \<and> (1000 :: real) \<noteq> 0 \<and>
   autocorrelation_bessel default_generator 1000 1000 0 0 = autocorrelation_ng default_generator 0 0"
  using autocorrelation_bessel_origin [of 1000 1000 default_generator] by simp

theorem autocorrelation_ng_bounds_witness:
  "corlength_x default_generator \<noteq> 0 \<and> corlength_y default_generator \<noteq> 0 \<and>
   (\<exists>r. autocorrelation_ng default_generator 3 (- 2) = Inr r \<and> 0 \<le> r \<and> r \<le> (rms default_generator)\<^sup>2)"
  using autocorrelation_ng_bounds [of default_generator 3 "- 2"] by simp

text \<open>With \<open>alpha = 0\<close>, a value the constructor accepts, the base model at the
  origin is \<open>rms\<^sup>2 * exp(-1)\<close>, not \<open>rms\<^sup>2\<close>.\<close>

lemma autocorrelation_origin_alpha_zero:
  "autocorrelation_ng (NonGaussianSurfaceGenerator 8 1 0 3 4 4 0) 0 0 = Inr (exp (- 1)) \<and> exp (- 1) \<noteq> (1 :: real)"
  by (simp add: autocorrelation_ng_def NonGaussianSurfaceGenerator_def sg_init_def np_power_zero
      np_exp_neg_def)

end
