(* ===== verification/GeneratorRepr.thy ===== *)
theory GeneratorRepr
  imports Autocorrelation
begin

text \<open>
  \<open>SurfaceGenerator.__str__\<close> and \<open>__repr__\<close> (src/roughgan/data/generators.py,
  lines 23--27).  The f-string formats each field with \<open>str\<close>; Python's decimal
  formatting of ints and floats is a parameter (\<open>show_int\<close>, \<open>show_real\<close>), and the
  lemmas need of it only that it writes no comma.  The string holds the class name and
  the seven configuration fields: it determines them and nothing else, so two Bessel
  generators with different periods \<open>beta_x\<close>, \<open>beta_y\<close> print alike.
\<close>

section \<open>Definitions\<close>

text \<open>\<open>self.__class__.__name__\<close>.\<close>

definition class_name :: "acf_kind \<Rightarrow> string" where
  "class_name k = (case k of
                     NonGaussian \<Rightarrow> ''NonGaussianSurfaceGenerator''
                   | BesselNonGaussian _ _ \<Rightarrow> ''BesselNonGaussianSurfaceGenerator'')"

definition sg_str :: "(int \<Rightarrow> string) \<Rightarrow> (real \<Rightarrow> string) \<Rightarrow> surface_generator \<Rightarrow> string" where
  "sg_str show_int show_real g =
     class_name (kind g) @ ''('' @ show_int (n_points g) @ '', '' @ show_real (rms g) @ '', '' @
     show_real (skewness g) @ '', '' @ show_real (kurtosis g) @ '', '' @ show_real (corlength_x g) @
     '', '' @ show_real (corlength_y g) @ '', '' @ show_real (alpha g) @ '')''"

definition sg_repr :: "(int \<Rightarrow> string) \<Rightarrow> (real \<Rightarrow> string) \<Rightarrow> surface_generator \<Rightarrow> string" where
  "sg_repr show_int show_real g = ''<'' @ sg_str show_int show_real g @ ''>''"

section \<open>Lemmas\<close>

text \<open>A separator that occurs in neither prefix splits two strings at the same place.\<close>

lemma append_sep_eq:
  "c \<notin> set xs \<Longrightarrow> c \<notin> set xs' \<Longrightarrow>
   xs @ c # ys = xs' @ c # ys' \<longleftrightarrow> xs = xs' \<and> ys = ys'"
proof (induction xs arbitrary: xs')
  case Nil
  then show ?case by (cases xs') auto
next
  case (Cons x xs)
  then show ?case by (cases xs') auto
qed

lemma class_name_paren: "CHR ''('' \<notin> set (class_name k)"
  by (simp add: class_name_def split: acf_kind.split)

lemma class_name_eq: "class_name k = class_name k' \<longleftrightarrow> (k = NonGaussian \<longleftrightarrow> k' = NonGaussian)"
  by (simp add: class_name_def split: acf_kind.split)

text \<open>C17: When numbers are formatted without commas, two generators have
  the same \<open>repr\<close> exactly when they are of the same class and their seven configuration
  fields print alike: the Bessel periods, \<open>_length\<close> and \<open>_mean\<close> are not shown.\<close>

theorem repr_eq_iff:
  assumes si: "\<forall>n. CHR '','' \<notin> set (show_int n)" and sr: "\<forall>x. CHR '','' \<notin> set (show_real x)"
  shows "sg_repr show_int show_real g = sg_repr show_int show_real g' \<longleftrightarrow>
    (kind g = NonGaussian \<longleftrightarrow> kind g' = NonGaussian) \<and>
    show_int (n_points g) = show_int (n_points g') \<and>
    show_real (rms g) = show_real (rms g') \<and> show_real (skewness g) = show_real (skewness g') \<and>
    show_real (kurtosis g) = show_real (kurtosis g') \<and>
    show_real (corlength_x g) = show_real (corlength_x g') \<and>
    show_real (corlength_y g) = show_real (corlength_y g') \<and> show_real (alpha g) = show_real (alpha g')"
  using si sr
  by (simp add: sg_repr_def sg_str_def append_sep_eq class_name_paren class_name_eq)

subsection \<open>Witnesses\<close>

theorem repr_eq_iff_witness:
  "(\<forall>n. CHR '','' \<notin> set (replicate (nat n) CHR ''|'')) \<and>
   (\<forall>x. CHR '','' \<notin> set (replicate (nat \<lfloor>x :: real\<rfloor>) CHR ''|'')) \<and>
   sg_repr (\<lambda>n. replicate (nat n) CHR ''|'') (\<lambda>x. replicate (nat \<lfloor>x\<rfloor>) CHR ''|'')
     (BesselNonGaussianSurfaceGenerator 128 1 0 3 16 16 0.5 4000 4000) =
   sg_repr (\<lambda>n. replicate (nat n) CHR ''|'') (\<lambda>x. replicate (nat \<lfloor>x\<rfloor>) CHR ''|'')
     (BesselNonGaussianSurfaceGenerator 128 1 0 3 16 16 0.5 1 1) \<and>
   BesselNonGaussianSurfaceGenerator 128 1 0 3 16 16 0.5 4000 4000 \<noteq>
   BesselNonGaussianSurfaceGenerator 128 1 0 3 16 16 0.5 1 1"
proof -
  have h: "\<forall>n. CHR '','' \<notin> set (replicate (nat n) CHR ''|'')"
    "\<forall>x. CHR '','' \<notin> set (replicate (nat \<lfloor>x :: real\<rfloor>) CHR ''|'')"
    by simp_all
  show ?thesis
    using h repr_eq_iff [OF h, of "BesselNonGaussianSurfaceGenerator 128 1 0 3 16 16 0.5 4000 4000"
        "BesselNonGaussianSurfaceGenerator 128 1 0 3 16 16 0.5 1 1"]
    by (simp add: BesselNonGaussianSurfaceGenerator_def sg_init_def)
qed

end
