(* ===== verification/LagGrid.thy ===== *)
theory LagGrid
  imports Autocorrelation
begin

text \<open>
  The autocorrelation grid of \<open>SurfaceGenerator.generate_surface\<close>
  (src/roughgan/data/generators.py, lines 53--67): \<open>R = np.zeros((n, n))\<close>, the lag
  bounds \<open>txmin = -n // 2\<close>, \<open>txmax = n // 2\<close>, the lag step
  \<open>dtx = (txmax - txmin) // n\<close>, and two nested \<open>range\<close> loops that write
  \<open>R[tx + txmax, ty + tymax] = self.autocorrelation(tx, ty)\<close>.  The loops are
  structural recursions over the lists \<open>range\<close> yields; the right-hand side is
  evaluated before the index, as in Python, and numpy's negative indices wrap.
  The lemmas show that the step is always 1 for a positive size, that the grid is
  then filled completely, position \<open>(i, j)\<close> holding the autocorrelation at the
  lags \<open>grid_lag n i\<close>, \<open>grid_lag n j\<close>, and which exception each bad
  configuration raises.
\<close>

section \<open>Python's range\<close>

text \<open>\<open>range(a, b, s)\<close> as the list it yields; step 0 raises ValueError.\<close>

definition py_range :: "int \<Rightarrow> int \<Rightarrow> int \<Rightarrow> int list result" where
  "py_range a b s =
     (if s = 0 then Inl ValueError
      else if 0 < s then Inr (map (\<lambda>k. a + s * int k) [0..<nat ((b - a + s - 1) div s)])
      else Inr (map (\<lambda>k. a + s * int k) [0..<nat ((a - b - s - 1) div (- s))]))"

section \<open>Lag bounds and step\<close>

definition txmin :: "int \<Rightarrow> int" where
  "txmin n = (- n) div 2"

definition txmax :: "int \<Rightarrow> int" where
  "txmax n = n div 2"

text \<open>\<open>dtx = (txmax - txmin) // self.n_points\<close> (and \<open>dty\<close> alike).\<close>

definition lag_step :: "int \<Rightarrow> int result" where
  "lag_step n = py_floordiv (txmax n - txmin n) n"

section \<open>The two loops\<close>

text \<open>The inner loop, \<open>for ty in range(tymin, tymax, dty)\<close>, for one \<open>tx\<close>.\<close>

fun fill_row ::
  "(int \<Rightarrow> int \<Rightarrow> real result) \<Rightarrow> nat \<Rightarrow> int \<Rightarrow> int \<Rightarrow> int \<Rightarrow> int list \<Rightarrow>
   real list list \<Rightarrow> real list list result" where
  "fill_row acf n xoff yoff tx [] R = Inr R"
| "fill_row acf n xoff yoff tx (ty # tys) R =
     (case acf tx ty of
        Inl e \<Rightarrow> Inl e
      | Inr v \<Rightarrow> (case np_set2 n R (tx + xoff) (ty + yoff) v of
           Inl e \<Rightarrow> Inl e
         | Inr R' \<Rightarrow> fill_row acf n xoff yoff tx tys R'))"

text \<open>The outer loop, \<open>for tx in range(txmin, txmax, dtx)\<close>; the inner range is
  evaluated afresh for every \<open>tx\<close>.\<close>

fun fill_grid ::
  "(int \<Rightarrow> int \<Rightarrow> real result) \<Rightarrow> nat \<Rightarrow> int \<Rightarrow> int \<Rightarrow> int \<Rightarrow> int \<Rightarrow> int list \<Rightarrow>
   real list list \<Rightarrow> real list list result" where
  "fill_grid acf n xoff ymin ymax dty [] R = Inr R"
| "fill_grid acf n xoff ymin ymax dty (tx # txs) R =
     (case py_range ymin ymax dty of
        Inl e \<Rightarrow> Inl e
      | Inr tys \<Rightarrow> (case fill_row acf n xoff ymax tx tys R of
           Inl e \<Rightarrow> Inl e
         | Inr R' \<Rightarrow> fill_grid acf n xoff ymin ymax dty txs R'))"

text \<open>Lines 54--67: the grid \<open>R\<close> with the steps \<open>dtx\<close>, \<open>dty\<close> that line 71
  reuses.  \<open>np.zeros\<close> with a negative size raises ValueError before anything
  else runs.\<close>

definition lag_grid :: "surface_generator \<Rightarrow> (real list list \<times> int \<times> int) result" where
  "lag_grid g =
     (let n = n_points g in
      if n < 0 then Inl ValueError
      else
        (case lag_step n of
           Inl e \<Rightarrow> Inl e
         | Inr dtx \<Rightarrow> (case lag_step n of
              Inl e \<Rightarrow> Inl e
            | Inr dty \<Rightarrow> (case py_range (txmin n) (txmax n) dtx of
                 Inl e \<Rightarrow> Inl e
               | Inr txs \<Rightarrow>
                   (case fill_grid (autocorrelation g) (nat n) (txmax n) (txmin n) (txmax n) dty txs
                           (np_zeros (nat n)) of
                      Inl e \<Rightarrow> Inl e
                    | Inr R \<Rightarrow> Inr (R, dtx, dty))))))"

text \<open>The grid position numpy writes for index \<open>t\<close>.\<close>

abbreviation wpos :: "nat \<Rightarrow> int \<Rightarrow> nat" where
  "wpos n t \<equiv> nat (t mod int n)"

text \<open>The lag that lands at grid position \<open>i\<close>: the one lag of
  \<open>[txmin, txmax)\<close> whose index \<open>tx + txmax\<close> wraps to \<open>i\<close>.\<close>

definition grid_lag :: "int \<Rightarrow> nat \<Rightarrow> int" where
  "grid_lag n i = txmin n + (int i - txmax n - txmin n) mod n"

section \<open>Lemmas\<close>

lemma txmax_minus_txmin: "txmax n - txmin n = n"
  unfolding txmax_def txmin_def by presburger

lemma txmin_txmax_sum: "- 1 \<le> txmin n + txmax n \<and> txmin n + txmax n \<le> 0"
  unfolding txmax_def txmin_def by presburger

text \<open>C25: For every positive grid size the lag step \<open>(txmax - txmin) // n_points\<close> is exactly 1: \<open>txmax - txmin = n_points\<close> under Python's floor division.\<close>

theorem lag_step_one: "0 < n \<Longrightarrow> lag_step n = Inr 1"
  by (simp add: lag_step_def py_floordiv_def txmax_minus_txmin)

lemma lag_step_zero: "lag_step 0 = Inl ZeroDivisionError"
  by (simp add: lag_step_def py_floordiv_def)

lemma py_range_step_one: "py_range a b 1 = Inr (map (\<lambda>k. a + int k) [0..<nat (b - a)])"
  by (simp add: py_range_def)

lemma set_py_range_one: "set (map (\<lambda>k. a + int k) [0..<nat (b - a)]) = {a..<b}"
proof -
  have "t \<in> (\<lambda>k. a + int k) ` {0..<nat (b - a)}" if "a \<le> t" "t < b" for t
    using that by (intro image_eqI [of _ _ "nat (t - a)"]) auto
  then show ?thesis by auto
qed

lemma distinct_py_range_one: "distinct (map (\<lambda>k. a + int k) [0..<nat (b - a)])"
  by (simp add: distinct_map inj_on_def)

lemma mod_window_inj:
  fixes x y a c n :: int
  assumes "a \<le> x" "x < a + n" "a \<le> y" "y < a + n" "(x + c) mod n = (y + c) mod n"
  shows "x = y"
proof (rule ccontr)
  assume ne: "x \<noteq> y"
  from assms(5) have "n dvd (x + c) - (y + c)"
    by (simp add: mod_eq_dvd_iff)
  then have "n dvd x - y" by simp
  with ne have "\<bar>n\<bar> \<le> \<bar>x - y\<bar>"
    by (simp add: dvd_imp_le_int)
  with assms(1-4) show False by linarith
qed

lemma wpos_less: "- int n \<le> t \<Longrightarrow> t < int n \<Longrightarrow> wpos n t < n"
  by (simp add: nat_less_iff)

lemma fill_row_Inr:
  assumes "square n R"
    and "\<forall>ty\<in>set tys. acf tx ty = Inr (f ty)"
    and "- int n \<le> tx + xoff" "tx + xoff < int n"
    and "\<forall>t\<in>set tys. - int n \<le> t + yoff \<and> t + yoff < int n"
    and "inj_on (\<lambda>t. wpos n (t + yoff)) (set tys)" "distinct tys"
  shows "\<exists>R'. fill_row acf n xoff yoff tx tys R = Inr R' \<and> square n R' \<and>
    (\<forall>ty\<in>set tys. R' ! wpos n (tx + xoff) ! wpos n (ty + yoff) = f ty) \<and>
    (\<forall>i<n. \<forall>j<n. (i \<noteq> wpos n (tx + xoff) \<or> j \<notin> (\<lambda>t. wpos n (t + yoff)) ` set tys) \<longrightarrow>
        R' ! i ! j = R ! i ! j)"
  using assms
proof (induction tys arbitrary: R)
  case Nil
  then show ?case by simp
next
  case (Cons ty tys)
  have yr: "- int n \<le> ty + yoff" "ty + yoff < int n"
    using Cons.prems(5) by auto
  obtain R1 where R1: "np_set2 n R (tx + xoff) (ty + yoff) (f ty) = Inr R1" "square n R1"
    "\<forall>i<n. \<forall>j<n. R1 ! i ! j =
       (if i = wpos n (tx + xoff) \<and> j = wpos n (ty + yoff) then f ty else R ! i ! j)"
    using np_set2_nth [OF Cons.prems(1) Cons.prems(3,4) yr] by blast
  obtain R' where R': "fill_row acf n xoff yoff tx tys R1 = Inr R'" "square n R'"
    "\<forall>t\<in>set tys. R' ! wpos n (tx + xoff) ! wpos n (t + yoff) = f t"
    "\<forall>i<n. \<forall>j<n. (i \<noteq> wpos n (tx + xoff) \<or> j \<notin> (\<lambda>t. wpos n (t + yoff)) ` set tys) \<longrightarrow>
        R' ! i ! j = R1 ! i ! j"
    using Cons.IH [OF R1(2)] Cons.prems(2-7) by (auto simp: inj_on_insert)
  have notin: "wpos n (ty + yoff) \<notin> (\<lambda>t. wpos n (t + yoff)) ` set tys"
    using Cons.prems(6,7) by (auto simp: inj_on_insert)
  have P: "wpos n (tx + xoff) < n" "wpos n (ty + yoff) < n"
    using Cons.prems(3,4) yr by (simp_all add: wpos_less)
  have run: "fill_row acf n xoff yoff tx (ty # tys) R = Inr R'"
    using Cons.prems(2) R1(1) R'(1) by simp
  have hit: "R' ! wpos n (tx + xoff) ! wpos n (ty + yoff) = f ty"
    using R'(4) R1(3) P notin by simp
  show ?case
    using run R'(2,3) hit R'(4) R1(3) by auto
qed

lemma fill_grid_Inr:
  assumes "square n R" and tys: "py_range ymin ymax dty = Inr tys"
    and "\<forall>tx\<in>set txs. \<forall>ty\<in>set tys. acf tx ty = Inr (f tx ty)"
    and "\<forall>t\<in>set txs. - int n \<le> t + xoff \<and> t + xoff < int n"
    and "\<forall>t\<in>set tys. - int n \<le> t + ymax \<and> t + ymax < int n"
    and "inj_on (\<lambda>t. wpos n (t + ymax)) (set tys)" "distinct tys"
    and "inj_on (\<lambda>t. wpos n (t + xoff)) (set txs)" "distinct txs"
  shows "\<exists>R'. fill_grid acf n xoff ymin ymax dty txs R = Inr R' \<and> square n R' \<and>
    (\<forall>tx\<in>set txs. \<forall>ty\<in>set tys. R' ! wpos n (tx + xoff) ! wpos n (ty + ymax) = f tx ty) \<and>
    (\<forall>i<n. \<forall>j<n. (i \<notin> (\<lambda>t. wpos n (t + xoff)) ` set txs \<or> j \<notin> (\<lambda>t. wpos n (t + ymax)) ` set tys) \<longrightarrow>
        R' ! i ! j = R ! i ! j)"
  using assms(1,3-)
proof (induction txs arbitrary: R)
  case Nil
  then show ?case by simp
next
  case (Cons tx txs)
  have xr: "- int n \<le> tx + xoff" "tx + xoff < int n"
    using Cons.prems(3) by auto
  obtain R1 where R1: "fill_row acf n xoff ymax tx tys R = Inr R1" "square n R1"
    "\<forall>ty\<in>set tys. R1 ! wpos n (tx + xoff) ! wpos n (ty + ymax) = f tx ty"
    "\<forall>i<n. \<forall>j<n. (i \<noteq> wpos n (tx + xoff) \<or> j \<notin> (\<lambda>t. wpos n (t + ymax)) ` set tys) \<longrightarrow>
        R1 ! i ! j = R ! i ! j"
    using fill_row_Inr [OF Cons.prems(1) _ xr Cons.prems(4-6), of acf "f tx"] Cons.prems(2)
    by auto
  obtain R' where R': "fill_grid acf n xoff ymin ymax dty txs R1 = Inr R'" "square n R'"
    "\<forall>tx\<in>set txs. \<forall>ty\<in>set tys. R' ! wpos n (tx + xoff) ! wpos n (ty + ymax) = f tx ty"
    "\<forall>i<n. \<forall>j<n. (i \<notin> (\<lambda>t. wpos n (t + xoff)) ` set txs \<or> j \<notin> (\<lambda>t. wpos n (t + ymax)) ` set tys) \<longrightarrow>
        R' ! i ! j = R1 ! i ! j"
    using Cons.IH [OF R1(2)] Cons.prems(2-8) by (auto simp: inj_on_insert)
  have notin: "wpos n (tx + xoff) \<notin> (\<lambda>t. wpos n (t + xoff)) ` set txs"
    using Cons.prems(7,8) by (auto simp: inj_on_insert)
  have P: "wpos n (tx + xoff) < n"
    using xr by (simp add: wpos_less)
  have Q: "wpos n (ty + ymax) < n" if "ty \<in> set tys" for ty
    using Cons.prems(4) that by (simp add: wpos_less)
  have run: "fill_grid acf n xoff ymin ymax dty (tx # txs) R = Inr R'"
    using tys R1(1) R'(1) by simp
  have hit: "R' ! wpos n (tx + xoff) ! wpos n (ty + ymax) = f tx ty" if "ty \<in> set tys" for ty
    using R'(4) R1(3) P Q [OF that] notin that by simp
  show ?case
    using run R'(2,3) hit R'(4) R1(4) by auto
qed

subsection \<open>The grid\<close>

lemma autocorrelation_ok_Inr:
  "acf_divisors_ok g \<Longrightarrow> autocorrelation g tx ty = Inr (projr (autocorrelation g tx ty))"
  by (auto simp: autocorrelation_def autocorrelation_bessel_def autocorrelation_ng_def
      acf_divisors_ok_def split: acf_kind.splits)

lemma autocorrelation_bad_Inl:
  "\<not> acf_divisors_ok g \<Longrightarrow> autocorrelation g tx ty = Inl ZeroDivisionError"
  by (auto simp: autocorrelation_def autocorrelation_bessel_def autocorrelation_ng_def
      acf_divisors_ok_def split: acf_kind.splits sum.split)

lemma grid_lag_props:
  assumes "0 < n" "i < nat n"
  shows "txmin n \<le> grid_lag n i" "grid_lag n i < txmax n"
    and "wpos (nat n) (grid_lag n i + txmax n) = i"
proof -
  have m: "0 \<le> (int i - txmax n - txmin n) mod n" "(int i - txmax n - txmin n) mod n < n"
    using assms(1) by simp_all
  then show "txmin n \<le> grid_lag n i" "grid_lag n i < txmax n"
    using txmax_minus_txmin [of n] by (simp_all add: grid_lag_def)
  have "grid_lag n i + txmax n = (txmin n + txmax n) + (int i - txmax n - txmin n) mod n"
    by (simp add: grid_lag_def)
  then have "(grid_lag n i + txmax n) mod n = (txmin n + txmax n + (int i - txmax n - txmin n)) mod n"
    by (simp only: mod_add_right_eq)
  also have "\<dots> = int i mod n" by simp
  also have "\<dots> = int i" using assms by simp
  finally show "wpos (nat n) (grid_lag n i + txmax n) = i"
    using assms(1) by simp
qed

lemma lag_window:
  assumes "0 < n" "txmin n \<le> t" "t < txmax n"
  shows "- int (nat n) \<le> t + txmax n" "t + txmax n < int (nat n)"
  using assms txmin_txmax_sum [of n] txmax_minus_txmin [of n]
  by (simp_all add: txmax_def txmin_def)

lemma lag_inj:
  assumes "0 < n"
  shows "inj_on (\<lambda>t. wpos (nat n) (t + txmax n)) {txmin n..<txmax n}"
proof (rule inj_onI)
  fix x y assume x: "x \<in> {txmin n..<txmax n}" and y: "y \<in> {txmin n..<txmax n}"
    and eq: "wpos (nat n) (x + txmax n) = wpos (nat n) (y + txmax n)"
  then have "(x + txmax n) mod n = (y + txmax n) mod n"
    using assms by (simp add: eq_nat_nat_iff)
  then show "x = y"
    using x y txmax_minus_txmin [of n] by (intro mod_window_inj [of "txmin n" x n y "txmax n"]) auto
qed

abbreviation lag_range :: "int \<Rightarrow> int list" where
  "lag_range n \<equiv> map (\<lambda>k. txmin n + int k) [0..<nat n]"

lemma lag_grid_pos:
  assumes "0 < n_points g"
  shows "lag_grid g =
    (case fill_grid (autocorrelation g) (nat (n_points g)) (txmax (n_points g)) (txmin (n_points g))
            (txmax (n_points g)) 1 (lag_range (n_points g)) (np_zeros (nat (n_points g))) of
       Inl e \<Rightarrow> Inl e
     | Inr R \<Rightarrow> Inr (R, 1, 1))"
  using assms by (simp add: lag_grid_def Let_def lag_step_def py_floordiv_def txmax_minus_txmin py_range_step_one)

lemma fill_lag_grid:
  assumes n: "0 < n_points g" and ok: "acf_divisors_ok g"
  shows "\<exists>R. fill_grid (autocorrelation g) (nat (n_points g)) (txmax (n_points g)) (txmin (n_points g))
            (txmax (n_points g)) 1 (lag_range (n_points g)) (np_zeros (nat (n_points g))) = Inr R \<and>
           square (nat (n_points g)) R \<and>
           (\<forall>tx \<in> {txmin (n_points g)..<txmax (n_points g)}. \<forall>ty \<in> {txmin (n_points g)..<txmax (n_points g)}.
              autocorrelation g tx ty =
              Inr (R ! wpos (nat (n_points g)) (tx + txmax (n_points g)) ! wpos (nat (n_points g)) (ty + txmax (n_points g))))"
proof -
  let ?n = "n_points g" and ?N = "nat (n_points g)"
  let ?ts = "lag_range ?n"
  let ?f = "\<lambda>tx ty. projr (autocorrelation g tx ty)"
  have rng: "py_range (txmin ?n) (txmax ?n) 1 = Inr ?ts"
    using py_range_step_one [of "txmin ?n" "txmax ?n"] by (simp add: txmax_minus_txmin)
  have set_ts: "set ?ts = {txmin ?n..<txmax ?n}" and dist: "distinct ?ts"
    using set_py_range_one [of "txmin ?n" "txmax ?n"] distinct_py_range_one [of "txmin ?n" "txmax ?n"]
    by (simp_all add: txmax_minus_txmin)
  have win: "\<forall>t\<in>set ?ts. - int ?N \<le> t + txmax ?n \<and> t + txmax ?n < int ?N"
    using lag_window [OF n] set_ts by auto
  have inj: "inj_on (\<lambda>t. wpos ?N (t + txmax ?n)) (set ?ts)"
    using lag_inj [OF n] set_ts by simp
  have acf: "\<forall>tx\<in>set ?ts. \<forall>ty\<in>set ?ts. autocorrelation g tx ty = Inr (?f tx ty)"
    using autocorrelation_ok_Inr [OF ok] by blast
  obtain R where R: "fill_grid (autocorrelation g) ?N (txmax ?n) (txmin ?n) (txmax ?n) 1 ?ts
        (np_zeros ?N) = Inr R" "square ?N R"
    "\<forall>tx\<in>set ?ts. \<forall>ty\<in>set ?ts. R ! wpos ?N (tx + txmax ?n) ! wpos ?N (ty + txmax ?n) = ?f tx ty"
    using fill_grid_Inr [OF square_np_zeros rng acf win win inj dist inj dist] by blast
  have "autocorrelation g tx ty = Inr (R ! wpos ?N (tx + txmax ?n) ! wpos ?N (ty + txmax ?n))"
    if "tx \<in> {txmin ?n..<txmax ?n}" "ty \<in> {txmin ?n..<txmax ?n}" for tx ty
  proof -
    have t: "tx \<in> set ?ts" "ty \<in> set ?ts" using that set_ts by blast+
    have "autocorrelation g tx ty = Inr (?f tx ty)" using acf t by blast
    moreover have "R ! wpos ?N (tx + txmax ?n) ! wpos ?N (ty + txmax ?n) = ?f tx ty"
      using R(3) t by blast
    ultimately show ?thesis by simp
  qed
  with R(1,2) show ?thesis by blast
qed

lemma lag_grid_square:
  "0 < n_points g \<Longrightarrow> acf_divisors_ok g \<Longrightarrow>
   \<exists>R. lag_grid g = Inr (R, 1, 1) \<and> square (nat (n_points g)) R"
  using fill_lag_grid [of g] lag_grid_pos [of g] by auto

lemma lag_grid_bad_divisor:
  assumes n: "0 < n_points g" and bad: "\<not> acf_divisors_ok g"
  shows "lag_grid g = Inl ZeroDivisionError"
proof -
  let ?n = "n_points g"
  let ?rest = "map (\<lambda>k. txmin ?n + int k) [1..<nat ?n]"
  have ts: "lag_range ?n = txmin ?n # ?rest"
    using n by (simp add: upt_conv_Cons)
  have "fill_grid (autocorrelation g) (nat ?n) (txmax ?n) (txmin ?n) (txmax ?n) 1
        (lag_range ?n) R = Inl ZeroDivisionError" for R
    using bad by (simp add: ts py_range_step_one txmax_minus_txmin autocorrelation_bad_Inl)
  then show ?thesis
    using lag_grid_pos [OF n] by simp
qed

text \<open>C24: For a positive size and non-zero divisors, lines 54--67 succeed with steps \<open>dtx = dty = 1\<close> and fill every cell of the \<open>n \<times> n\<close> grid: cell \<open>(i, j)\<close> holds the autocorrelation at lags \<open>grid_lag n i\<close>, \<open>grid_lag n j\<close>.\<close>

theorem lag_grid_filled:
  assumes n: "0 < n_points g" and ok: "acf_divisors_ok g"
  shows "\<exists>R. lag_grid g = Inr (R, 1, 1) \<and> square (nat (n_points g)) R \<and>
    (\<forall>i < nat (n_points g). \<forall>j < nat (n_points g).
       autocorrelation g (grid_lag (n_points g) i) (grid_lag (n_points g) j) = Inr (R ! i ! j))"
proof -
  let ?n = "n_points g"
  obtain R where R: "fill_grid (autocorrelation g) (nat ?n) (txmax ?n) (txmin ?n) (txmax ?n) 1
        (lag_range ?n) (np_zeros (nat ?n)) = Inr R" "square (nat ?n) R"
    "\<forall>tx \<in> {txmin ?n..<txmax ?n}. \<forall>ty \<in> {txmin ?n..<txmax ?n}.
       autocorrelation g tx ty = Inr (R ! wpos (nat ?n) (tx + txmax ?n) ! wpos (nat ?n) (ty + txmax ?n))"
    using fill_lag_grid [OF n ok] by blast
  have "autocorrelation g (grid_lag ?n i) (grid_lag ?n j) = Inr (R ! i ! j)"
    if "i < nat ?n" "j < nat ?n" for i j
    using R(3) grid_lag_props [OF n that(1)] grid_lag_props [OF n that(2)] by simp
  then show ?thesis
    using R(1,2) lag_grid_pos [OF n] by auto
qed

text \<open>Grid position \<open>i\<close> holds lag \<open>i - n // 2\<close>, except for odd \<open>n\<close> at the last position, where numpy's index wrap-around puts the most negative lag \<open>-(n + 1) // 2\<close>.\<close>

lemma grid_lag_formula:
  assumes "0 < n" "i < nat n"
  shows "grid_lag n i = (if odd n \<and> int i = n - 1 then - ((n + 1) div 2) else int i - n div 2)"
proof (cases "even n")
  case True
  then have "txmin n = - (n div 2)" "txmax n = n div 2"
    by (auto simp: txmin_def txmax_def elim!: evenE)
  with True assms show ?thesis
    by (simp add: grid_lag_def)
next
  case False
  then obtain k where k: "n = 2 * k + 1" by (auto elim: oddE)
  then have mm: "txmin n = - k - 1" "txmax n = k"
    by (simp_all add: txmin_def txmax_def)
  show ?thesis
  proof (cases "int i = n - 1")
    case True
    with mm k have "(int i - txmax n - txmin n) mod n = 0" by simp
    with mm k True False show ?thesis by (simp add: grid_lag_def)
  next
    case ne: False
    with assms have "int i + 1 < n" by simp
    with mm k have "(int i - txmax n - txmin n) mod n = int i + 1" by simp
    with mm k ne False show ?thesis by (simp add: grid_lag_def)
  qed
qed

text \<open>C26: For a positive size and non-zero divisors, cell \<open>(i, j)\<close> of the
  grid of lines 54--67 holds the autocorrelation at lags \<open>i - n // 2\<close>, \<open>j - n // 2\<close>, except
  that for odd \<open>n\<close> the last row and column, written through numpy's index wrap-around,
  hold the most negative lag \<open>-(n + 1) // 2\<close>: the grid is not centred for odd \<open>n\<close>.\<close>

theorem lag_grid_cell_lags:
  assumes n: "0 < n_points g" and ok: "acf_divisors_ok g"
  shows "\<exists>R. lag_grid g = Inr (R, 1, 1) \<and>
    (\<forall>i < nat (n_points g). \<forall>j < nat (n_points g).
       autocorrelation g
         (if odd (n_points g) \<and> int i = n_points g - 1 then - ((n_points g + 1) div 2) else int i - n_points g div 2)
         (if odd (n_points g) \<and> int j = n_points g - 1 then - ((n_points g + 1) div 2) else int j - n_points g div 2)
       = Inr (R ! i ! j))"
proof -
  let ?n = "n_points g"
  obtain R where R: "fill_grid (autocorrelation g) (nat ?n) (txmax ?n) (txmin ?n) (txmax ?n) 1
        (lag_range ?n) (np_zeros (nat ?n)) = Inr R"
    "\<forall>tx \<in> {txmin ?n..<txmax ?n}. \<forall>ty \<in> {txmin ?n..<txmax ?n}.
       autocorrelation g tx ty = Inr (R ! wpos (nat ?n) (tx + txmax ?n) ! wpos (nat ?n) (ty + txmax ?n))"
    using fill_lag_grid [OF n ok] by blast
  have "autocorrelation g (grid_lag ?n i) (grid_lag ?n j) = Inr (R ! i ! j)"
    if "i < nat ?n" "j < nat ?n" for i j
    using R(2) grid_lag_props [OF n that(1)] grid_lag_props [OF n that(2)] by simp
  then show ?thesis
    using R(1) lag_grid_pos [OF n] grid_lag_formula [OF n] by auto
qed

text \<open>C27: A negative size raises ValueError (in \<open>np.zeros\<close>), size 0 raises ZeroDivisionError (in the lag step), and a zero correlation length or period raises ZeroDivisionError at the first autocorrelation call.\<close>

theorem lag_grid_errors:
  "(n_points g < 0 \<longrightarrow> lag_grid g = Inl ValueError) \<and>
   (n_points g = 0 \<longrightarrow> lag_grid g = Inl ZeroDivisionError) \<and>
   (0 < n_points g \<and> \<not> acf_divisors_ok g \<longrightarrow> lag_grid g = Inl ZeroDivisionError)"
proof (intro conjI impI)
  assume "n_points g < 0"
  then show "lag_grid g = Inl ValueError" by (simp add: lag_grid_def)
next
  assume "n_points g = 0"
  then show "lag_grid g = Inl ZeroDivisionError" by (simp add: lag_grid_def lag_step_zero)
next
  assume "0 < n_points g \<and> \<not> acf_divisors_ok g"
  then show "lag_grid g = Inl ZeroDivisionError" by (simp add: lag_grid_bad_divisor)
qed

subsection \<open>Witnesses\<close>

theorem lag_step_one_witness: "0 < (8 :: int) \<and> lag_step 8 = Inr 1"
  using lag_step_one [of 8] by simp

lemma sample_generator_ok:
  "0 < n_points (NonGaussianSurfaceGenerator 2 1 0 3 4 4 1)"
  "acf_divisors_ok (NonGaussianSurfaceGenerator 2 1 0 3 4 4 1)"
  by (simp_all add: NonGaussianSurfaceGenerator_def sg_init_def acf_divisors_ok_def)

theorem lag_grid_filled_witness:
  "0 < n_points (NonGaussianSurfaceGenerator 2 1 0 3 4 4 1) \<and>
   acf_divisors_ok (NonGaussianSurfaceGenerator 2 1 0 3 4 4 1) \<and>
   (\<exists>R. lag_grid (NonGaussianSurfaceGenerator 2 1 0 3 4 4 1) = Inr (R, 1, 1) \<and>
      square (nat (n_points (NonGaussianSurfaceGenerator 2 1 0 3 4 4 1))) R \<and>
      (\<forall>i < nat (n_points (NonGaussianSurfaceGenerator 2 1 0 3 4 4 1)).
       \<forall>j < nat (n_points (NonGaussianSurfaceGenerator 2 1 0 3 4 4 1)).
         autocorrelation (NonGaussianSurfaceGenerator 2 1 0 3 4 4 1)
           (grid_lag (n_points (NonGaussianSurfaceGenerator 2 1 0 3 4 4 1)) i)
           (grid_lag (n_points (NonGaussianSurfaceGenerator 2 1 0 3 4 4 1)) j) = Inr (R ! i ! j)))"
  using sample_generator_ok lag_grid_filled [OF sample_generator_ok] by blast

theorem lag_grid_errors_witness:
  "lag_grid (NonGaussianSurfaceGenerator (- 1) 1 0 3 4 4 1) = Inl ValueError \<and>
   lag_grid (NonGaussianSurfaceGenerator 0 1 0 3 4 4 1) = Inl ZeroDivisionError \<and>
   lag_grid (NonGaussianSurfaceGenerator 8 1 0 3 0 4 1) = Inl ZeroDivisionError"
proof (intro conjI)
  show "lag_grid (NonGaussianSurfaceGenerator (- 1) 1 0 3 4 4 1) = Inl ValueError"
    by (rule lag_grid_errors [THEN conjunct1, THEN mp])
      (simp add: NonGaussianSurfaceGenerator_def sg_init_def)
  show "lag_grid (NonGaussianSurfaceGenerator 0 1 0 3 4 4 1) = Inl ZeroDivisionError"
    by (rule lag_grid_errors [THEN conjunct2, THEN conjunct1, THEN mp])
      (simp add: NonGaussianSurfaceGenerator_def sg_init_def)
  show "lag_grid (NonGaussianSurfaceGenerator 8 1 0 3 0 4 1) = Inl ZeroDivisionError"
    by (rule lag_grid_errors [THEN conjunct2, THEN conjunct2, THEN mp])
      (simp add: NonGaussianSurfaceGenerator_def sg_init_def acf_divisors_ok_def)
qed

lemma odd_generator_ok:
  "0 < n_points (NonGaussianSurfaceGenerator 3 1 0 3 4 4 1)"
  "acf_divisors_ok (NonGaussianSurfaceGenerator 3 1 0 3 4 4 1)"
  by (simp_all add: NonGaussianSurfaceGenerator_def sg_init_def acf_divisors_ok_def)

theorem lag_grid_cell_lags_witness:
  "0 < n_points (NonGaussianSurfaceGenerator 3 1 0 3 4 4 1) \<and>
   acf_divisors_ok (NonGaussianSurfaceGenerator 3 1 0 3 4 4 1) \<and>
   (\<exists>R. lag_grid (NonGaussianSurfaceGenerator 3 1 0 3 4 4 1) = Inr (R, 1, 1) \<and>
      autocorrelation (NonGaussianSurfaceGenerator 3 1 0 3 4 4 1) (- 2) 0 = Inr (R ! 2 ! 1))"
proof -
  obtain R where R: "lag_grid (NonGaussianSurfaceGenerator 3 1 0 3 4 4 1) = Inr (R, 1, 1)"
    "\<forall>i < nat (n_points (NonGaussianSurfaceGenerator 3 1 0 3 4 4 1)).
     \<forall>j < nat (n_points (NonGaussianSurfaceGenerator 3 1 0 3 4 4 1)).
       autocorrelation (NonGaussianSurfaceGenerator 3 1 0 3 4 4 1)
         (if odd (n_points (NonGaussianSurfaceGenerator 3 1 0 3 4 4 1)) \<and>
             int i = n_points (NonGaussianSurfaceGenerator 3 1 0 3 4 4 1) - 1
          then - ((n_points (NonGaussianSurfaceGenerator 3 1 0 3 4 4 1) + 1) div 2)
          else int i - n_points (NonGaussianSurfaceGenerator 3 1 0 3 4 4 1) div 2)
         (if odd (n_points (NonGaussianSurfaceGenerator 3 1 0 3 4 4 1)) \<and>
             int j = n_points (NonGaussianSurfaceGenerator 3 1 0 3 4 4 1) - 1
          then - ((n_points (NonGaussianSurfaceGenerator 3 1 0 3 4 4 1) + 1) div 2)
          else int j - n_points (NonGaussianSurfaceGenerator 3 1 0 3 4 4 1) div 2)
       = Inr (R ! i ! j)"
    using lag_grid_cell_lags [OF odd_generator_ok] by blast
  have e: "n_points (NonGaussianSurfaceGenerator 3 1 0 3 4 4 1) = 3"
    by (simp add: NonGaussianSurfaceGenerator_def sg_init_def)
  have "autocorrelation (NonGaussianSurfaceGenerator 3 1 0 3 4 4 1) (- 2) 0 = Inr (R ! 2 ! 1)"
    using R(2) [unfolded e, rule_format, of 2 1] by simp
  then show ?thesis using R(1) odd_generator_ok by blast
qed

end
