(* ===== verification/Fourier.thy ===== *)
theory Fourier
  imports Prelude
begin

text \<open>
  numpy's two-dimensional discrete Fourier transforms as the generator uses them
  (src/roughgan/data/generators.py, lines 70, 81 and 87):
  \<open>np.fft.fft2(A, s=(n, n))\<close> and \<open>np.fft.ifft2(A, s=(n, n))\<close> on an
  \<open>n \<times> n\<close> array, where the shape argument neither pads nor crops.  Both are
  defined by their sums; numpy's FFT algorithm computes the same values and is
  not modelled.  The lemmas are the orthogonality of the roots of unity and the effect of a constant shift: adding \<open>c\<close> to every
  entry changes only the zero-frequency coefficient of \<open>fft2\<close>, and raising the
  zero-frequency coefficient by \<open>d\<close> adds \<open>d / n\<^sup>2\<close> to every entry of \<open>ifft2\<close>.
\<close>

text \<open>\<open>np.fft.fft2\<close>: \<open>F[k, l]\<close> is the sum over \<open>m, n < N\<close> of
  \<open>A[m, n] * exp(-2 pi i (m k + n l) / N)\<close>.\<close>

definition fft2 :: "complex list list \<Rightarrow> complex list list" where
  "fft2 A = (let N = length A in
     map (\<lambda>k. map (\<lambda>l. \<Sum>m<N. \<Sum>n<N. A ! m ! n * cis (- 2 * pi * real (m * k + n * l) / N))
       [0..<N]) [0..<N])"

text \<open>\<open>np.fft.ifft2\<close>: the conjugate kernel, divided by \<open>n\<^sup>2\<close>.\<close>

definition ifft2 :: "complex list list \<Rightarrow> complex list list" where
  "ifft2 A = (let N = length A in
     map (\<lambda>m. map (\<lambda>n. (\<Sum>k<N. \<Sum>l<N. A ! k ! l * cis (2 * pi * real (m * k + n * l) / N))
       / of_nat (N * N)) [0..<N]) [0..<N])"

section \<open>Lemmas\<close>

lemma cis_eq_1_iff: "cis x = 1 \<longleftrightarrow> (\<exists>m::int. x = m * 2 * pi)"
proof
  assume "cis x = 1"
  then have "cos x = 1" by (metis cis.sel(1) one_complex.sel(1))
  then show "\<exists>m::int. x = m * 2 * pi" by (simp add: cos_one_2pi_int)
next
  assume "\<exists>m::int. x = m * 2 * pi"
  then obtain m :: int where "x = real_of_int m * 2 * pi" by (elim exE) simp
  then show "cis x = 1"
    by (metis cis_multiple_2pi Ints_of_int mult.commute mult.left_commute)
qed

lemma roots_sum:
  fixes N :: nat and a :: int
  assumes "0 < N"
  shows "(\<Sum>k<N. cis (2 * pi * a * real k / N)) = (if int N dvd a then of_nat N else 0)"
proof -
  define z where "z = cis (2 * pi * a / N)"
  have pow: "cis (2 * pi * a * real k / N) = z ^ k" for k :: nat
    by (simp add: z_def DeMoivre mult.commute mult.left_commute)
  have zN: "z ^ N = 1"
  proof -
    have "z ^ N = cis (2 * pi * a)" using assms by (simp add: z_def DeMoivre)
    also have "\<dots> = 1" by (metis cis_multiple_2pi Ints_of_int)
    finally show ?thesis .
  qed
  show ?thesis
  proof (cases "int N dvd a")
    case True
    then obtain m where a: "a = int N * m" by (auto elim: dvdE)
    have "z = 1"
      using assms by (simp add: z_def a cis_eq_1_iff)
    then show ?thesis using True by (simp add: pow)
  next
    case False
    have "z \<noteq> 1"
    proof
      assume "z = 1"
      then obtain m :: int where "2 * pi * a / N = m * 2 * pi"
        by (auto simp: z_def cis_eq_1_iff)
      then have "real_of_int a = real_of_int m * real N"
        using assms by (simp add: field_simps)
      then have "a = m * int N" by (metis of_int_eq_iff of_int_mult of_int_of_nat_eq)
      with False show False by simp
    qed
    then have "(\<Sum>k<N. z ^ k) = 0"
      using zN by (simp add: geometric_sum)
    then show ?thesis using False by (simp add: pow)
  qed
qed

lemma sum_if_const: "(\<Sum>x\<in>S. if P then f x else 0) = (if P then sum f S else 0)"
  by (cases P) simp_all

lemma fft2_entry:
  "square N A \<Longrightarrow> k < N \<Longrightarrow> l < N \<Longrightarrow>
   fft2 A ! k ! l = (\<Sum>m<N. \<Sum>n<N. A ! m ! n * cis (- 2 * pi * real (m * k + n * l) / N))"
  by (simp add: fft2_def square_iff)

lemma square_fft2: "square N A \<Longrightarrow> square N (fft2 A)"
  by (simp add: fft2_def square_iff)

lemma square_ifft2: "square N A \<Longrightarrow> square N (ifft2 A)"
  by (simp add: ifft2_def square_iff)

lemma ifft2_entry:
  "square N A \<Longrightarrow> m < N \<Longrightarrow> n < N \<Longrightarrow>
   ifft2 A ! m ! n = (\<Sum>k<N. \<Sum>l<N. A ! k ! l * cis (2 * pi * real (m * k + n * l) / N)) / of_nat (N * N)"
  by (simp add: ifft2_def square_iff)

lemma dc_sum:
  assumes "0 < N" "k < N"
  shows "(\<Sum>m<N. cis (- 2 * pi * real (m * k) / N)) = (if k = 0 then of_nat N else 0)"
proof -
  have "int N dvd - int k \<longleftrightarrow> k = 0"
  proof
    assume dv: "int N dvd - int k"
    show "k = 0"
    proof (rule ccontr)
      assume "k \<noteq> 0"
      then have "- int k \<noteq> 0" by simp
      then have "\<bar>int N\<bar> \<le> \<bar>- int k\<bar>" using dv by (rule dvd_imp_le_int)
      with assms show False by simp
    qed
  qed simp
  moreover have "cis (- 2 * pi * real (m * k) / N) = cis (2 * pi * real_of_int (- int k) * real m / N)" for m
    by (simp add: algebra_simps)
  ultimately show ?thesis
    using roots_sum [OF assms(1), of "- int k"] by simp
qed

lemma kernel_product:
  fixes N :: nat
  shows "(\<Sum>m<N. cis (- 2 * pi * real (m * k) / N)) * (\<Sum>n<N. cis (- 2 * pi * real (n * l) / N)) =
         (\<Sum>m<N. \<Sum>n<N. cis (- 2 * pi * real (m * k + n * l) / N))"
  by (simp add: sum_product cis_mult add_divide_distrib diff_divide_distrib algebra_simps)

lemma fft2_add_const:
  assumes sq: "square N A" and k: "k < N" and l: "l < N"
  shows "fft2 (map2d (\<lambda>x. x + c) A) ! k ! l =
         fft2 A ! k ! l + (if k = 0 \<and> l = 0 then c * of_nat (N * N) else 0)"
proof -
  have N: "0 < N" using k by simp
  have sq': "square N (map2d (\<lambda>x. x + c) A)" using sq by (simp add: square_map2d)
  have e: "map2d (\<lambda>x. x + c) A ! m ! n = A ! m ! n + c" if "m < N" "n < N" for m n
    using sq that by (simp add: map2d_def square_iff)
  have "fft2 (map2d (\<lambda>x. x + c) A) ! k ! l =
        (\<Sum>m<N. \<Sum>n<N. (A ! m ! n + c) * cis (- 2 * pi * real (m * k + n * l) / N))"
    using sq' k l e by (simp add: fft2_entry)
  also have "\<dots> = fft2 A ! k ! l + c * (\<Sum>m<N. \<Sum>n<N. cis (- 2 * pi * real (m * k + n * l) / N))"
    using sq k l by (simp add: fft2_entry distrib_right sum.distrib sum_distrib_left)
  also have "\<dots> = fft2 A ! k ! l + c * ((\<Sum>m<N. cis (- 2 * pi * real (m * k) / N)) *
                                        (\<Sum>n<N. cis (- 2 * pi * real (n * l) / N)))"
    by (simp only: kernel_product)
  also have "\<dots> = fft2 A ! k ! l + (if k = 0 \<and> l = 0 then c * of_nat (N * N) else 0)"
    by (simp only: dc_sum [OF N k] dc_sum [OF N l]) simp
  finally show ?thesis .
qed

lemma sum2_delta:
  fixes f :: "nat \<Rightarrow> nat \<Rightarrow> 'a::comm_monoid_add"
  assumes "0 < N"
  shows "(\<Sum>k<N. \<Sum>l<N. if k = 0 \<and> l = 0 then f k l else 0) = f 0 0"
proof -
  have "(\<Sum>k<N. \<Sum>l<N. if k = 0 \<and> l = 0 then f k l else 0) =
        (\<Sum>k<N. if k = 0 then (\<Sum>l<N. if l = 0 then f k l else 0) else 0)"
    by (simp only: sum_if_const [symmetric]) (intro sum.cong refl, simp)
  also have "\<dots> = f 0 0" using assms by simp
  finally show ?thesis .
qed

lemma ifft2_add_delta:
  assumes sq: "square N B" "square N B'"
    and e: "\<And>k l. k < N \<Longrightarrow> l < N \<Longrightarrow> B' ! k ! l = B ! k ! l + (if k = 0 \<and> l = 0 then d else 0)"
    and m: "m < N" and n: "n < N"
  shows "ifft2 B' ! m ! n = ifft2 B ! m ! n + d / of_nat (N * N)"
proof -
  have N: "0 < N" using m by simp
  let ?K = "\<lambda>k l. cis (2 * pi * real (m * k + n * l) / N)"
  have pt: "B' ! k ! l * ?K k l = B ! k ! l * ?K k l + (if k = 0 \<and> l = 0 then d * ?K k l else 0)"
    if "k < N" "l < N" for k l
    using e [OF that] by (simp add: distrib_right)
  have "(\<Sum>k<N. \<Sum>l<N. B' ! k ! l * ?K k l) =
        (\<Sum>k<N. \<Sum>l<N. B ! k ! l * ?K k l + (if k = 0 \<and> l = 0 then d * ?K k l else 0))"
    by (rule sum.cong [OF refl], rule sum.cong [OF refl], rule pt) auto
  also have "\<dots> = (\<Sum>k<N. \<Sum>l<N. B ! k ! l * ?K k l) +
                   (\<Sum>k<N. \<Sum>l<N. if k = 0 \<and> l = 0 then d * ?K k l else 0)"
    by (simp only: sum.distrib)
  also have "(\<Sum>k<N. \<Sum>l<N. if k = 0 \<and> l = 0 then d * ?K k l else 0) = d"
    using sum2_delta [OF N, of "\<lambda>k l. d * ?K k l"] by simp
  finally show ?thesis
    using sq m n by (simp add: ifft2_entry add_divide_distrib)
qed

end
