(* ===== verification/GaussianField.thy ===== *)
theory GaussianField
  imports Fourier Autocorrelation
begin

text \<open>
  The correlated Gaussian field of \<open>SurfaceGenerator.generate_surface\<close>
  (src/roughgan/data/generators.py, lines 69--100): the amplitude filter
  \<open>AMPR = sqrt(dtx**2 + dty**2) * abs(fft2(R))\<close>, the white noise \<open>X\<close> divided
  by its population standard deviation, its spectrum multiplied by
  \<open>sqrt(AMPR)\<close>, the real part of the inverse transform, and the renormalisation
  \<open>(z - avez) * rms / stdz\<close>.  The uniform draw \<open>np.random.rand\<close> is an input.

  A zero standard deviation is a division by zero in float64: numpy returns
  \<open>inf\<close> or \<open>nan\<close> without raising, and every later entry of \<open>z\<close> is \<open>nan\<close>
  (the mean \<open>avez\<close> is \<open>nan\<close> as soon as one entry is).  The model returns
  \<open>None\<close> for this all-NaN field.  The lemmas show that the filter is
  non-negative, that a field that is not NaN has mean 0 and standard deviation
  \<open>|rms|\<close>, and that the field does not depend on the mean of the noise, so that
  the mean subtraction the spec asks for and the code omits makes no difference.
\<close>

section \<open>Definitions\<close>

text \<open>Lines 70--71: the transform of the grid and the amplitude filter.\<close>

definition amplitude_filter :: "real list list \<Rightarrow> int \<Rightarrow> int \<Rightarrow> real list list" where
  "amplitude_filter R dtx dty =
     map2d (\<lambda>f. sqrt (real_of_int (dtx\<^sup>2 + dty\<^sup>2)) * cmod f) (fft2 (map2d complex_of_real R))"

text \<open>Lines 74--79: \<open>X / stdX\<close>, with \<open>aveX\<close> used only inside \<open>stdX\<close>;
  \<open>None\<close> is the NaN field of a zero deviation.\<close>

definition normalize_noise :: "real list list \<Rightarrow> real list list option" where
  "normalize_noise X =
     (let stdX = np_std X in if stdX = 0 then None else Some (map2d (\<lambda>x. x / stdX) X))"

text \<open>Lines 81--88: \<open>z = np.real(ifft2(fft2(X) * np.sqrt(AMPR)))\<close>.\<close>

definition filter_noise :: "real list list \<Rightarrow> real list list \<Rightarrow> real list list" where
  "filter_noise AMPR X =
     map2d Re (ifft2 (zip2d (\<lambda>f a. f * complex_of_real (sqrt a))
                              (fft2 (map2d complex_of_real X)) AMPR))"

text \<open>Lines 90--93: \<open>((z - avez) * rms) / stdz\<close>.\<close>

definition renormalize :: "real \<Rightarrow> real list list \<Rightarrow> real list list option" where
  "renormalize r z =
     (let avez = np_mean z; stdz = np_std z in
      if stdz = 0 then None else Some (map2d (\<lambda>x. ((x - avez) * r) / stdz) z))"

text \<open>Lines 96--100: \<open>z[xmin:xmax, ymin:ymax]\<close> with non-negative bounds.\<close>

definition py_slice :: "'a list \<Rightarrow> nat \<Rightarrow> nat \<Rightarrow> 'a list" where
  "py_slice xs i j = take (j - i) (drop i xs)"

definition np_slice2 :: "'a list list \<Rightarrow> nat \<Rightarrow> nat \<Rightarrow> nat \<Rightarrow> nat \<Rightarrow> 'a list list" where
  "np_slice2 A x0 x1 y0 y1 = map (\<lambda>r. py_slice r y0 y1) (py_slice A x0 x1)"

text \<open>Lines 69--100 from the grid \<open>R\<close>, the steps and the uniform noise \<open>X\<close>.\<close>

definition gaussian_field ::
  "surface_generator \<Rightarrow> real list list \<Rightarrow> int \<Rightarrow> int \<Rightarrow> real list list \<Rightarrow> real list list option" where
  "gaussian_field g R dtx dty X =
     (let AMPR = amplitude_filter R dtx dty in
      case normalize_noise X of
        None \<Rightarrow> None
      | Some X' \<Rightarrow>
          (case renormalize (rms g) (filter_noise AMPR X') of
             None \<Rightarrow> None
           | Some z \<Rightarrow> Some (np_slice2 z 0 (nat (n_points g)) 0 (nat (n_points g)))))"

section \<open>Shape, filter and renormalisation lemmas\<close>

lemma square_amplitude_filter: "square n R \<Longrightarrow> square n (amplitude_filter R dtx dty)"
  by (simp add: amplitude_filter_def square_map2d square_fft2)

text \<open>The amplitude filter \<open>AMPR\<close> of an \<open>n \<times> n\<close> grid is an
  \<open>n \<times> n\<close> array of non-negative reals, so \<open>np.sqrt(AMPR)\<close> never meets a negative entry.\<close>

theorem amplitude_filter_nonneg:
  assumes "square n R"
  shows "square n (amplitude_filter R dtx dty) \<and>
         (\<forall>i < n. \<forall>j < n. 0 \<le> amplitude_filter R dtx dty ! i ! j)"
proof -
  have sq: "square n (fft2 (map2d complex_of_real R))"
    using assms by (simp add: square_fft2 square_map2d)
  then show ?thesis
    by (simp add: amplitude_filter_def square_map2d map2d_nth)
qed

lemma np_slice2_square: "square n A \<Longrightarrow> np_slice2 A 0 n 0 n = A"
  by (auto simp: np_slice2_def py_slice_def square_iff intro!: map_idI)

lemma square_filter_noise: "square n A \<Longrightarrow> square n X \<Longrightarrow> square n (filter_noise A X)"
  by (simp add: filter_noise_def square_map2d square_ifft2 square_zip2d square_fft2)

lemma renormalize_stats:
  assumes sq: "square n z" and n: "0 < n" and s: "np_std z \<noteq> 0"
  shows "\<exists>z'. renormalize r z = Some z' \<and> square n z' \<and> np_mean z' = 0 \<and> np_std z' = \<bar>r\<bar>"
proof -
  let ?a = "r / np_std z" and ?b = "- (np_mean z * r / np_std z)"
  have eq: "(\<lambda>x. ((x - np_mean z) * r) / np_std z) = (\<lambda>x. ?a * x + ?b)"
    by (rule ext) (simp add: diff_divide_distrib left_diff_distrib)
  have ne: "concat z \<noteq> []" using sq n by (rule concat_square_ne)
  have "np_std z \<ge> 0" by (rule np_std_nonneg)
  with s have pos: "np_std z > 0" by simp
  have "np_mean (map2d (\<lambda>x. ?a * x + ?b) z) = ?a * np_mean z + ?b"
    using ne by (rule np_mean_affine)
  then have "np_mean (map2d (\<lambda>x. ?a * x + ?b) z) = 0"
    by simp
  moreover have "np_std (map2d (\<lambda>x. ?a * x + ?b) z) = \<bar>?a\<bar> * np_std z"
    using ne by (rule np_std_affine)
  then have "np_std (map2d (\<lambda>x. ?a * x + ?b) z) = \<bar>r\<bar>"
    using pos by (simp add: abs_div)
  ultimately show ?thesis
    using s sq by (simp add: renormalize_def Let_def eq square_map2d)
qed

lemma renormalize_shift:
  assumes sq: "square n z" and n: "0 < n"
  shows "renormalize r (map2d (\<lambda>x. x + d) z) = renormalize r z"
proof -
  have ne: "concat z \<noteq> []" using sq n by (rule concat_square_ne)
  have m: "np_mean (map2d (\<lambda>x. x + d) z) = np_mean z + d"
    using np_mean_affine [OF ne, of 1 d] by simp
  have s: "np_std (map2d (\<lambda>x. x + d) z) = np_std z"
    using np_std_affine [OF ne, of 1 d] by simp
  show ?thesis
    by (simp add: renormalize_def Let_def m s map2d_map2d o_def)
qed

lemma filter_noise_shift:
  assumes sqA: "square n A" and sqX: "square n X" and n: "0 < n"
  shows "filter_noise A (map2d (\<lambda>x. x + c) X) = map2d (\<lambda>x. x + c * sqrt (A ! 0 ! 0)) (filter_noise A X)"
proof -
  let ?X = "map2d complex_of_real X"
  let ?mul = "\<lambda>f a. f * complex_of_real (sqrt a)"
  let ?YF = "zip2d ?mul (fft2 ?X) A"
  let ?YF' = "zip2d ?mul (fft2 (map2d complex_of_real (map2d (\<lambda>x. x + c) X))) A"
  let ?d = "complex_of_real c * of_nat (n * n) * complex_of_real (sqrt (A ! 0 ! 0))"
  have sqX': "square n ?X" using sqX by (simp add: square_map2d)
  have shift: "map2d complex_of_real (map2d (\<lambda>x. x + c) X) = map2d (\<lambda>x. x + complex_of_real c) ?X"
    by (simp add: map2d_map2d o_def)
  have sqF: "square n (fft2 ?X)" "square n (fft2 (map2d (\<lambda>x. x + complex_of_real c) ?X))"
    using sqX' by (simp_all add: square_fft2 square_map2d)
  have sqY: "square n ?YF" "square n ?YF'"
    using sqF sqA by (simp_all add: shift square_zip2d)
  have e: "?YF' ! k ! l = ?YF ! k ! l + (if k = 0 \<and> l = 0 then ?d else 0)"
    if "k < n" "l < n" for k l
    using that sqF sqA fft2_add_const [OF sqX' that, of "complex_of_real c"]
    by (auto simp: shift zip2d_nth distrib_right)
  have entry: "filter_noise A (map2d (\<lambda>x. x + c) X) ! i ! j =
               map2d (\<lambda>x. x + c * sqrt (A ! 0 ! 0)) (filter_noise A X) ! i ! j"
    if "i < n" "j < n" for i j
  proof -
    have "ifft2 ?YF' ! i ! j = ifft2 ?YF ! i ! j + ?d / of_nat (n * n)"
      using ifft2_add_delta [OF sqY e that] by simp
    then have "Re (ifft2 ?YF' ! i ! j) = Re (ifft2 ?YF ! i ! j) + c * sqrt (A ! 0 ! 0)"
      using n by simp
    moreover have "square n (ifft2 ?YF)" "square n (ifft2 ?YF')"
      using sqY by (simp_all add: square_ifft2)
    moreover have "square n (map2d Re (ifft2 ?YF))"
      using calculation(2) by (simp add: square_map2d)
    ultimately have "filter_noise A (map2d (\<lambda>x. x + c) X) ! i ! j = Re (ifft2 ?YF' ! i ! j)"
        "filter_noise A X ! i ! j = Re (ifft2 ?YF ! i ! j)"
        "square n (filter_noise A X)"
      using that by (simp_all only: filter_noise_def map2d_nth)
    then show ?thesis
      using that \<open>Re (ifft2 ?YF' ! i ! j) = _\<close> by (simp add: map2d_nth)
  qed
  show ?thesis
    by (rule square_eqI [OF square_filter_noise [OF sqA square_map2d [THEN iffD2, OF sqX]]
          square_map2d [THEN iffD2, OF square_filter_noise [OF sqA sqX]] entry])
qed

lemma normalize_noise_shift:
  assumes sq: "square n X" and n: "0 < n"
  shows "normalize_noise (map2d (\<lambda>x. x + c) X) =
         map_option (map2d (\<lambda>x. x + c / np_std X)) (normalize_noise X)"
proof -
  have ne: "concat X \<noteq> []" using sq n by (rule concat_square_ne)
  have s: "np_std (map2d (\<lambda>x. x + c) X) = np_std X"
    using np_std_affine [OF ne, of 1 c] by simp
  show ?thesis
    by (simp add: normalize_noise_def Let_def s map2d_map2d o_def add_divide_distrib)
qed

lemma renormalize_square:
  "renormalize r z = Some z' \<Longrightarrow> square n z \<Longrightarrow> square n z'"
  by (auto simp: renormalize_def Let_def square_map2d split: if_splits)

lemma gaussian_field_square:
  assumes "square n R" "square n X" "nat (n_points g) = n" "gaussian_field g R dtx dty X = Some z"
  shows "square n z"
proof -
  obtain X' z' where X': "normalize_noise X = Some X'"
    and z': "renormalize (rms g) (filter_noise (amplitude_filter R dtx dty) X') = Some z'"
    and z: "z = np_slice2 z' 0 n 0 n"
    using assms(3,4) by (auto simp: gaussian_field_def split: option.splits)
  have "square n X'" using X' assms(2)
    by (auto simp: normalize_noise_def Let_def square_map2d split: if_splits)
  then have "square n z'"
    using z' assms(1) by (intro renormalize_square [OF z'] square_filter_noise square_amplitude_filter)
  then show ?thesis by (simp add: z np_slice2_square)
qed

text \<open>C6: The field does not depend on the mean of the
  uniform noise: adding a constant to every entry of \<open>X\<close> leaves the output unchanged, so
  the mean subtraction that the spec describes and the code omits would make no difference.\<close>

theorem gaussian_field_noise_mean:
  assumes sqR: "square n R" and sqX: "square n X" and n: "0 < n"
  shows "gaussian_field g R dtx dty (map2d (\<lambda>x. x + c) X) = gaussian_field g R dtx dty X"
proof (cases "normalize_noise X")
  case None
  then show ?thesis
    by (simp add: gaussian_field_def normalize_noise_shift [OF sqX n])
next
  case (Some X')
  let ?A = "amplitude_filter R dtx dty"
  have sqA: "square n ?A" using sqR by (rule square_amplitude_filter)
  have sqX': "square n X'"
    using Some sqX by (auto simp: normalize_noise_def Let_def square_map2d split: if_splits)
  have "filter_noise ?A (map2d (\<lambda>x. x + c / np_std X) X') =
        map2d (\<lambda>x. x + c / np_std X * sqrt (?A ! 0 ! 0)) (filter_noise ?A X')"
    by (rule filter_noise_shift [OF sqA sqX' n])
  moreover have "renormalize (rms g) (map2d (\<lambda>x. x + c / np_std X * sqrt (?A ! 0 ! 0)) (filter_noise ?A X'))
        = renormalize (rms g) (filter_noise ?A X')"
    by (rule renormalize_shift [OF square_filter_noise [OF sqA sqX'] n])
  ultimately show ?thesis
    using Some by (simp add: gaussian_field_def normalize_noise_shift [OF sqX n])
qed

text \<open>C2: The field is the all-NaN array (\<open>None\<close>) exactly when the
  noise or the filtered field has standard deviation 0; otherwise it is an \<open>n \<times> n\<close> array
  of mean 0 and population standard deviation \<open>|rms|\<close>.\<close>

theorem gaussian_field_stats:
  assumes sqR: "square n R" and sqX: "square n X" and n: "0 < n" and np: "nat (n_points g) = n"
  shows "(gaussian_field g R dtx dty X = None \<longleftrightarrow>
            np_std X = 0 \<or>
            np_std (filter_noise (amplitude_filter R dtx dty) (map2d (\<lambda>x. x / np_std X) X)) = 0) \<and>
         (\<forall>z. gaussian_field g R dtx dty X = Some z \<longrightarrow>
            square n z \<and> np_mean z = 0 \<and> np_std z = \<bar>rms g\<bar>)"
proof (cases "np_std X = 0")
  case True
  then show ?thesis by (simp add: gaussian_field_def normalize_noise_def)
next
  case False
  let ?A = "amplitude_filter R dtx dty"
  let ?X' = "map2d (\<lambda>x. x / np_std X) X"
  let ?z = "filter_noise ?A ?X'"
  have sqA: "square n ?A" using sqR by (rule square_amplitude_filter)
  have sqz: "square n ?z"
    using sqA sqX by (simp add: square_filter_noise square_map2d)
  show ?thesis
  proof (cases "np_std ?z = 0")
    case True
    with False show ?thesis
      by (simp add: gaussian_field_def normalize_noise_def renormalize_def)
  next
    case nz: False
    obtain z' where z': "renormalize (rms g) ?z = Some z'" "square n z'"
        "np_mean z' = 0" "np_std z' = \<bar>rms g\<bar>"
      using renormalize_stats [OF sqz n nz] by blast
    have "gaussian_field g R dtx dty X = Some z'"
      using False z'(1,2) by (simp add: gaussian_field_def normalize_noise_def np np_slice2_square)
    with nz False z' show ?thesis by simp
  qed
qed

section \<open>Witnesses\<close>

lemma square_one: "square 1 [[x]]"
  by (simp add: square_def)

theorem amplitude_filter_nonneg_witness:
  "square 1 [[2::real]] \<and> square 1 (amplitude_filter [[2]] 1 1) \<and> 0 \<le> amplitude_filter [[2]] 1 1 ! 0 ! 0"
  using amplitude_filter_nonneg [of 1 "[[2]]" 1 1] by (simp add: square_def)

theorem gaussian_field_noise_mean_witness:
  "square 1 [[2::real]] \<and> square 1 [[5::real]] \<and> (0::nat) < 1 \<and>
   gaussian_field (NonGaussianSurfaceGenerator 1 1 0 3 4 4 1) [[2]] 1 1 (map2d (\<lambda>x. x + 3) [[5]]) = gaussian_field (NonGaussianSurfaceGenerator 1 1 0 3 4 4 1) [[2]] 1 1 [[5]]"
  using gaussian_field_noise_mean [of 1 "[[2]]" "[[5]]" "NonGaussianSurfaceGenerator 1 1 0 3 4 4 1" 1 1 3]
  by (simp add: square_def)

theorem gaussian_field_stats_witness:
  "square 1 [[2::real]] \<and> square 1 [[5::real]] \<and> (0::nat) < 1 \<and>
   nat (n_points (NonGaussianSurfaceGenerator 1 1 0 3 4 4 1)) = 1 \<and>
   np_std [[5]] = 0 \<and> gaussian_field (NonGaussianSurfaceGenerator 1 1 0 3 4 4 1) [[2]] 1 1 [[5]] = None"
proof -
  have s: "np_std [[5]] = 0"
    by (simp add: np_std_def np_mean_def mean_def map2d_def)
  show ?thesis
    using gaussian_field_stats [of 1 "[[2]]" "[[5]]" "NonGaussianSurfaceGenerator 1 1 0 3 4 4 1" 1 1] s
    by (simp add: square_def NonGaussianSurfaceGenerator_def sg_init_def)
qed

end
