(* ===== verification/Generator.thy ===== *)
theory Generator
  imports LagGrid GaussianField RankSwap "HOL-Library.Product_Lexorder"
begin

text \<open>
  The driver of src/roughgan/data/generators.py: \<open>SurfaceGenerator.generate_surface\<close>
  (lines 50--123) as the composition of the autocorrelation grid (LagGrid), the
  Gaussian field (GaussianField) and the rank-order reshaper (RankSwap), and the
  iteration protocol \<open>__call__\<close>, \<open>__len__\<close> and \<open>__iter__\<close> (lines 29--39).

  The two random draws of one surface, the uniform noise \<open>X\<close> of line 74 and the
  Pearson III sample \<open>z_ngn\<close> of lines 103--108, are inputs.  \<open>np.argsort\<close> is a
  parameter \<open>ags\<close> of the model: numpy's default sort is not stable, so the lemmas
  hold for every function that returns a sorting permutation, NaN last as numpy
  orders it.  On the all-NaN Gaussian field every permutation sorts it.

  \<open>__iter__\<close> is a Python generator function: \<open>iter(g)\<close> creates a generator in state
  \<open>Created\<close>; the first \<open>next\<close> evaluates \<open>range(self._length)\<close> and every \<open>next\<close>
  runs \<open>self.generate_surface()\<close> on the object as it is at that moment.  The
  \<open>k\<close>-th surface of a run uses the draws \<open>ds k\<close>.  The states \<open>next\<close> can reach
  form the inductive \<open>gen_reach\<close>, whose invariant is proved by rule induction, and
  a bound on the calls of \<open>next\<close> shows that every run ends.  The module's
  \<open>__main__\<close> demo (lines 172--181) is modelled by the surfaces it plots.
\<close>

section \<open>Definitions\<close>

subsection \<open>np.argsort with NaN\<close>

text \<open>numpy sorts NaN after every number; \<open>None\<close> is NaN.\<close>

definition nan_key :: "real option \<Rightarrow> bool \<times> real" where
  "nan_key x = (case x of None \<Rightarrow> (True, 0) | Some a \<Rightarrow> (False, a))"

definition argsort_nan_spec :: "real option list \<Rightarrow> nat list \<Rightarrow> bool" where
  "argsort_nan_spec v p \<longleftrightarrow> is_perm (length v) p \<and> sorted (map (\<lambda>i. nan_key (v ! i)) p)"

text \<open>One such argsort, numpy's \<open>kind="stable"\<close>.\<close>

definition np_argsort_nan :: "real option list \<Rightarrow> nat list" where
  "np_argsort_nan v = sort_key (\<lambda>i. nan_key (v ! i)) [0..<length v]"

subsection \<open>generate_surface\<close>

text \<open>Lines 50--123.  \<open>v_gs\<close> is the flattened Gaussian field, all NaN when a standard
  deviation was 0.  \<open>stats.pearson3.rvs(..., scale=self.rms, ...)\<close> raises ValueError
  on a negative scale before the sample is drawn.\<close>

definition generate_surface ::
  "surface_generator \<Rightarrow> real list list \<Rightarrow> real list list \<Rightarrow> (real option list \<Rightarrow> nat list) \<Rightarrow>
   real list list result" where
  "generate_surface g X z_ngn ags =
     (case lag_grid g of
        Inl e \<Rightarrow> Inl e
      | Inr (R, dtx, dty) \<Rightarrow>
          (let n = nat (n_points g);
               v_gs = (case gaussian_field g R dtx dty X of
                         None \<Rightarrow> replicate (n * n) None
                       | Some z_gs \<Rightarrow> map Some (flatten_F z_gs))
           in if rms g < 0 then Inl ValueError
              else reshape_non_gaussian n z_ngn (ags v_gs)))"

subsection \<open>__call__, __len__, __iter__\<close>

text \<open>\<open>g(length)\<close> sets \<open>self._length\<close> and returns the same object.\<close>

definition sg_call :: "surface_generator \<Rightarrow> int option \<Rightarrow> surface_generator" where
  "sg_call g len = g\<lparr>sg_length := len\<rparr>"

text \<open>\<open>len(g)\<close>: Python raises TypeError when \<open>__len__\<close> returns None and ValueError
  when it returns a negative int.\<close>

definition sg_len :: "surface_generator \<Rightarrow> nat result" where
  "sg_len g = (case sg_length g of
                 None \<Rightarrow> Inl TypeError
               | Some l \<Rightarrow> if l < 0 then Inl ValueError else Inr (nat l))"

text \<open>The states of the generator object \<open>__iter__\<close> returns: not started, suspended
  after \<open>i\<close> of \<open>n\<close> surfaces, finished.\<close>

datatype iter_state = Created | Suspended nat nat | Exhausted

type_synonym draws = "nat \<Rightarrow> real list list \<times> real list list"

text \<open>One turn of \<open>for _ in range(n): yield self.generate_surface()\<close> after \<open>i\<close> yields;
  an exception escaping the body finishes the generator.\<close>

definition loop_step ::
  "surface_generator \<Rightarrow> (real option list \<Rightarrow> nat list) \<Rightarrow> draws \<Rightarrow> nat \<Rightarrow> nat \<Rightarrow>
   real list list result \<times> iter_state" where
  "loop_step g ags ds i n =
     (if i < n then
        (case generate_surface g (fst (ds i)) (snd (ds i)) ags of
           Inl e \<Rightarrow> (Inl e, Exhausted)
         | Inr S \<Rightarrow> (Inr S, Suspended (Suc i) n))
      else (Inl StopIteration, Exhausted))"

text \<open>\<open>next(it)\<close>; the first call evaluates \<open>range(self._length)\<close>, which raises
  TypeError on None and is empty on a negative int.\<close>

fun iter_next ::
  "surface_generator \<Rightarrow> (real option list \<Rightarrow> nat list) \<Rightarrow> draws \<Rightarrow> iter_state \<Rightarrow>
   real list list result \<times> iter_state" where
  "iter_next g ags ds Created =
     (case sg_length g of
        None \<Rightarrow> (Inl TypeError, Exhausted)
      | Some l \<Rightarrow> loop_step g ags ds 0 (nat l))"
| "iter_next g ags ds (Suspended i n) = loop_step g ags ds i n"
| "iter_next g ags ds Exhausted = (Inl StopIteration, Exhausted)"

text \<open>A bound on the calls of \<open>next\<close> that can still yield from a state.\<close>

definition iter_measure :: "surface_generator \<Rightarrow> iter_state \<Rightarrow> nat" where
  "iter_measure g st =
     (case st of
        Created \<Rightarrow> (case sg_length g of None \<Rightarrow> 0 | Some l \<Rightarrow> Suc (Suc (nat l)))
      | Suspended i n \<Rightarrow> Suc n - i
      | Exhausted \<Rightarrow> 0)"

text \<open>\<open>list(it)\<close>: \<open>next\<close> until StopIteration; any other exception propagates.\<close>

function py_list ::
  "surface_generator \<Rightarrow> (real option list \<Rightarrow> nat list) \<Rightarrow> draws \<Rightarrow> iter_state \<Rightarrow>
   real list list list result" where
  "py_list g ags ds st =
     (case iter_next g ags ds st of
        (Inl StopIteration, _) \<Rightarrow> Inr []
      | (Inl e, _) \<Rightarrow> Inl e
      | (Inr S, st') \<Rightarrow> (case py_list g ags ds st' of Inl e \<Rightarrow> Inl e | Inr Ss \<Rightarrow> Inr (S # Ss)))"
  by pat_completeness auto

termination py_list
  by (relation "measure (\<lambda>(g, ags, ds, st). iter_measure g st)")
    (auto simp: iter_measure_def loop_step_def split: option.splits if_splits sum.splits
      elim!: iter_next.elims [OF sym])

text \<open>\<open>k\<close> calls of \<open>next(it)\<close> in a row: the results and the final state.\<close>

fun iter_run ::
  "surface_generator \<Rightarrow> (real option list \<Rightarrow> nat list) \<Rightarrow> draws \<Rightarrow> iter_state \<Rightarrow> nat \<Rightarrow>
   real list list result list \<times> iter_state" where
  "iter_run g ags ds st 0 = ([], st)"
| "iter_run g ags ds st (Suc m) =
     (let (r, st') = iter_next g ags ds st; (rs, st'') = iter_run g ags ds st' m in (r # rs, st''))"

text \<open>Draws of the shape \<open>np.random.rand(n, n)\<close> and \<open>pearson3.rvs(size=(n, n))\<close> return.\<close>

definition draws_ok :: "surface_generator \<Rightarrow> draws \<Rightarrow> bool" where
  "draws_ok g ds \<longleftrightarrow>
     (\<forall>k. square (nat (n_points g)) (fst (ds k)) \<and> square (nat (n_points g)) (snd (ds k)))"

text \<open>The states \<open>next\<close> can reach from a fresh \<open>iter(g)\<close>.\<close>

inductive gen_reach ::
  "surface_generator \<Rightarrow> (real option list \<Rightarrow> nat list) \<Rightarrow> draws \<Rightarrow> iter_state \<Rightarrow> bool"
  for g ags ds where
  start: "gen_reach g ags ds Created"
| step: "gen_reach g ags ds st \<Longrightarrow> iter_next g ags ds st = (r, st') \<Longrightarrow> gen_reach g ags ds st'"

text \<open>What every reachable state satisfies: a suspended loop has run
  \<open>0 < i \<le> n\<close> turns of \<open>range(self._length)\<close>.\<close>

definition iter_inv :: "surface_generator \<Rightarrow> iter_state \<Rightarrow> bool" where
  "iter_inv g st =
     (case st of
        Suspended i n \<Rightarrow> sg_length g = Some (int n) \<and> 0 < i \<and> i \<le> n
      | _ \<Rightarrow> True)"

subsection \<open>The module's demo\<close>

text \<open>Lines 172--181: one surface of the default generator and one of a Bessel generator
  are drawn and passed to \<open>as_grayscale_image\<close>; the result is the list of surfaces
  plotted and the exception that ends the script, if any.  Each loop runs over
  \<open>g(1)\<close>, so it plots nothing when its one call of \<open>next\<close> raises.\<close>

definition generators_main ::
  "(real option list \<Rightarrow> nat list) \<Rightarrow> draws \<Rightarrow> draws \<Rightarrow> real list list list \<times> py_error option" where
  "generators_main ags ds1 ds2 =
     (case py_list (sg_call default_generator (Some 1)) ags ds1 Created of
        Inl e \<Rightarrow> ([], Some e)
      | Inr Ss1 \<Rightarrow>
          (case py_list (sg_call (BesselNonGaussianSurfaceGenerator 128 1 0 3 16 16 0.5 4000 4000) (Some 1))
                  ags ds2 Created of
             Inl e \<Rightarrow> (Ss1, Some e)
           | Inr Ss2 \<Rightarrow> (Ss1 @ Ss2, None)))"

section \<open>Lemmas\<close>

subsection \<open>argsort with NaN and generate_surface\<close>

lemma sorted_False_pair: "sorted (map (\<lambda>x. (False, x)) xs) = sorted (xs :: real list)"
  by (induction xs) (auto simp: less_eq_prod_def)

lemma argsort_nan_Some: "argsort_nan_spec (map Some w) p \<longleftrightarrow> argsort_spec w p"
proof (cases "is_perm (length w) p")
  case True
  then have e: "map (\<lambda>i. nan_key (map Some w ! i)) p = map (\<lambda>x. (False, x)) (map ((!) w) p)"
    by (auto simp: nan_key_def is_perm_set)
  show ?thesis
    unfolding argsort_nan_spec_def argsort_spec_def length_map e sorted_False_pair ..
next
  case False
  then show ?thesis by (simp add: argsort_nan_spec_def argsort_spec_def)
qed

lemma argsort_nan_None: "argsort_nan_spec (replicate m None) p \<longleftrightarrow> is_perm m p"
proof (cases "is_perm m p")
  case True
  then have "map (\<lambda>i. nan_key (replicate m None ! i)) p = replicate (length p) (True, 0)"
    by (auto simp: nan_key_def is_perm_set intro: replicate_eqI)
  then show ?thesis
    using True by (simp add: argsort_nan_spec_def)
next
  case False
  then show ?thesis by (simp add: argsort_nan_spec_def)
qed

lemma np_argsort_nan_spec: "argsort_nan_spec v (np_argsort_nan v)"
  by (simp add: argsort_nan_spec_def np_argsort_nan_def is_perm_def sorted_sort_key)

text \<open>C1: For a positive size, non-zero divisors, a non-negative rms,
  draws of shape \<open>n \<times> n\<close> and any correct argsort, \<open>generate_surface\<close> returns an \<open>n \<times> n\<close>
  surface holding exactly the values of the Pearson sample, and when the Gaussian field is
  not NaN the surface ranks as the transposed Gaussian field.  On the NaN field it still
  returns such a rearrangement: the NaN never reaches the caller.\<close>

theorem generate_surface_rank:
  assumes n: "0 < n_points g" and ok: "acf_divisors_ok g" and r: "0 \<le> rms g"
    and sqX: "square (nat (n_points g)) X" and sqZ: "square (nat (n_points g)) z_ngn"
    and ags: "\<forall>v. argsort_nan_spec v (ags v)"
  shows "\<exists>R S. lag_grid g = Inr (R, 1, 1) \<and> generate_surface g X z_ngn ags = Inr S \<and>
           square (nat (n_points g)) S \<and> mset (concat S) = mset (concat z_ngn) \<and>
           (\<forall>z_gs. gaussian_field g R 1 1 X = Some z_gs \<longrightarrow>
              (\<forall>i < nat (n_points g). \<forall>j < nat (n_points g). \<forall>k < nat (n_points g). \<forall>l < nat (n_points g).
                 z_gs ! j ! i < z_gs ! l ! k \<longrightarrow> S ! i ! j \<le> S ! k ! l))"
proof -
  let ?N = "nat (n_points g)"
  obtain R where R: "lag_grid g = Inr (R, 1, 1)" "square ?N R"
    using lag_grid_square [OF n ok] by blast
  show ?thesis
  proof (cases "gaussian_field g R 1 1 X")
    case None
    have "is_perm (?N * ?N) (ags (replicate (?N * ?N) None))"
      using ags argsort_nan_None by blast
    then obtain S where S: "reshape_non_gaussian ?N z_ngn (ags (replicate (?N * ?N) None)) = Inr S"
      "square ?N S" "mset (concat S) = mset (concat z_ngn)"
      using reshape_non_gaussian_perm [OF sqZ] by blast
    then show ?thesis
      using R None r by (auto simp: generate_surface_def Let_def)
  next
    case (Some z)
    have sq: "square ?N z" using gaussian_field_square [OF R(2) sqX refl Some] .
    have "argsort_spec (flatten_F z) (ags (map Some (flatten_F z)))"
      using ags argsort_nan_Some by blast
    then obtain S where S: "reshape_non_gaussian ?N z_ngn (ags (map Some (flatten_F z))) = Inr S"
      "square ?N S" "mset (concat S) = mset (concat z_ngn)"
      "\<forall>i < ?N. \<forall>j < ?N. \<forall>k < ?N. \<forall>l < ?N. z ! j ! i < z ! l ! k \<longrightarrow> S ! i ! j \<le> S ! k ! l"
      using reshape_non_gaussian_rank [OF sq sqZ] by blast
    then show ?thesis
      using R Some r by (auto simp: generate_surface_def Let_def)
  qed
qed

subsection \<open>Iteration\<close>

lemma autocorrelation_length [simp]:
  "autocorrelation (g\<lparr>sg_length := x\<rparr>) = autocorrelation g"
  by (intro ext) (simp add: autocorrelation_def autocorrelation_ng_def autocorrelation_bessel_def
      split: acf_kind.split)

lemma lag_grid_length [simp]: "lag_grid (g\<lparr>sg_length := x\<rparr>) = lag_grid g"
  unfolding lag_grid_def autocorrelation_length by simp

lemma generate_surface_length [simp]:
  "generate_surface (g\<lparr>sg_length := x\<rparr>) = generate_surface g"
proof -
  have a: "n_points (g\<lparr>sg_length := x\<rparr>) = n_points g" and b: "rms (g\<lparr>sg_length := x\<rparr>) = rms g"
    by simp_all
  show ?thesis
    unfolding generate_surface_def gaussian_field_def lag_grid_length a b ..
qed

lemma generate_surface_Inr:
  assumes n: "0 < n_points g" and ok: "acf_divisors_ok g" and r: "0 \<le> rms g"
    and sqX: "square (nat (n_points g)) X" and sqZ: "square (nat (n_points g)) z_ngn"
    and ags: "\<forall>v. argsort_nan_spec v (ags v)"
  shows "\<exists>S. generate_surface g X z_ngn ags = Inr S \<and> square (nat (n_points g)) S \<and>
           mset (concat S) = mset (concat z_ngn)"
proof -
  let ?N = "nat (n_points g)"
  obtain R where R: "lag_grid g = Inr (R, 1, 1)" "square ?N R"
    using lag_grid_square [OF n ok] by blast
  define v where "v = (case gaussian_field g R 1 1 X of
      None \<Rightarrow> replicate (?N * ?N) None | Some z_gs \<Rightarrow> map Some (flatten_F z_gs))"
  have gs: "generate_surface g X z_ngn ags = reshape_non_gaussian ?N z_ngn (ags v)"
    using R r by (simp add: generate_surface_def v_def Let_def)
  have "length v = ?N * ?N"
    using gaussian_field_square [OF R(2) sqX refl]
    by (auto simp: v_def length_flatten_F split: option.split)
  then have "is_perm (?N * ?N) (ags v)"
    using ags by (metis argsort_nan_spec_def)
  then show ?thesis
    unfolding gs using reshape_non_gaussian_perm [OF sqZ] by blast
qed

lemma py_list_Suspended:
  assumes "\<forall>k. i \<le> k \<and> k < n \<longrightarrow> generate_surface g (fst (ds k)) (snd (ds k)) ags = Inr (F k)"
  shows "py_list g ags ds (Suspended i n) = Inr (map F [i..<n])"
  using assms
proof (induction "n - i" arbitrary: i)
  case 0
  then show ?case by (subst py_list.simps) (simp add: loop_step_def)
next
  case (Suc m)
  then have i: "i < n" by simp
  have "py_list g ags ds (Suspended (Suc i) n) = Inr (map F [Suc i..<n])"
    using Suc.hyps(1) [of "Suc i"] Suc.hyps(2) Suc.prems by simp
  then show ?case
    using i Suc.prems by (subst py_list.simps) (simp add: loop_step_def upt_conv_Cons)
qed

lemma py_list_Created:
  "sg_length g = Some l \<Longrightarrow> py_list g ags ds Created = py_list g ags ds (Suspended 0 (nat l))"
  by (subst (1 2) py_list.simps) simp

lemma surface_draws:
  assumes n: "0 < n_points g" and ok: "acf_divisors_ok g" and r: "0 \<le> rms g"
    and ds: "draws_ok g ds" and ags: "\<forall>v. argsort_nan_spec v (ags v)"
  shows "\<exists>F. \<forall>k. generate_surface g (fst (ds k)) (snd (ds k)) ags = Inr (F k) \<and>
           square (nat (n_points g)) (F k) \<and> mset (concat (F k)) = mset (concat (snd (ds k)))"
proof -
  have "\<exists>S. generate_surface g (fst (ds k)) (snd (ds k)) ags = Inr S \<and>
           square (nat (n_points g)) S \<and> mset (concat S) = mset (concat (snd (ds k)))" for k
    using ds generate_surface_Inr [OF n ok r _ _ ags] by (simp add: draws_ok_def)
  then show ?thesis by metis
qed

lemma py_list_call:
  assumes "\<forall>k < nat l. generate_surface g (fst (ds k)) (snd (ds k)) ags = Inr (F k)"
  shows "py_list (sg_call g (Some l)) ags ds Created = Inr (map F [0..<nat l])"
proof -
  have "py_list (sg_call g (Some l)) ags ds (Suspended 0 (nat l)) = Inr (map F [0..<nat l])"
    using assms by (intro py_list_Suspended) (simp add: sg_call_def)
  then show ?thesis
    by (simp add: py_list_Created sg_call_def)
qed

text \<open>C3: \<open>list(g(l))\<close> on a well-configured generator returns exactly
  \<open>max l 0\<close> surfaces, the \<open>k\<close>-th an \<open>n \<times> n\<close> rearrangement of the \<open>k\<close>-th Pearson sample.\<close>

theorem list_surfaces:
  assumes n: "0 < n_points g" and ok: "acf_divisors_ok g" and r: "0 \<le> rms g"
    and ds: "draws_ok g ds" and ags: "\<forall>v. argsort_nan_spec v (ags v)"
  shows "\<exists>Ss. py_list (sg_call g (Some l)) ags ds Created = Inr Ss \<and> length Ss = nat l \<and>
           (\<forall>k < nat l. square (nat (n_points g)) (Ss ! k) \<and>
              mset (concat (Ss ! k)) = mset (concat (snd (ds k))))"
proof -
  obtain F where F: "\<forall>k. generate_surface g (fst (ds k)) (snd (ds k)) ags = Inr (F k) \<and>
      square (nat (n_points g)) (F k) \<and> mset (concat (F k)) = mset (concat (snd (ds k)))"
    using surface_draws [OF n ok r ds ags] by blast
  then have "py_list (sg_call g (Some l)) ags ds Created = Inr (map F [0..<nat l])"
    by (intro py_list_call) simp
  then show ?thesis
    using F by auto
qed

lemma iter_run_Exhausted: "iter_run g ags ds Exhausted m = (replicate m (Inl StopIteration), Exhausted)"
  by (induction m) simp_all

lemma iter_run_Suspended:
  assumes "\<forall>k. i \<le> k \<and> k < n \<longrightarrow> generate_surface g (fst (ds k)) (snd (ds k)) ags = Inr (F k)"
  shows "iter_run g ags ds (Suspended i n) (n - i + Suc m) =
           (map (\<lambda>k. Inr (F k)) [i..<n] @ replicate (Suc m) (Inl StopIteration), Exhausted)"
  using assms
proof (induction "n - i" arbitrary: i)
  case 0
  then show ?case by (simp add: loop_step_def iter_run_Exhausted)
next
  case (Suc j)
  then have i: "i < n" by simp
  have "iter_run g ags ds (Suspended (Suc i) n) (n - Suc i + Suc m) =
        (map (\<lambda>k. Inr (F k)) [Suc i..<n] @ replicate (Suc m) (Inl StopIteration), Exhausted)"
    using Suc.hyps(1) [of "Suc i"] Suc.hyps(2) Suc.prems by simp
  moreover have "n - i + Suc m = Suc (n - Suc i + Suc m)" using i by simp
  ultimately show ?case
    using i Suc.prems by (simp add: loop_step_def upt_conv_Cons)
qed

lemma iter_run_Created:
  "sg_length g = Some l \<Longrightarrow>
   iter_run g ags ds Created (Suc m) = iter_run g ags ds (Suspended 0 (nat l)) (Suc m)"
  by simp

text \<open>C4: After \<open>g(l)\<close>, the first \<open>max l 0\<close> calls of \<open>next\<close> on
  \<open>iter(g)\<close> return surfaces, and every later call raises StopIteration; the generator ends
  exhausted.\<close>

theorem next_after_exhaustion:
  assumes n: "0 < n_points g" and ok: "acf_divisors_ok g" and r: "0 \<le> rms g"
    and ds: "draws_ok g ds" and ags: "\<forall>v. argsort_nan_spec v (ags v)"
  shows "\<exists>Ss. iter_run (sg_call g (Some l)) ags ds Created (nat l + Suc m) =
                (map Inr Ss @ replicate (Suc m) (Inl StopIteration), Exhausted) \<and>
              length Ss = nat l"
proof -
  let ?g = "sg_call g (Some l)"
  obtain F where "\<forall>k. generate_surface g (fst (ds k)) (snd (ds k)) ags = Inr (F k)"
    using surface_draws [OF n ok r ds ags] by blast
  then have F: "\<And>k. generate_surface ?g (fst (ds k)) (snd (ds k)) ags = Inr (F k)"
    by (simp add: sg_call_def)
  have "iter_run ?g ags ds (Suspended 0 (nat l)) (nat l - 0 + Suc m) =
        (map (\<lambda>k. Inr (F k)) [0..<nat l] @ replicate (Suc m) (Inl StopIteration), Exhausted)"
    using F by (intro iter_run_Suspended) simp
  moreover have "iter_run ?g ags ds Created (Suc (nat l + m)) =
      iter_run ?g ags ds (Suspended 0 (nat l)) (Suc (nat l + m))"
    by (rule iter_run_Created) (simp add: sg_call_def)
  ultimately have "iter_run ?g ags ds Created (nat l + Suc m) =
        (map Inr (map F [0..<nat l]) @ replicate (Suc m) (Inl StopIteration), Exhausted)"
    by (simp add: o_def del: iter_run.simps)
  then show ?thesis by (intro exI [of _ "map F [0..<nat l]"]) simp
qed

text \<open>C9: With \<open>g(None)\<close>, both \<open>len(g)\<close> and iteration raise TypeError;
  with a negative length, \<open>len(g)\<close> raises ValueError while iteration yields nothing.\<close>

theorem length_errors:
  "sg_len (sg_call g None) = Inl TypeError \<and>
   py_list (sg_call g None) ags ds Created = Inl TypeError \<and>
   sg_len (sg_call g (Some (- int (Suc k)))) = Inl ValueError \<and>
   py_list (sg_call g (Some (- int (Suc k)))) ags ds Created = Inr []"
  by (simp add: sg_len_def sg_call_def py_list.simps [of _ _ _ Created] loop_step_def)

subsection \<open>Reachable states and termination\<close>

lemma loop_step_cases:
  "loop_step g ags ds i n = (r, st') \<Longrightarrow> st' = Exhausted \<or> i < n \<and> st' = Suspended (Suc i) n"
  by (auto simp: loop_step_def split: if_splits sum.splits)

lemma iter_next_cases:
  "iter_next g ags ds st = (r, st') \<Longrightarrow>
   st' = Exhausted \<or>
   (\<exists>l. st = Created \<and> sg_length g = Some l \<and> 0 < nat l \<and> st' = Suspended 1 (nat l)) \<or>
   (\<exists>i n. st = Suspended i n \<and> i < n \<and> st' = Suspended (Suc i) n)"
  by (cases st) (auto split: option.splits dest!: loop_step_cases)

text \<open>C15: Every state reachable by calls of \<open>next\<close> from \<open>iter(g)\<close> is
  finished, fresh, or suspended after \<open>i\<close> yields with \<open>0 < i \<le> n\<close> and \<open>n\<close> the
  object's \<open>_length\<close>.\<close>

theorem gen_reach_inv: "gen_reach g ags ds st \<Longrightarrow> iter_inv g st"
proof (induction rule: gen_reach.induct)
  case start
  then show ?case by (simp add: iter_inv_def)
next
  case (step st r st')
  from iter_next_cases [OF step.hyps(2)] show ?case
  proof (elim disjE exE conjE)
    fix l assume "st = Created" "sg_length g = Some l" "0 < nat l" "st' = Suspended 1 (nat l)"
    then show ?thesis by (simp add: iter_inv_def)
  next
    fix i n assume "st = Suspended i n" "i < n" "st' = Suspended (Suc i) n"
    then show ?thesis using step.IH by (simp add: iter_inv_def)
  qed (simp add: iter_inv_def)
qed

lemma snd_iter_run_Suc:
  "iter_next g ags ds st = (r, st') \<Longrightarrow> snd (iter_run g ags ds st (Suc k)) = snd (iter_run g ags ds st' k)"
  by (cases "iter_run g ags ds st' k") simp

lemma iter_run_Suspended_exhausts:
  "Suc (n - i) \<le> k \<Longrightarrow> snd (iter_run g ags ds (Suspended i n) k) = Exhausted"
proof (induction k arbitrary: i)
  case (Suc k)
  obtain r st' where st': "iter_next g ags ds (Suspended i n) = (r, st')" by fastforce
  have "snd (iter_run g ags ds st' k) = Exhausted"
  proof (cases "st' = Exhausted")
    case True then show ?thesis by (simp add: iter_run_Exhausted)
  next
    case False
    then have "i < n" "st' = Suspended (Suc i) n" using loop_step_cases [of g ags ds i n r st'] st' by auto
    then show ?thesis using Suc by simp
  qed
  then show ?case using snd_iter_run_Suc [OF st'] by simp
qed simp

lemma iter_run_Created_Some:
  assumes l: "sg_length g = Some l"
  shows "snd (iter_run g ags ds Created (Suc (nat l))) = Exhausted"
proof -
  obtain r st' where st': "iter_next g ags ds Created = (r, st')" by fastforce
  have "snd (iter_run g ags ds st' (nat l)) = Exhausted"
  proof (cases "st' = Exhausted")
    case True then show ?thesis by (simp add: iter_run_Exhausted)
  next
    case False
    then have "0 < nat l" "st' = Suspended 1 (nat l)" using iter_next_cases [OF st'] l by auto
    then show ?thesis by (simp add: iter_run_Suspended_exhausts)
  qed
  then show ?thesis using snd_iter_run_Suc [OF st'] by simp
qed

text \<open>\<open>k\<close> calls of \<open>next\<close> followed by \<open>m\<close> more.\<close>

lemma iter_run_add:
  "iter_run g ags ds st (k + m) =
     (fst (iter_run g ags ds st k) @ fst (iter_run g ags ds (snd (iter_run g ags ds st k)) m),
      snd (iter_run g ags ds (snd (iter_run g ags ds st k)) m))"
proof (induction k arbitrary: st)
  case (Suc k)
  obtain r st' where "iter_next g ags ds st = (r, st')" by fastforce
  then show ?case using Suc [of st'] by (simp split: prod.split)
qed (simp split: prod.split)

text \<open>C16: Iteration always ends: after \<open>max l 0 + 1\<close> calls of
  \<open>next\<close> (one call for a \<open>None\<close> length), whatever the configuration and the
  draws, the generator is exhausted.\<close>

theorem iteration_terminates:
  "snd (iter_run g ags ds Created (case sg_length g of None \<Rightarrow> 1 | Some l \<Rightarrow> Suc (nat l))) = Exhausted"
proof (cases "sg_length g")
  case (Some l)
  then show ?thesis using iter_run_Created_Some [OF Some, of ags ds] by (simp only: option.case)
qed simp

subsection \<open>Calls of \<open>g(l)\<close> interleaved with \<open>next\<close>\<close>

lemma loop_step_sg_call: "loop_step (sg_call g l) ags ds i n = loop_step g ags ds i n"
  by (simp add: loop_step_def sg_call_def)

lemma iter_next_not_Created: "iter_next g ags ds st = (r, st') \<Longrightarrow> st' \<noteq> Created"
  using iter_next_cases by blast

lemma iter_run_sg_call:
  "st \<noteq> Created \<Longrightarrow> iter_run (sg_call g l) ags ds st k = iter_run g ags ds st k"
proof (induction k arbitrary: st)
  case (Suc k)
  obtain r st' where st': "iter_next g ags ds st = (r, st')" by fastforce
  have "iter_next (sg_call g l) ags ds st = iter_next g ags ds st"
    using Suc.prems by (cases st) (simp_all add: loop_step_sg_call)
  then show ?case
    using st' Suc.IH [OF iter_next_not_Created [OF st']] by simp
qed simp

lemma iter_run_not_Created: "0 < k \<Longrightarrow> snd (iter_run g ags ds st k) \<noteq> Created"
proof (induction k arbitrary: st)
  case (Suc k)
  obtain r st' where st': "iter_next g ags ds st = (r, st')" by fastforce
  show ?case
    unfolding snd_iter_run_Suc [OF st']
  proof (cases k)
    case 0
    then show "snd (iter_run g ags ds st' k) \<noteq> Created" using iter_next_not_Created [OF st'] by simp
  next
    case (Suc j)
    then show "snd (iter_run g ags ds st' k) \<noteq> Created" by (intro Suc.IH) simp
  qed
qed simp

text \<open>C18: \<open>range(self._length)\<close> is evaluated at the first
  \<open>next\<close>: once a run has started, calling \<open>g(l)\<close> on the object between two calls of
  \<open>next\<close> changes nothing in the rest of the run, which yields what the run without the
  call yields.\<close>

theorem call_during_iteration:
  assumes "0 < k"
  shows "fst (iter_run g ags ds Created k) @
           fst (iter_run (sg_call g l) ags ds (snd (iter_run g ags ds Created k)) m) =
         fst (iter_run g ags ds Created (k + m))"
  using iter_run_add [of g ags ds Created k m] iter_run_sg_call [OF iter_run_not_Created [OF assms]]
  by simp

subsection \<open>The demo\<close>

lemma demo_generators_ok:
  "0 < n_points default_generator" "acf_divisors_ok default_generator" "0 \<le> rms default_generator"
  "0 < n_points (BesselNonGaussianSurfaceGenerator 128 1 0 3 16 16 0.5 4000 4000)"
  "acf_divisors_ok (BesselNonGaussianSurfaceGenerator 128 1 0 3 16 16 0.5 4000 4000)"
  "0 \<le> rms (BesselNonGaussianSurfaceGenerator 128 1 0 3 16 16 0.5 4000 4000)"
  by (simp_all add: default_generator_def NonGaussianSurfaceGenerator_def
      BesselNonGaussianSurfaceGenerator_def sg_init_def acf_divisors_ok_def)

lemma one_surface:
  assumes n: "0 < n_points g" and ok: "acf_divisors_ok g" and r: "0 \<le> rms g"
    and ds: "draws_ok g ds" and ags: "\<forall>v. argsort_nan_spec v (ags v)"
  shows "\<exists>S. py_list (sg_call g (Some 1)) ags ds Created = Inr [S] \<and> square (nat (n_points g)) S"
proof -
  obtain F where F: "\<forall>k. generate_surface g (fst (ds k)) (snd (ds k)) ags = Inr (F k) \<and>
      square (nat (n_points g)) (F k)"
    using surface_draws [OF n ok r ds ags] by blast
  then have "py_list (sg_call g (Some 1)) ags ds Created = Inr (map F [0..<nat 1])"
    by (intro py_list_call) simp
  then show ?thesis using F by auto
qed

text \<open>The module's demo plots exactly two surfaces, both
  \<open>128 \<times> 128\<close>, and ends without an exception.\<close>

theorem generators_main_plots:
  assumes ds1: "draws_ok default_generator ds1"
    and ds2: "draws_ok (BesselNonGaussianSurfaceGenerator 128 1 0 3 16 16 0.5 4000 4000) ds2"
    and ags: "\<forall>v. argsort_nan_spec v (ags v)"
  shows "\<exists>S1 S2. generators_main ags ds1 ds2 = ([S1, S2], None) \<and> square 128 S1 \<and> square 128 S2"
proof -
  obtain S1 where S1: "py_list (sg_call default_generator (Some 1)) ags ds1 Created = Inr [S1]"
      "square (nat (n_points default_generator)) S1"
    using one_surface [OF demo_generators_ok(1-3) ds1 ags] by blast
  obtain S2 where S2: "py_list (sg_call (BesselNonGaussianSurfaceGenerator 128 1 0 3 16 16 0.5 4000 4000) (Some 1))
        ags ds2 Created = Inr [S2]"
      "square (nat (n_points (BesselNonGaussianSurfaceGenerator 128 1 0 3 16 16 0.5 4000 4000))) S2"
    using one_surface [OF demo_generators_ok(4-6) ds2 ags] by blast
  have "nat (n_points default_generator) = 128"
    "nat (n_points (BesselNonGaussianSurfaceGenerator 128 1 0 3 16 16 0.5 4000 4000)) = 128"
    by (simp_all add: default_generator_def NonGaussianSurfaceGenerator_def
        BesselNonGaussianSurfaceGenerator_def sg_init_def)
  then show ?thesis using S1 S2 by (simp add: generators_main_def)
qed

subsection \<open>Witnesses\<close>

lemma small_generator_ok:
  "0 < n_points (NonGaussianSurfaceGenerator 1 1 0 3 4 4 1)" "acf_divisors_ok (NonGaussianSurfaceGenerator 1 1 0 3 4 4 1)" "0 \<le> rms (NonGaussianSurfaceGenerator 1 1 0 3 4 4 1)"
  by (simp_all add: NonGaussianSurfaceGenerator_def sg_init_def acf_divisors_ok_def)

lemma small_draws_ok: "draws_ok (NonGaussianSurfaceGenerator 1 1 0 3 4 4 1) (\<lambda>k. ([[5]], [[7]]))"
  by (simp add: draws_ok_def NonGaussianSurfaceGenerator_def sg_init_def square_def)

lemma np_argsort_nan_all: "\<forall>v. argsort_nan_spec v (np_argsort_nan v)"
  by (simp add: np_argsort_nan_spec)

theorem generate_surface_rank_witness:
  "0 < n_points (NonGaussianSurfaceGenerator 1 1 0 3 4 4 1) \<and> acf_divisors_ok (NonGaussianSurfaceGenerator 1 1 0 3 4 4 1) \<and>
   0 \<le> rms (NonGaussianSurfaceGenerator 1 1 0 3 4 4 1) \<and>
   square (nat (n_points (NonGaussianSurfaceGenerator 1 1 0 3 4 4 1))) [[5]] \<and> square (nat (n_points (NonGaussianSurfaceGenerator 1 1 0 3 4 4 1))) [[7]] \<and>
   (\<forall>v. argsort_nan_spec v (np_argsort_nan v)) \<and>
   (\<exists>R S. lag_grid (NonGaussianSurfaceGenerator 1 1 0 3 4 4 1) = Inr (R, 1, 1) \<and>
      generate_surface (NonGaussianSurfaceGenerator 1 1 0 3 4 4 1) [[5]] [[7]] np_argsort_nan = Inr S \<and>
      square (nat (n_points (NonGaussianSurfaceGenerator 1 1 0 3 4 4 1))) S \<and> mset (concat S) = mset (concat [[7 :: real]]))"
proof -
  have h: "square (nat (n_points (NonGaussianSurfaceGenerator 1 1 0 3 4 4 1))) [[5]]" "square (nat (n_points (NonGaussianSurfaceGenerator 1 1 0 3 4 4 1))) [[7]]"
    by (simp_all add: NonGaussianSurfaceGenerator_def sg_init_def square_def)
  show ?thesis
    using small_generator_ok h np_argsort_nan_all
      generate_surface_rank [OF small_generator_ok h np_argsort_nan_all]
    by blast
qed

theorem list_surfaces_witness:
  "0 < n_points (NonGaussianSurfaceGenerator 1 1 0 3 4 4 1) \<and> acf_divisors_ok (NonGaussianSurfaceGenerator 1 1 0 3 4 4 1) \<and>
   0 \<le> rms (NonGaussianSurfaceGenerator 1 1 0 3 4 4 1) \<and>
   draws_ok (NonGaussianSurfaceGenerator 1 1 0 3 4 4 1) (\<lambda>k. ([[5]], [[7]])) \<and>
   (\<forall>v. argsort_nan_spec v (np_argsort_nan v)) \<and>
   (\<exists>Ss. py_list (sg_call (NonGaussianSurfaceGenerator 1 1 0 3 4 4 1) (Some 2)) np_argsort_nan (\<lambda>k. ([[5]], [[7]])) Created =
      Inr Ss \<and>
      length Ss = 2)"
  using small_generator_ok small_draws_ok np_argsort_nan_all
    list_surfaces [OF small_generator_ok small_draws_ok np_argsort_nan_all, of 2]
  by auto

theorem next_after_exhaustion_witness:
  "0 < n_points (NonGaussianSurfaceGenerator 1 1 0 3 4 4 1) \<and> acf_divisors_ok (NonGaussianSurfaceGenerator 1 1 0 3 4 4 1) \<and>
   0 \<le> rms (NonGaussianSurfaceGenerator 1 1 0 3 4 4 1) \<and>
   draws_ok (NonGaussianSurfaceGenerator 1 1 0 3 4 4 1) (\<lambda>k. ([[5]], [[7]])) \<and>
   (\<forall>v. argsort_nan_spec v (np_argsort_nan v)) \<and>
   (\<exists>Ss. iter_run (sg_call (NonGaussianSurfaceGenerator 1 1 0 3 4 4 1) (Some 2)) np_argsort_nan (\<lambda>k. ([[5]], [[7]]))
        Created 3 =
      (map Inr Ss @ [Inl StopIteration], Exhausted) \<and> length Ss = 2)"
  using small_generator_ok small_draws_ok np_argsort_nan_all
    next_after_exhaustion [OF small_generator_ok small_draws_ok np_argsort_nan_all, of 2 0]
  by (simp add: numeral_eq_Suc)

theorem gen_reach_inv_witness:
  "gen_reach (sg_call (NonGaussianSurfaceGenerator 1 1 0 3 4 4 1) (Some 2)) np_argsort_nan (\<lambda>k. ([[5]], [[7]]))
     (Suspended 1 2) \<and>
   iter_inv (sg_call (NonGaussianSurfaceGenerator 1 1 0 3 4 4 1) (Some 2)) (Suspended 1 2)"
proof -
  let ?g = "sg_call (NonGaussianSurfaceGenerator 1 1 0 3 4 4 1) (Some 2)"
  have h: "square (nat (n_points (NonGaussianSurfaceGenerator 1 1 0 3 4 4 1))) [[5]]"
    "square (nat (n_points (NonGaussianSurfaceGenerator 1 1 0 3 4 4 1))) [[7]]"
    by (simp_all add: NonGaussianSurfaceGenerator_def sg_init_def square_def)
  obtain S where "generate_surface (NonGaussianSurfaceGenerator 1 1 0 3 4 4 1) [[5]] [[7]] np_argsort_nan = Inr S"
    using generate_surface_Inr [OF small_generator_ok h np_argsort_nan_all] by blast
  then have "iter_next ?g np_argsort_nan (\<lambda>k. ([[5]], [[7]])) Created = (Inr S, Suspended 1 2)"
    by (simp add: sg_call_def loop_step_def)
  then have "gen_reach ?g np_argsort_nan (\<lambda>k. ([[5]], [[7]])) (Suspended 1 2)"
    using gen_reach.step [OF gen_reach.start] by blast
  then show ?thesis using gen_reach_inv by blast
qed

theorem generators_main_plots_witness:
  "draws_ok default_generator (\<lambda>k. (replicate 128 (replicate 128 0), replicate 128 (replicate 128 0))) \<and>
   draws_ok (BesselNonGaussianSurfaceGenerator 128 1 0 3 16 16 0.5 4000 4000)
     (\<lambda>k. (replicate 128 (replicate 128 0), replicate 128 (replicate 128 0))) \<and>
   (\<forall>v. argsort_nan_spec v (np_argsort_nan v)) \<and>
   (\<exists>S1 S2. generators_main np_argsort_nan (\<lambda>k. (replicate 128 (replicate 128 0), replicate 128 (replicate 128 0)))
      (\<lambda>k. (replicate 128 (replicate 128 0), replicate 128 (replicate 128 0))) = ([S1, S2], None) \<and>
      square 128 S1 \<and> square 128 S2)"
proof -
  have d: "draws_ok default_generator (\<lambda>k. (replicate 128 (replicate 128 0), replicate 128 (replicate 128 0)))"
    "draws_ok (BesselNonGaussianSurfaceGenerator 128 1 0 3 16 16 0.5 4000 4000)
       (\<lambda>k. (replicate 128 (replicate 128 0), replicate 128 (replicate 128 0)))"
    by (simp_all add: draws_ok_def default_generator_def NonGaussianSurfaceGenerator_def
        BesselNonGaussianSurfaceGenerator_def sg_init_def square_def list_all_iff)
  show ?thesis using d np_argsort_nan_all generators_main_plots [OF d np_argsort_nan_all] by blast
qed

theorem call_during_iteration_witness:
  "0 < (1 :: nat) \<and>
   fst (iter_run (sg_call (NonGaussianSurfaceGenerator 1 1 0 3 4 4 1) (Some 2)) np_argsort_nan
          (\<lambda>k. ([[5]], [[7]])) Created 1) @
     fst (iter_run (sg_call (sg_call (NonGaussianSurfaceGenerator 1 1 0 3 4 4 1) (Some 2)) (Some 5)) np_argsort_nan
          (\<lambda>k. ([[5]], [[7]]))
          (snd (iter_run (sg_call (NonGaussianSurfaceGenerator 1 1 0 3 4 4 1) (Some 2)) np_argsort_nan
                 (\<lambda>k. ([[5]], [[7]])) Created 1)) 2) =
   fst (iter_run (sg_call (NonGaussianSurfaceGenerator 1 1 0 3 4 4 1) (Some 2)) np_argsort_nan
          (\<lambda>k. ([[5]], [[7]])) Created (1 + 2))"
proof -
  have h: "0 < (1 :: nat)" by simp
  show ?thesis by (rule conjI [OF h call_during_iteration [OF h]])
qed

end
