(* ===== verification/Loaders.thy ===== *)
theory Loaders
  imports Generator Datasets
begin

text \<open>
  The dataset loaders of src/src/roughgan/data/loaders.py.  Each loader is a Python
  generator function; the model returns the elements it yields, or the exception
  raised before the first one.  The dataset class is that of Datasets.  The directory listing after
  extraction (\<open>cache_dir.iterdir()\<close>, in the order the file system returns it) and the
  arrays \<open>scipy.io.loadmat\<close> and \<open>from_pt\<close> read are inputs.
\<close>

section \<open>Definitions\<close>

text \<open>Lines 13--20: the generator \<open>g\<close> is the object \<open>NonGaussianSurfaceGenerator(**kwargs)\<close>
  builds (the keyword arguments themselves are not modelled), iterated over
  \<open>generate_surfaces(limit)\<close> in a \<open>for\<close> loop, which does not call \<open>len\<close>; the one
  element yielded is \<open>(None, dataset)\<close>.\<close>

definition load_dataset_from_generator ::
  "'t list \<Rightarrow> int option \<Rightarrow> surface_generator \<Rightarrow> (real option list \<Rightarrow> nat list) \<Rightarrow> draws \<Rightarrow>
   (unit option \<times> 't nanorough_dataset) result" where
  "load_dataset_from_generator transforms limit g ags ds =
     (case py_list (sg_call g limit) ags ds Created of
        Inl e \<Rightarrow> Inl e
      | Inr surfaces \<Rightarrow> Inr (None, from_list surfaces transforms))"

text \<open>\<open>itertools.islice(it, limit)\<close>: all of \<open>it\<close> for None, the first \<open>limit\<close>
  elements otherwise; a negative stop raises ValueError.\<close>

definition py_islice :: "'a list \<Rightarrow> int option \<Rightarrow> 'a list result" where
  "py_islice xs limit =
     (case limit of
        None \<Rightarrow> Inr xs
      | Some l \<Rightarrow> if l < 0 then Inl ValueError else Inr (take (nat l) xs))"

text \<open>A directory entry: a subdirectory, or a file with its suffix and contents.\<close>

datatype 'a dir_entry = Dir | File string 'a

text \<open>\<open>if file.is_dir() or file.suffix != suffix: continue\<close>.\<close>

fun files_with_suffix :: "string \<Rightarrow> 'a dir_entry list \<Rightarrow> 'a list" where
  "files_with_suffix suf [] = []"
| "files_with_suffix suf (Dir # es) = files_with_suffix suf es"
| "files_with_suffix suf (File s x # es) =
     (if s = suf then x # files_with_suffix suf es else files_with_suffix suf es)"

text \<open>Lines 23--40.  \<open>cache_dir\<close> defaults to None, on which \<open>.is_dir()\<close> raises
  AttributeError; the extraction is file-system work and \<open>entries\<close> is the listing
  it leaves.  The limit is applied to the listing before the \<open>.mat\<close> filter.\<close>

definition load_dataset_from_zip ::
  "'p \<Rightarrow> 't list \<Rightarrow> int option \<Rightarrow> 'c option \<Rightarrow> real list list dir_entry list \<Rightarrow>
   ('p \<times> 't nanorough_dataset) result" where
  "load_dataset_from_zip dataset_path transforms limit cache_dir entries =
     (case cache_dir of
        None \<Rightarrow> Inl AttributeError
      | Some _ \<Rightarrow>
          (case py_islice entries limit of
             Inl e \<Rightarrow> Inl e
           | Inr es \<Rightarrow> Inr (dataset_path, from_list (files_with_suffix ''.mat'' es) transforms)))"

text \<open>\<open>xs[:stop]\<close>: a negative stop counts from the end.\<close>

definition py_slice_stop :: "'a list \<Rightarrow> int \<Rightarrow> 'a list" where
  "py_slice_stop xs stop =
     take (if 0 \<le> stop then nat stop else nat (int (length xs) + stop)) xs"

text \<open>Lines 43--52, from the dataset \<open>from_pt\<close> read.\<close>

definition load_dataset_from_pt ::
  "'p \<Rightarrow> 't list \<Rightarrow> int option \<Rightarrow> 't nanorough_dataset \<Rightarrow> 'p \<times> 't nanorough_dataset" where
  "load_dataset_from_pt dataset_path transforms limit dataset =
     (let d1 = (case limit of
                  None \<Rightarrow> dataset
                | Some l \<Rightarrow> dataset\<lparr>ds_surfaces := py_slice_stop (ds_surfaces dataset) l\<rparr>);
          d2 = (if transforms \<noteq> [] then d1\<lparr>ds_transforms := transforms\<rparr> else d1)
      in (dataset_path, d2))"

text \<open>The \<open>limit\<close> of line 55: one value for both, or a tuple.\<close>

datatype limit_arg = LimitOne "int option" | LimitPair "int option" "int option"

text \<open>Lines 55--64: every \<open>.pt\<close> file among the first \<open>datasets_limit\<close> entries,
  each loaded with \<open>surfaces_limit\<close>.\<close>

definition load_multiple_datasets_from_pt ::
  "'t list \<Rightarrow> limit_arg \<Rightarrow> ('p \<times> 't nanorough_dataset) dir_entry list \<Rightarrow>
   ('p \<times> 't nanorough_dataset) list result" where
  "load_multiple_datasets_from_pt transforms limit entries =
     (let (datasets_limit, surfaces_limit) =
            (case limit of LimitOne l \<Rightarrow> (l, l) | LimitPair a b \<Rightarrow> (a, b))
      in case py_islice entries datasets_limit of
           Inl e \<Rightarrow> Inl e
         | Inr es \<Rightarrow>
             Inr (map (\<lambda>(p, d). load_dataset_from_pt p transforms surfaces_limit d)
                    (files_with_suffix ''.pt'' es)))"

section \<open>Lemmas\<close>

lemma py_list_None: "py_list (sg_call g None) ags ds Created = Inl TypeError"
  by (simp add: py_list.simps [of _ _ _ Created] sg_call_def)

text \<open>C28: With its default \<open>limit=None\<close>, \<open>load_dataset_from_generator\<close> raises TypeError (from \<open>range(None)\<close>) at its first \<open>next\<close>; it yields nothing.\<close>

theorem load_generator_default_limit:
  "load_dataset_from_generator transforms None g ags ds = Inl TypeError"
  by (simp add: load_dataset_from_generator_def py_list_None del: py_list.simps)

text \<open>C29: With an int limit and a valid configuration, \<open>load_dataset_from_generator\<close> yields one dataset of exactly \<open>max limit 0\<close> surfaces carrying the given transforms.\<close>

theorem load_generator_count:
  assumes n: "0 < n_points g" and ok: "acf_divisors_ok g" and r: "0 \<le> rms g"
    and ds: "draws_ok g ds" and ags: "\<forall>v. argsort_nan_spec v (ags v)"
  shows "\<exists>d. load_dataset_from_generator transforms (Some l) g ags ds = Inr (None, d) \<and>
           length (ds_surfaces d) = nat l \<and> ds_transforms d = transforms"
proof -
  obtain F where "\<forall>k. generate_surface g (fst (ds k)) (snd (ds k)) ags = Inr (F k)"
    using surface_draws [OF n ok r ds ags] by blast
  then have "py_list (sg_call g (Some l)) ags ds Created = Inr (map F [0..<nat l])"
    by (intro py_list_call) simp
  then show ?thesis
    by (simp add: load_dataset_from_generator_def from_list_def)
qed

lemma length_files_with_suffix: "length (files_with_suffix s es) \<le> length es"
  by (induction s es rule: files_with_suffix.induct) (simp_all add: le_SucI)

text \<open>C30: \<open>load_dataset_from_zip\<close> applies the limit to the directory listing before the \<open>.mat\<close> filter: its dataset holds the \<open>.mat\<close> files among the first \<open>limit\<close> entries, at most \<open>limit\<close> surfaces and possibly fewer.\<close>

theorem load_zip_limit:
  assumes "0 \<le> l"
  shows "\<exists>d. load_dataset_from_zip path transforms (Some l) (Some c) entries = Inr (path, d) \<and>
           ds_surfaces d = files_with_suffix ''.mat'' (take (nat l) entries) \<and>
           length (ds_surfaces d) \<le> nat l"
proof -
  have "length (files_with_suffix ''.mat'' (take (nat l) entries)) \<le> nat l"
    using length_files_with_suffix [of "''.mat''" "take (nat l) entries"] by simp
  then show ?thesis
    using assms by (simp add: load_dataset_from_zip_def py_islice_def from_list_def)
qed

text \<open>C31: \<open>load_dataset_from_zip\<close> raises AttributeError with its default \<open>cache_dir=None\<close>, and ValueError (from \<open>islice\<close>) with a negative limit.\<close>

theorem load_zip_errors:
  "load_dataset_from_zip path transforms limit None entries = Inl AttributeError \<and>
   load_dataset_from_zip path transforms (Some (- int (Suc k))) (Some c) entries = Inl ValueError"
  by (simp add: load_dataset_from_zip_def py_islice_def)

lemma py_slice_stop_take: "\<exists>k. py_slice_stop xs l = take k xs"
  by (auto simp: py_slice_stop_def)

text \<open>\<open>load_dataset_from_pt\<close> yields the given path and a dataset whose surfaces are a prefix of the stored ones, with the given transforms when there are any and the stored ones otherwise.\<close>

theorem load_pt_prefix:
  "fst (load_dataset_from_pt path transforms limit d) = path \<and>
   (\<exists>k. ds_surfaces (snd (load_dataset_from_pt path transforms limit d)) = take k (ds_surfaces d)) \<and>
   ds_transforms (snd (load_dataset_from_pt path transforms limit d)) =
     (if transforms = [] then ds_transforms d else transforms)"
proof (cases limit)
  case None
  then show ?thesis by (auto simp: load_dataset_from_pt_def Let_def intro: exI [of _ "length (ds_surfaces d)"])
next
  case (Some l)
  then show ?thesis
    using py_slice_stop_take [of "ds_surfaces d" l] by (simp add: load_dataset_from_pt_def Let_def)
qed

text \<open>C32: A negative limit in \<open>load_dataset_from_pt\<close> does not fail: \<open>surfaces[:limit]\<close> drops \<open>|limit|\<close> surfaces from the end.\<close>

theorem load_pt_negative_limit:
  assumes "l < 0"
  shows "ds_surfaces (snd (load_dataset_from_pt path transforms (Some l) d)) =
           take (length (ds_surfaces d) - nat (- l)) (ds_surfaces d)"
proof -
  have "nat (int (length (ds_surfaces d)) + l) = length (ds_surfaces d) - nat (- l)"
    using assms by linarith
  then show ?thesis
    using assms by (simp add: load_dataset_from_pt_def Let_def py_slice_stop_def)
qed

lemma load_pt_length_le:
  "0 \<le> l \<Longrightarrow> length (ds_surfaces (snd (load_dataset_from_pt path transforms (Some l) d))) \<le> nat l"
  by (simp add: load_dataset_from_pt_def Let_def py_slice_stop_def)

lemma set_files_with_suffix: "set (files_with_suffix s es) \<subseteq> {x. File s x \<in> set es}"
  by (induction s es rule: files_with_suffix.induct) auto

text \<open>With one non-negative int limit, \<open>load_multiple_datasets_from_pt\<close> yields at most \<open>limit\<close> datasets of at most \<open>limit\<close> surfaces each.\<close>

theorem load_multiple_limit_one:
  assumes "0 \<le> l" and "load_multiple_datasets_from_pt transforms (LimitOne (Some l)) entries = Inr Ds"
  shows "length Ds \<le> nat l \<and> (\<forall>x \<in> set Ds. length (ds_surfaces (snd x)) \<le> nat l)"
proof -
  have Ds: "Ds = map (\<lambda>(p, d). load_dataset_from_pt p transforms (Some l) d)
                  (files_with_suffix ''.pt'' (take (nat l) entries))"
    using assms by (simp add: load_multiple_datasets_from_pt_def py_islice_def)
  have "length Ds \<le> nat l"
    using length_files_with_suffix [of "''.pt''" "take (nat l) entries"] by (simp add: Ds)
  moreover have "length (ds_surfaces (snd x)) \<le> nat l" if xD: "x \<in> set Ds" for x
  proof -
    obtain y where "x = (\<lambda>(p, d). load_dataset_from_pt p transforms (Some l) d) y"
      using xD unfolding Ds set_map by blast
    then obtain p d where "x = load_dataset_from_pt p transforms (Some l) d"
      by (cases y) simp
    then show ?thesis using load_pt_length_le [OF assms(1)] by simp
  qed
  ultimately show ?thesis by blast
qed

subsection \<open>Witnesses\<close>

theorem load_generator_count_witness:
  "0 < n_points (NonGaussianSurfaceGenerator 1 1 0 3 4 4 1) \<and>
   acf_divisors_ok (NonGaussianSurfaceGenerator 1 1 0 3 4 4 1) \<and>
   0 \<le> rms (NonGaussianSurfaceGenerator 1 1 0 3 4 4 1) \<and>
   draws_ok (NonGaussianSurfaceGenerator 1 1 0 3 4 4 1) (\<lambda>k. ([[5]], [[7]])) \<and>
   (\<forall>v. argsort_nan_spec v (np_argsort_nan v)) \<and>
   (\<exists>d. load_dataset_from_generator ([] :: nat list) (Some 2) (NonGaussianSurfaceGenerator 1 1 0 3 4 4 1)
          np_argsort_nan (\<lambda>k. ([[5]], [[7]])) = Inr (None, d) \<and>
        length (ds_surfaces d) = 2 \<and> ds_transforms d = [])"
  using small_generator_ok small_draws_ok np_argsort_nan_all
    load_generator_count [OF small_generator_ok small_draws_ok np_argsort_nan_all, of "[] :: nat list" 2]
  by simp

theorem load_zip_limit_witness:
  "0 \<le> (1 :: int) \<and>
   (\<exists>d. load_dataset_from_zip ''data.zip'' ([] :: nat list) (Some 1) (Some ''cache'')
          [Dir, File ''.mat'' [[1]]] = Inr (''data.zip'', d) \<and>
        ds_surfaces d = [] \<and> length (ds_surfaces d) \<le> 1)"
  using load_zip_limit [of 1 "''data.zip''" "[] :: nat list" "''cache''" "[Dir, File ''.mat'' [[1]]]"]
  by simp

theorem load_pt_negative_limit_witness:
  "(- 1 :: int) < 0 \<and>
   ds_surfaces (snd (load_dataset_from_pt ''d.pt'' ([] :: nat list) (Some (- 1))
     \<lparr>ds_surfaces = [[[1]], [[2]], [[3]]], ds_transforms = []\<rparr>)) = [[[1]], [[2]]]"
  using load_pt_negative_limit [of "- 1" "''d.pt''" "[] :: nat list"
      "\<lparr>ds_surfaces = [[[1]], [[2]], [[3]]], ds_transforms = []\<rparr>"]
  by (simp add: numeral_eq_Suc)

theorem load_multiple_limit_one_witness:
  "0 \<le> (1 :: int) \<and>
   load_multiple_datasets_from_pt ([] :: nat list) (LimitOne (Some 1))
     [File ''.pt'' (''a.pt'', \<lparr>ds_surfaces = [[[1]], [[2]]], ds_transforms = []\<rparr>)] =
     Inr [(''a.pt'', \<lparr>ds_surfaces = [[[1]]], ds_transforms = []\<rparr>)] \<and>
   length [(''a.pt'', \<lparr>ds_surfaces = [[[1 :: real]]], ds_transforms = [] :: nat list\<rparr>)] \<le> nat 1"
proof -
  have h: "load_multiple_datasets_from_pt ([] :: nat list) (LimitOne (Some 1))
     [File ''.pt'' (''a.pt'', \<lparr>ds_surfaces = [[[1]], [[2]]], ds_transforms = []\<rparr>)] =
     Inr [(''a.pt'', \<lparr>ds_surfaces = [[[1]]], ds_transforms = []\<rparr>)]"
    by (simp add: load_multiple_datasets_from_pt_def py_islice_def load_dataset_from_pt_def
        py_slice_stop_def)
  show ?thesis
    using h load_multiple_limit_one [OF _ h] by simp
qed

end
