(* ===== verification/Cli.thy ===== *)
theory Cli
  imports Generator Datasets
begin

text \<open>
  The command line of src/src/roughml/cli/dataset.py: the option table of the
  \<open>dataset\<close> group, the configuration dictionary it stores in \<open>ctx.obj\<close>, the
  generator each subcommand builds from it, and \<open>generate\<close>, which collects the
  surfaces and writes them with \<open>to_pt\<close> to the \<open>.pt\<close> files of Datasets, and the
  command line \<open>dataset()\<close> parses.  \<open>option_dest\<close> models how click's parser resolves
  a flag: every flag of every option is registered in declaration order into one
  table, a later registration replacing an earlier one.  \<open>cli_main\<close> runs click on a
  list of tokens: the group's options (\<open>parse_opts\<close>), their conversion and defaults,
  the required \<open>--dataset\<close>, then the subcommand.  Click's \<open>--opt=value\<close> and
  \<open>-sVALUE\<close> spellings, the \<open>--\<close> separator, and the whitespace and underscores
  \<open>int()\<close> also accepts are not modelled; the logging set-up is I/O.  The module imports
  \<open>roughml.data.generators\<close>; the model takes it to be the generator module of
  src/src/roughgan.
\<close>

section \<open>Definitions\<close>

text \<open>\<open>ctx.obj\<close> of the \<open>dataset\<close> group (lines 159--168).\<close>

record cli_config =
  cfg_surfaces :: int
  cfg_dataset_path :: string
  cfg_number_of_points :: int
  cfg_rms :: int
  cfg_skewness :: int
  cfg_kurtosis :: int
  cfg_correlation_lengths :: "int \<times> int"
  cfg_alpha :: int

text \<open>The group callback \<open>dataset\<close> (lines 146--168); the logging level only
  configures logging.\<close>

definition dataset_cmd ::
  "int \<Rightarrow> string \<Rightarrow> string \<Rightarrow> int \<Rightarrow> int \<Rightarrow> int \<Rightarrow> int \<Rightarrow> int \<times> int \<Rightarrow> int \<Rightarrow> cli_config" where
  "dataset_cmd surfaces dataset_path logging_level number_of_points rms' skewness' kurtosis'
     correlation_lengths alpha' =
     \<lparr>cfg_surfaces = surfaces, cfg_dataset_path = dataset_path,
      cfg_number_of_points = number_of_points, cfg_rms = rms', cfg_skewness = skewness',
      cfg_kurtosis = kurtosis', cfg_correlation_lengths = correlation_lengths, cfg_alpha = alpha'\<rparr>"

text \<open>The options of lines 52--144 in declaration order: short flag, long flag,
  destination.\<close>

definition dataset_options :: "(string \<times> string \<times> string) list" where
  "dataset_options =
     [(''-s'', ''--surfaces'', ''surfaces''),
      (''-d'', ''--dataset'', ''dataset_path''),
      (''-l'', ''--log'', ''logging_level''),
      (''-n'', ''--number-of-points'', ''number_of_points''),
      (''-r'', ''--rms'', ''rms''),
      (''-s'', ''--skewness'', ''skewness''),
      (''-k'', ''--kurtosis'', ''kurtosis''),
      (''-c'', ''--correlation-lengths'', ''correlation_lengths''),
      (''-a'', ''--alpha'', ''alpha'')]"

text \<open>The destination a flag on the command line sets.\<close>

definition option_dest :: "string \<Rightarrow> string option" where
  "option_dest =
     fold (\<lambda>(s, l, d) m. m(s \<mapsto> d, l \<mapsto> d)) dataset_options Map.empty"


text \<open>Lines 16--25.\<close>

definition get_standard_generator :: "cli_config \<Rightarrow> surface_generator" where
  "get_standard_generator config =
     NonGaussianSurfaceGenerator (cfg_number_of_points config) (of_int (cfg_rms config))
       (of_int (cfg_skewness config)) (of_int (cfg_kurtosis config))
       (of_int (fst (cfg_correlation_lengths config))) (of_int (snd (cfg_correlation_lengths config)))
       (of_int (cfg_alpha config))"

text \<open>Lines 28--39.\<close>

definition get_besel_generator :: "cli_config \<Rightarrow> int \<times> int \<Rightarrow> surface_generator" where
  "get_besel_generator config betas =
     BesselNonGaussianSurfaceGenerator (cfg_number_of_points config) (of_int (cfg_rms config))
       (of_int (cfg_skewness config)) (of_int (cfg_kurtosis config))
       (of_int (fst (cfg_correlation_lengths config))) (of_int (snd (cfg_correlation_lengths config)))
       (of_int (cfg_alpha config)) (of_int (fst betas)) (of_int (snd betas))"

text \<open>Line 44: \<open>tqdm.tqdm(iterable)\<close> first asks \<open>len(iterable)\<close> for its total and
  falls back to no total on TypeError and AttributeError only; any other exception of
  \<open>len\<close> propagates.\<close>

definition tqdm_len :: "surface_generator \<Rightarrow> nat option result" where
  "tqdm_len it =
     (case sg_len it of
        Inl e \<Rightarrow> if e = TypeError \<or> e = AttributeError then Inr None else Inl e
      | Inr n \<Rightarrow> Inr (Some n))"

text \<open>Lines 42--49: the surfaces of \<open>tqdm.tqdm(generator(dataset_size))\<close> are collected
  into a dataset with no transforms, which \<open>to_pt\<close> writes to \<open>save_path\<close>; an
  exception, from \<open>len\<close> in tqdm or while generating, leaves the files as they were.\<close>

definition generate ::
  "surface_generator \<Rightarrow> int \<Rightarrow> string \<Rightarrow> (real option list \<Rightarrow> nat list) \<Rightarrow> draws \<Rightarrow>
   't pt_files \<Rightarrow> 't pt_files result" where
  "generate generator dataset_size save_path ags ds files =
     (case tqdm_len (sg_call generator (Some dataset_size)) of
        Inl e \<Rightarrow> Inl e
      | Inr _ \<Rightarrow>
          (case py_list (sg_call generator (Some dataset_size)) ags ds Created of
             Inl e \<Rightarrow> Inl e
           | Inr surfaces \<Rightarrow> Inr (to_pt (from_list surfaces []) save_path files)))"

text \<open>The subcommands \<open>standard\<close> (lines 178--184) and \<open>besel\<close> (lines 187--202).\<close>

definition standard ::
  "cli_config \<Rightarrow> (real option list \<Rightarrow> nat list) \<Rightarrow> draws \<Rightarrow> 't pt_files \<Rightarrow> 't pt_files result" where
  "standard config ags ds files =
     generate (get_standard_generator config) (cfg_surfaces config) (cfg_dataset_path config) ags ds files"

definition besel ::
  "cli_config \<Rightarrow> int \<times> int \<Rightarrow> (real option list \<Rightarrow> nat list) \<Rightarrow> draws \<Rightarrow> 't pt_files \<Rightarrow>
   't pt_files result" where
  "besel config betas ags ds files =
     generate (get_besel_generator config betas) (cfg_surfaces config) (cfg_dataset_path config) ags ds files"

text \<open>The configuration the spec calls valid: a positive grid size, a non-negative
  rms and non-zero correlation lengths.\<close>

definition config_ok :: "cli_config \<Rightarrow> bool" where
  "config_ok c \<longleftrightarrow> 0 < cfg_number_of_points c \<and> 0 \<le> cfg_rms c \<and>
     fst (cfg_correlation_lengths c) \<noteq> 0 \<and> snd (cfg_correlation_lengths c) \<noteq> 0"

subsection \<open>The command line\<close>

text \<open>Click's parser for one command: a token that starts with \<open>-\<close> names an
  option, which takes the next \<open>nargs\<close> tokens as its value whatever they are; an
  unknown flag or a missing value is a usage error; a later occurrence of an option
  replaces an earlier one; the first token that is not an option ends the options
  (a group does not intersperse arguments) and is returned with the rest.\<close>

function parse_opts ::
  "(string \<Rightarrow> string option) \<Rightarrow> (string \<Rightarrow> nat) \<Rightarrow> string list \<Rightarrow> (string \<Rightarrow> string list option) \<Rightarrow>
   ((string \<Rightarrow> string list option) \<times> string list) result" where
  "parse_opts dest nargs [] m = Inr (m, [])"
| "parse_opts dest nargs (t # ts) m =
     (if t \<noteq> [] \<and> hd t = CHR ''-'' then
        (case dest t of
           None \<Rightarrow> Inl UsageError
         | Some d \<Rightarrow>
             if length ts < nargs d then Inl UsageError
             else parse_opts dest nargs (drop (nargs d) ts) (m(d \<mapsto> take (nargs d) ts)))
      else Inr (m, t # ts))"
  by pat_completeness auto
termination
  by (relation "measure (\<lambda>(dest, nargs, ts, m). length ts)") auto

text \<open>\<open>click.INT\<close>: \<open>int(text)\<close>, an optional sign and decimal digits.\<close>

definition digit_val :: "char \<Rightarrow> nat option" where
  "digit_val c = (if c \<in> set ''0123456789'' then Some (of_char c - of_char CHR ''0'') else None)"

fun digits_val :: "nat \<Rightarrow> string \<Rightarrow> nat option" where
  "digits_val acc [] = Some acc"
| "digits_val acc (c # cs) =
     (case digit_val c of None \<Rightarrow> None | Some v \<Rightarrow> digits_val (10 * acc + v) cs)"

definition py_int :: "string \<Rightarrow> int option" where
  "py_int s =
     (case s of
        [] \<Rightarrow> None
      | c # cs \<Rightarrow>
          if c = CHR ''-'' \<or> c = CHR ''+'' then
            (if cs = [] then None
             else map_option (\<lambda>n. if c = CHR ''-'' then - int n else int n) (digits_val 0 cs))
          else map_option int (digits_val 0 s))"

text \<open>The value of an \<open>INT\<close> option, its default when absent.\<close>

definition int_param :: "(string \<Rightarrow> string list option) \<Rightarrow> string \<Rightarrow> int \<Rightarrow> int result" where
  "int_param m d dflt =
     (case m d of
        Some [s] \<Rightarrow> (case py_int s of None \<Rightarrow> Inl UsageError | Some n \<Rightarrow> Inr n)
      | _ \<Rightarrow> Inr dflt)"

text \<open>The value of an \<open>(int, int)\<close> option.\<close>

definition pair_param :: "(string \<Rightarrow> string list option) \<Rightarrow> string \<Rightarrow> int \<times> int \<Rightarrow> (int \<times> int) result" where
  "pair_param m d dflt =
     (case m d of
        Some [s, t] \<Rightarrow>
          (case (py_int s, py_int t) of (Some a, Some b) \<Rightarrow> Inr (a, b) | _ \<Rightarrow> Inl UsageError)
      | _ \<Rightarrow> Inr dflt)"

text \<open>\<open>click.Choice(levels, case_sensitive=False)\<close> of the \<open>--log\<close> option.\<close>

definition log_levels :: "string list" where
  "log_levels = [''CRITICAL'', ''FATAL'', ''ERROR'', ''WARNING'', ''WARN'', ''INFO'', ''DEBUG'', ''NOTSET'']"

definition ascii_upper :: "char \<Rightarrow> char" where
  "ascii_upper c =
     (if c \<in> set ''abcdefghijklmnopqrstuvwxyz'' then char_of (of_char c - 32 :: nat) else c)"

definition choice_param :: "(string \<Rightarrow> string list option) \<Rightarrow> string result" where
  "choice_param m =
     (case m ''logging_level'' of
        Some [s] \<Rightarrow> if map ascii_upper s \<in> set log_levels then Inr (map ascii_upper s) else Inl UsageError
      | _ \<Rightarrow> Inr ''NOTSET'')"

text \<open>Lines 50--168: the group's options parsed, converted and passed to the callback
  \<open>dataset\<close>; \<open>--dataset\<close> is required.  The tokens after the options are returned.\<close>

definition dataset_group :: "string list \<Rightarrow> (cli_config \<times> string list) result" where
  "dataset_group argv =
     (case parse_opts option_dest (\<lambda>d. if d = ''correlation_lengths'' then 2 else 1) argv Map.empty of
        Inl e \<Rightarrow> Inl e
      | Inr (m, rest) \<Rightarrow>
          (case (int_param m ''surfaces'' 10, m ''dataset_path'', choice_param m,
                 int_param m ''number_of_points'' 128, int_param m ''rms'' 1, int_param m ''skewness'' 0,
                 int_param m ''kurtosis'' 0, pair_param m ''correlation_lengths'' (4, 4),
                 int_param m ''alpha'' 1) of
             (Inr s, Some [p], Inr l, Inr n, Inr r, Inr sk, Inr k, Inr c, Inr a) \<Rightarrow>
               Inr (dataset_cmd s p l n r sk k c a, rest)
           | _ \<Rightarrow> Inl UsageError))"

text \<open>Lines 187--197: the \<open>-b\<close>/\<open>--betas\<close> option of \<open>besel\<close>; a subcommand takes no
  positional argument.\<close>

definition besel_args :: "string list \<Rightarrow> (int \<times> int) result" where
  "besel_args args =
     (case parse_opts ([''-b'' \<mapsto> ''betas'', ''--betas'' \<mapsto> ''betas'']) (\<lambda>d. 2) args Map.empty of
        Inr (m, []) \<Rightarrow> pair_param m ''betas'' (1, 1)
      | _ \<Rightarrow> Inl UsageError)"

text \<open>Lines 205--206: \<open>dataset()\<close> on the command line \<open>argv\<close>.  With no argument at all
  click prints the help and writes nothing; otherwise the group's options, then the
  subcommand and its arguments.\<close>

definition cli_main ::
  "string list \<Rightarrow> (real option list \<Rightarrow> nat list) \<Rightarrow> draws \<Rightarrow> 't pt_files \<Rightarrow> 't pt_files result" where
  "cli_main argv ags ds files =
     (if argv = [] then Inr files
      else case dataset_group argv of
             Inl e \<Rightarrow> Inl e
           | Inr (config, []) \<Rightarrow> Inl UsageError
           | Inr (config, cmd # args) \<Rightarrow>
               if cmd = ''standard'' then (if args = [] then standard config ags ds files else Inl UsageError)
               else if cmd = ''besel'' then
                 (case besel_args args of Inl e \<Rightarrow> Inl e | Inr b \<Rightarrow> besel config b ags ds files)
               else Inl UsageError)"

section \<open>Lemmas\<close>

lemma option_dest_eq:
  "option_dest = Map.empty(''-s'' \<mapsto> ''surfaces'', ''--surfaces'' \<mapsto> ''surfaces'',
     ''-d'' \<mapsto> ''dataset_path'', ''--dataset'' \<mapsto> ''dataset_path'',
     ''-l'' \<mapsto> ''logging_level'', ''--log'' \<mapsto> ''logging_level'',
     ''-n'' \<mapsto> ''number_of_points'', ''--number-of-points'' \<mapsto> ''number_of_points'',
     ''-r'' \<mapsto> ''rms'', ''--rms'' \<mapsto> ''rms'',
     ''-s'' \<mapsto> ''skewness'', ''--skewness'' \<mapsto> ''skewness'',
     ''-k'' \<mapsto> ''kurtosis'', ''--kurtosis'' \<mapsto> ''kurtosis'',
     ''-c'' \<mapsto> ''correlation_lengths'', ''--correlation-lengths'' \<mapsto> ''correlation_lengths'',
     ''-a'' \<mapsto> ''alpha'', ''--alpha'' \<mapsto> ''alpha'')"
  by (simp add: option_dest_def dataset_options_def)

text \<open>C35: The group declares \<open>-s\<close> for both \<open>--surfaces\<close> and \<open>--skewness\<close>; click keeps the later one, so \<open>dataset -d p -s N standard\<close> generates the default 10 surfaces with skewness \<open>N\<close>, the number of surfaces can only be given as \<open>--surfaces\<close>, and without the required \<open>--dataset\<close> the command line is refused.\<close>

theorem cli_short_s_skewness:
  assumes k: "py_int s = Some k"
  shows "cli_main [''-d'', p, ''-s'', s, ''standard''] ags ds files =
           standard (dataset_cmd 10 p ''NOTSET'' 128 1 k 0 (4, 4) 1) ags ds files \<and>
         cli_main [''-s'', s, ''standard''] ags ds files = Inl UsageError \<and>
         {f. option_dest f = Some ''surfaces''} = {''--surfaces''}"
  using k
  by (auto simp: cli_main_def dataset_group_def option_dest_eq int_param_def pair_param_def
      choice_param_def)


lemma standard_generator_ok:
  "config_ok c \<Longrightarrow> 0 < n_points (get_standard_generator c) \<and>
     acf_divisors_ok (get_standard_generator c) \<and> 0 \<le> rms (get_standard_generator c)"
  by (simp add: config_ok_def get_standard_generator_def NonGaussianSurfaceGenerator_def sg_init_def
      acf_divisors_ok_def)

lemma besel_generator_ok:
  "config_ok c \<Longrightarrow> fst b \<noteq> 0 \<Longrightarrow> snd b \<noteq> 0 \<Longrightarrow> 0 < n_points (get_besel_generator c b) \<and>
     acf_divisors_ok (get_besel_generator c b) \<and> 0 \<le> rms (get_besel_generator c b)"
  by (simp add: config_ok_def get_besel_generator_def BesselNonGaussianSurfaceGenerator_def sg_init_def
      acf_divisors_ok_def)

lemma tqdm_len_call: "tqdm_len (sg_call g (Some s)) = (if s < 0 then Inl ValueError else Inr (Some (nat s)))"
  by (simp add: tqdm_len_def sg_len_def sg_call_def)

lemma sg_length_sg_call: "sg_length (sg_call g l) = l"
  by (simp add: sg_call_def)

lemma generate_negative: "s < 0 \<Longrightarrow> generate g s p ags ds files = Inl ValueError"
  by (simp add: generate_def tqdm_len_call)

lemma generate_count:
  assumes "0 < n_points g" "acf_divisors_ok g" "0 \<le> rms g" "draws_ok g ds"
    "\<forall>v. argsort_nan_spec v (ags v)" and s: "0 \<le> s"
  shows "\<exists>Ss. generate g s p ags ds files = Inr (to_pt (from_list Ss []) p files) \<and> length Ss = nat s \<and>
           (\<forall>S \<in> set Ss. square (nat (n_points g)) S)"
proof -
  obtain F where F: "\<forall>k. generate_surface g (fst (ds k)) (snd (ds k)) ags = Inr (F k) \<and>
      square (nat (n_points g)) (F k)"
    using surface_draws [OF assms(1-5)] by blast
  then have "py_list (sg_call g (Some s)) ags ds Created = Inr (map F [0..<nat s])"
    by (intro py_list_call) simp
  then show ?thesis
    using F s by (intro exI [of _ "map F [0..<nat s]"]) (auto simp: generate_def tqdm_len_call simp del: py_list.simps)
qed

text \<open>C33: On a valid configuration with \<open>surfaces \<ge> 0\<close>, \<open>standard\<close> and, with non-zero betas, \<open>besel\<close> write to the \<open>--dataset\<close> path a dataset of exactly \<open>surfaces\<close> surfaces; with \<open>surfaces < 0\<close> both raise ValueError from tqdm's \<open>len\<close> and write nothing.\<close>

theorem cli_generate_count:
  assumes c: "config_ok c" and ags: "\<forall>v. argsort_nan_spec v (ags v)"
  shows "(0 \<le> cfg_surfaces c \<and> draws_ok (get_standard_generator c) ds \<longrightarrow>
           (\<exists>Ss. standard c ags ds files = Inr (to_pt (from_list Ss []) (cfg_dataset_path c) files) \<and>
              length Ss = nat (cfg_surfaces c))) \<and>
         (0 \<le> cfg_surfaces c \<and> fst b \<noteq> 0 \<and> snd b \<noteq> 0 \<and> draws_ok (get_besel_generator c b) ds \<longrightarrow>
           (\<exists>Ss. besel c b ags ds files = Inr (to_pt (from_list Ss []) (cfg_dataset_path c) files) \<and>
              length Ss = nat (cfg_surfaces c))) \<and>
         (cfg_surfaces c < 0 \<longrightarrow> standard c ags ds files = Inl ValueError \<and> besel c b ags ds files = Inl ValueError)"
proof (intro conjI impI)
  assume "0 \<le> cfg_surfaces c \<and> draws_ok (get_standard_generator c) ds"
  then show "\<exists>Ss. standard c ags ds files = Inr (to_pt (from_list Ss []) (cfg_dataset_path c) files) \<and>
      length Ss = nat (cfg_surfaces c)"
    using standard_generator_ok [OF c] generate_count ags unfolding standard_def by blast
next
  assume "0 \<le> cfg_surfaces c \<and> fst b \<noteq> 0 \<and> snd b \<noteq> 0 \<and> draws_ok (get_besel_generator c b) ds"
  then show "\<exists>Ss. besel c b ags ds files = Inr (to_pt (from_list Ss []) (cfg_dataset_path c) files) \<and>
      length Ss = nat (cfg_surfaces c)"
    using besel_generator_ok [OF c] generate_count ags unfolding besel_def by blast
next
  assume "cfg_surfaces c < 0"
  then show "standard c ags ds files = Inl ValueError" "besel c b ags ds files = Inl ValueError"
    by (simp_all add: standard_def besel_def generate_negative)
qed

lemma generate_surface_lag_error:
  "lag_grid g = Inl e \<Longrightarrow> generate_surface g X Z ags = Inl e"
  by (simp add: generate_surface_def)

text \<open>C34: A zero first correlation length is accepted on the command line: \<open>standard\<close> raises ZeroDivisionError only when the first surface is generated, writing nothing, writes an empty dataset when no surface is requested, and raises ValueError from tqdm's \<open>len\<close> on a negative count.\<close>

theorem cli_zero_corlength:
  assumes n: "0 < cfg_number_of_points c" and z: "fst (cfg_correlation_lengths c) = 0"
  shows "standard c ags ds files =
           (if 0 < cfg_surfaces c then Inl ZeroDivisionError
            else if cfg_surfaces c = 0 then Inr (to_pt (from_list [] []) (cfg_dataset_path c) files)
            else Inl ValueError)"
proof -
  let ?g = "get_standard_generator c"
  have "lag_grid ?g = Inl ZeroDivisionError"
    using n z by (intro lag_grid_bad_divisor)
      (simp_all add: get_standard_generator_def NonGaussianSurfaceGenerator_def sg_init_def
        acf_divisors_ok_def)
  then have "generate_surface (sg_call ?g (Some (cfg_surfaces c))) X Z ags = Inl ZeroDivisionError"
    for X Z by (simp add: sg_call_def generate_surface_lag_error)
  then show ?thesis
    by (simp add: standard_def generate_def tqdm_len_call py_list.simps [of _ _ _ Created] loop_step_def
        sg_length_sg_call)
qed

subsection \<open>Witnesses\<close>

lemma small_config:
  "config_ok (dataset_cmd 2 ''d.pt'' ''NOTSET'' 1 1 0 0 (4, 4) 1)"
  "draws_ok (get_standard_generator (dataset_cmd 2 ''d.pt'' ''NOTSET'' 1 1 0 0 (4, 4) 1)) (\<lambda>k. ([[5]], [[7]]))"
  "draws_ok (get_besel_generator (dataset_cmd 2 ''d.pt'' ''NOTSET'' 1 1 0 0 (4, 4) 1) (1, 1)) (\<lambda>k. ([[5]], [[7]]))"
  by (simp_all add: config_ok_def dataset_cmd_def draws_ok_def get_standard_generator_def
      get_besel_generator_def NonGaussianSurfaceGenerator_def BesselNonGaussianSurfaceGenerator_def
      sg_init_def square_def)

theorem cli_generate_count_witness:
  "config_ok (dataset_cmd 2 ''d.pt'' ''NOTSET'' 1 1 0 0 (4, 4) 1) \<and>
   (\<forall>v. argsort_nan_spec v (np_argsort_nan v)) \<and>
   (\<exists>Ss. standard (dataset_cmd 2 ''d.pt'' ''NOTSET'' 1 1 0 0 (4, 4) 1) np_argsort_nan
          (\<lambda>k. ([[5]], [[7]])) (Map.empty :: nat pt_files) = Inr (to_pt (from_list Ss []) ''d.pt'' Map.empty) \<and>
        length Ss = 2) \<and>
   (\<exists>Ss. besel (dataset_cmd 2 ''d.pt'' ''NOTSET'' 1 1 0 0 (4, 4) 1) (1, 1) np_argsort_nan
          (\<lambda>k. ([[5]], [[7]])) (Map.empty :: nat pt_files) = Inr (to_pt (from_list Ss []) ''d.pt'' Map.empty) \<and>
        length Ss = 2)"
proof -
  have "(\<exists>Ss. standard (dataset_cmd 2 ''d.pt'' ''NOTSET'' 1 1 0 0 (4, 4) 1) np_argsort_nan
          (\<lambda>k. ([[5]], [[7]])) (Map.empty :: nat pt_files) =
          Inr (to_pt (from_list Ss []) (cfg_dataset_path (dataset_cmd 2 ''d.pt'' ''NOTSET'' 1 1 0 0 (4, 4) 1))
            Map.empty) \<and>
          length Ss = nat (cfg_surfaces (dataset_cmd 2 ''d.pt'' ''NOTSET'' 1 1 0 0 (4, 4) 1))) \<and>
        (\<exists>Ss. besel (dataset_cmd 2 ''d.pt'' ''NOTSET'' 1 1 0 0 (4, 4) 1) (1, 1) np_argsort_nan
          (\<lambda>k. ([[5]], [[7]])) (Map.empty :: nat pt_files) =
          Inr (to_pt (from_list Ss []) (cfg_dataset_path (dataset_cmd 2 ''d.pt'' ''NOTSET'' 1 1 0 0 (4, 4) 1))
            Map.empty) \<and>
          length Ss = nat (cfg_surfaces (dataset_cmd 2 ''d.pt'' ''NOTSET'' 1 1 0 0 (4, 4) 1)))"
    using cli_generate_count [OF small_config(1) np_argsort_nan_all, of "\<lambda>k. ([[5]], [[7]])" Map.empty "(1, 1)"]
      small_config(2,3) by (simp add: dataset_cmd_def)
  then show ?thesis
    using small_config(1) np_argsort_nan_all by (simp add: dataset_cmd_def)
qed

theorem cli_zero_corlength_witness:
  "0 < cfg_number_of_points (dataset_cmd 3 ''d.pt'' ''NOTSET'' 8 1 0 0 (0, 4) 1) \<and>
   fst (cfg_correlation_lengths (dataset_cmd 3 ''d.pt'' ''NOTSET'' 8 1 0 0 (0, 4) 1)) = 0 \<and>
   standard (dataset_cmd 3 ''d.pt'' ''NOTSET'' 8 1 0 0 (0, 4) 1) np_argsort_nan
     (\<lambda>k. ([[5]], [[7]])) (Map.empty :: nat pt_files) = Inl ZeroDivisionError"
proof -
  have h: "0 < cfg_number_of_points (dataset_cmd 3 ''d.pt'' ''NOTSET'' 8 1 0 0 (0, 4) 1)"
    "fst (cfg_correlation_lengths (dataset_cmd 3 ''d.pt'' ''NOTSET'' 8 1 0 0 (0, 4) 1)) = 0"
    by (simp_all add: dataset_cmd_def)
  show ?thesis
    using h cli_zero_corlength [OF h, of np_argsort_nan "\<lambda>k. ([[5]], [[7]])" "Map.empty :: nat pt_files"]
    by (simp add: dataset_cmd_def)
qed

theorem cli_short_s_skewness_witness:
  "py_int ''5'' = Some 5 \<and>
   cli_main [''-d'', ''out.pt'', ''-s'', ''5'', ''standard''] np_argsort_nan (\<lambda>k. ([[5]], [[7]]))
     (Map.empty :: nat pt_files) =
   standard (dataset_cmd 10 ''out.pt'' ''NOTSET'' 128 1 5 0 (4, 4) 1) np_argsort_nan (\<lambda>k. ([[5]], [[7]]))
     Map.empty"
proof -
  have h: "py_int ''5'' = Some 5" by (simp add: py_int_def digit_val_def)
  show ?thesis using h cli_short_s_skewness [OF h] by blast
qed

end
