(* ===== verification/Quantizer.thy ===== *)
theory Quantizer
  imports Prelude
begin

text \<open>
  \<open>KBinsDiscretizerQuantizer\<close> of src/src/roughgan/content/quantization.py (lines 21--34):
  the surfaces, an array of shape \<open>(m, a, b)\<close>, are flattened to \<open>m\<close> rows of
  \<open>a * b\<close> features, scikit-learn's \<open>KBinsDiscretizer\<close> is fitted on them and transforms
  them, and the result is reshaped back; calling the quantizer transforms one
  \<open>a \<times> b\<close> tensor with the fitted discretizer.

  The discretizer is modelled from scikit-learn's source for the strategies
  \<open>uniform\<close> and \<open>quantile\<close> (the default): a fitted column is its list of inner bin
  edges, \<open>bin_edges[1:-1]\<close>, and a value is transformed to
  \<open>np.searchsorted(inner, x, side="right")\<close>, the number of inner edges \<open>\<le> x\<close>.  A
  constant column gets the edges \<open>[-inf, inf]\<close>, that is no inner edge.  The
  \<open>kmeans\<close> strategy runs scikit-learn's one-dimensional k-means; it is a parameter
  of the model, of which the lemmas assume what the other two strategies are proved
  to satisfy.  \<open>__str__\<close> (lines 36--37) prints the estimator as scikit-learn's
  \<open>repr\<close> does, with the parameters that differ from its defaults, and the shape.
\<close>

section \<open>Definitions\<close>

subsection \<open>Parameters\<close>

datatype kbd_encode = Ordinal | OneHot | OneHotDense

datatype kbd_strategy = Uniform | Quantile | KMeans

text \<open>The keyword arguments the quantizer passes on; \<open>None\<close> is an absent key.\<close>

record kbd_kwargs =
  kw_n_bins :: "int option"
  kw_encode :: "kbd_encode option"
  kw_strategy :: "kbd_strategy option"

text \<open>Lines 23--26: \<open>encode\<close> defaults to \<open>"ordinal"\<close> here, the other parameters to
  scikit-learn's defaults \<open>n_bins=5\<close>, \<open>strategy="quantile"\<close>.\<close>

record kbd_params =
  kb_n_bins :: int
  kb_encode :: kbd_encode
  kb_strategy :: kbd_strategy

definition quantizer_params :: "kbd_kwargs \<Rightarrow> kbd_params" where
  "quantizer_params kw =
     \<lparr>kb_n_bins = (case kw_n_bins kw of None \<Rightarrow> 5 | Some k \<Rightarrow> k),
      kb_encode = (case kw_encode kw of None \<Rightarrow> Ordinal | Some e \<Rightarrow> e),
      kb_strategy = (case kw_strategy kw of None \<Rightarrow> Quantile | Some s \<Rightarrow> s)\<rparr>"

subsection \<open>Fitting one column\<close>

text \<open>\<open>np.linspace(col_min, col_max, n_bins + 1)[1:-1]\<close>.\<close>

definition uniform_inner :: "nat \<Rightarrow> real list \<Rightarrow> real list" where
  "uniform_inner nb col =
     (let lo = Min (set col); hi = Max (set col) in
      if lo = hi then [] else map (\<lambda>k. lo + (hi - lo) * real k / real nb) [1..<nb])"

text \<open>numpy's linear interpolation of sorted values \<open>s\<close> at the virtual index \<open>h\<close>:
  between \<open>s[floor h]\<close> and the next value, the last one at the end.\<close>

definition interp :: "real list \<Rightarrow> real \<Rightarrow> real" where
  "interp s h = s ! nat \<lfloor>h\<rfloor> + (h - real (nat \<lfloor>h\<rfloor>)) *
     (s ! min (Suc (nat \<lfloor>h\<rfloor>)) (length s - 1) - s ! nat \<lfloor>h\<rfloor>)"

text \<open>\<open>np.percentile(col, q)\<close>, method \<open>linear\<close>: the virtual index \<open>(N - 1) q / 100\<close>.\<close>

definition percentile :: "real list \<Rightarrow> real \<Rightarrow> real" where
  "percentile col q = interp (sort col) (real (length col - 1) * q / 100)"

text \<open>\<open>mask = np.ediff1d(edges, to_begin=np.inf) > 1e-8; edges = edges[mask]\<close>: the
  first edge is kept, every other one when it exceeds its predecessor in the
  original list by more than \<open>1e-8\<close>.\<close>

fun keep_edges :: "real list \<Rightarrow> real list" where
  "keep_edges [] = []"
| "keep_edges [x] = [x]"
| "keep_edges (x # y # zs) =
     x # (if y - x > 1 / 10 ^ 8 then keep_edges (y # zs) else tl (keep_edges (y # zs)))"

text \<open>The quantile strategy: edges at \<open>np.linspace(0, 100, n_bins + 1)\<close>, the narrow bins
  removed, and the inner edges kept.\<close>

definition quantile_inner :: "nat \<Rightarrow> real list \<Rightarrow> real list" where
  "quantile_inner nb col =
     (if Min (set col) = Max (set col) then []
      else butlast (tl (keep_edges (map (\<lambda>k. percentile col (100 * real k / real nb)) [0..<Suc nb]))))"

text \<open>The fit of one column for a strategy, \<open>kmeans\<close> given as a parameter.\<close>

definition fit_column ::
  "(nat \<Rightarrow> real list \<Rightarrow> real list) \<Rightarrow> kbd_strategy \<Rightarrow> nat \<Rightarrow> real list \<Rightarrow> real list" where
  "fit_column kmeans strategy nb col =
     (case strategy of
        Uniform \<Rightarrow> uniform_inner nb col
      | Quantile \<Rightarrow> quantile_inner nb col
      | KMeans \<Rightarrow> kmeans nb col)"

subsection \<open>Transforming\<close>

text \<open>\<open>np.searchsorted(inner, x, side="right")\<close> on sorted inner edges.\<close>

definition bin_index :: "real list \<Rightarrow> real \<Rightarrow> nat" where
  "bin_index inner x = length (filter (\<lambda>e. e \<le> x) inner)"

text \<open>One row of features with the fitted columns, as float64 ordinals.\<close>

definition transform_row :: "real list list \<Rightarrow> real list \<Rightarrow> real list" where
  "transform_row edges row = map2 (\<lambda>inner x. real (bin_index inner x)) edges row"

text \<open>\<open>row.reshape(a, b)\<close> in row-major order.\<close>

definition unflatten :: "nat \<Rightarrow> nat \<Rightarrow> 'a list \<Rightarrow> 'a list list" where
  "unflatten a b row = map (\<lambda>i. take b (drop (i * b) row)) [0..<a]"

text \<open>Column \<open>j\<close> of the rows.\<close>

definition column :: "real list list \<Rightarrow> nat \<Rightarrow> real list" where
  "column X j = map (\<lambda>row. row ! j) X"

subsection \<open>The quantizer\<close>

text \<open>A numpy array of shape \<open>(a, b)\<close> and of shape \<open>(m, a, b)\<close>.\<close>

definition matrix :: "nat \<Rightarrow> nat \<Rightarrow> real list list \<Rightarrow> bool" where
  "matrix a b s \<longleftrightarrow> length s = a \<and> (\<forall>r \<in> set s. length r = b)"

definition cube :: "nat \<Rightarrow> nat \<Rightarrow> real list list list \<Rightarrow> bool" where
  "cube a b S \<longleftrightarrow> (\<forall>s \<in> set S. matrix a b s)"

text \<open>The quantizer object: the fitted columns and encoding of \<open>underlying\<close>,
  \<open>original_shape\<close> and \<open>surfaces\<close>.\<close>

record quantizer =
  q_edges :: "real list list"
  q_encode :: kbd_encode
  q_shape :: "nat \<times> nat"
  q_surfaces :: "real list list list"

text \<open>Lines 22--31.  \<open>surfaces\<close> defaults to None, on which \<open>.shape\<close> raises
  AttributeError.  \<open>fit\<close> raises ValueError when \<open>n_bins < 2\<close> or the data has no row
  or no feature.  With a one-hot encoding the transformed array has one column per
  bin: scipy's sparse matrix refuses a three-dimensional \<open>reshape\<close>, and the dense one
  can be reshaped to \<open>(m, a, b)\<close> only when every column has a single bin, whose
  one-hot value is 1.\<close>

definition quantizer_init ::
  "(nat \<Rightarrow> real list \<Rightarrow> real list) \<Rightarrow> kbd_kwargs \<Rightarrow> (nat \<times> nat \<times> real list list list) option \<Rightarrow>
   quantizer result" where
  "quantizer_init kmeans kw surfaces =
     (case surfaces of
        None \<Rightarrow> Inl AttributeError
      | Some (a, b, S) \<Rightarrow>
          (let p = quantizer_params kw; X = map concat S in
           if kb_n_bins p < 2 \<or> S = [] \<or> a * b = 0 then Inl ValueError
           else
             (let edges = map (\<lambda>j. fit_column kmeans (kb_strategy p) (nat (kb_n_bins p)) (column X j))
                            [0..<a * b]
              in case kb_encode p of
                   Ordinal \<Rightarrow>
                     Inr \<lparr>q_edges = edges, q_encode = Ordinal, q_shape = (a, b),
                          q_surfaces = map (\<lambda>row. unflatten a b (transform_row edges row)) X\<rparr>
                 | OneHot \<Rightarrow> Inl ValueError
                 | OneHotDense \<Rightarrow>
                     if list_all (\<lambda>inner. inner = []) edges
                     then Inr \<lparr>q_edges = edges, q_encode = OneHotDense, q_shape = (a, b),
                               q_surfaces = map (\<lambda>row. unflatten a b (map (\<lambda>x. 1) row)) X\<rparr>
                     else Inl ValueError)))"

text \<open>Lines 33--34: \<open>transform(tensor.reshape(1, -1)).reshape(*original_shape)\<close>;
  the discretizer raises ValueError on a row with another number of features, and
  the one-hot output fits \<open>original_shape\<close> only when every column has one bin.\<close>

definition quantizer_call :: "quantizer \<Rightarrow> real list list \<Rightarrow> real list list result" where
  "quantizer_call q tensor =
     (let row = concat tensor; (a, b) = q_shape q in
      if length row \<noteq> length (q_edges q) then Inl ValueError
      else case q_encode q of
             Ordinal \<Rightarrow> Inr (unflatten a b (transform_row (q_edges q) row))
           | OneHot \<Rightarrow> Inl ValueError
           | OneHotDense \<Rightarrow>
               if list_all (\<lambda>inner. inner = []) (q_edges q)
               then Inr (unflatten a b (map (\<lambda>x. 1) row)) else Inl ValueError)"

subsection \<open>Printing\<close>

text \<open>Python's \<open>str\<close> of a non-negative int.\<close>

fun nat_str :: "nat \<Rightarrow> string" where
  "nat_str n = (if n < 10 then [''0123456789'' ! n] else nat_str (n div 10) @ [''0123456789'' ! (n mod 10)])"

definition int_str :: "int \<Rightarrow> string" where
  "int_str i = (if i < 0 then CHR ''-'' # nat_str (nat (- i)) else nat_str (nat i))"

definition py_quote :: "string \<Rightarrow> string" where
  "py_quote s = CHR 0x27 # s @ [CHR 0x27]"

definition encode_name :: "kbd_encode \<Rightarrow> string" where
  "encode_name e = (case e of Ordinal \<Rightarrow> ''ordinal'' | OneHot \<Rightarrow> ''onehot'' | OneHotDense \<Rightarrow> ''onehot-dense'')"

definition strategy_name :: "kbd_strategy \<Rightarrow> string" where
  "strategy_name s = (case s of Uniform \<Rightarrow> ''uniform'' | Quantile \<Rightarrow> ''quantile'' | KMeans \<Rightarrow> ''kmeans'')"

text \<open>\<open>sep.join(xs)\<close>.\<close>

fun py_join :: "string \<Rightarrow> string list \<Rightarrow> string" where
  "py_join sep [] = []"
| "py_join sep [x] = x"
| "py_join sep (x # y # zs) = x @ sep @ py_join sep (y # zs)"

text \<open>scikit-learn's \<open>repr\<close> of \<open>KBinsDiscretizer(**kwargs)\<close>: the parameters that differ
  from the estimator's own defaults (\<open>n_bins=5\<close>, \<open>encode='onehot'\<close>,
  \<open>strategy='quantile'\<close>), in the order of its signature.\<close>

definition kbd_repr :: "kbd_kwargs \<Rightarrow> string" where
  "kbd_repr kw =
     (let p = quantizer_params kw;
          args = (if kb_n_bins p = 5 then [] else [''n_bins='' @ int_str (kb_n_bins p)]) @
                 (if kb_encode p = OneHot then [] else [''encode='' @ py_quote (encode_name (kb_encode p))]) @
                 (if kb_strategy p = Quantile then [] else [''strategy='' @ py_quote (strategy_name (kb_strategy p))])
      in ''KBinsDiscretizer('' @ py_join '', '' args @ '')'')"

text \<open>Lines 36--37: \<open>str({"underlying": self.underlying, "shape": self.surfaces.shape})\<close>
  of a quantizer built with the keywords \<open>kw\<close>; the shape is \<open>(m, a, b)\<close>.\<close>

definition quantizer_str :: "kbd_kwargs \<Rightarrow> quantizer \<Rightarrow> string" where
  "quantizer_str kw q =
     ''{'' @ py_quote ''underlying'' @ '': '' @ kbd_repr kw @ '', '' @ py_quote ''shape'' @ '': ('' @
     py_join '', '' (map nat_str [length (q_surfaces q), fst (q_shape q), snd (q_shape q)]) @ '')}''"

declare nat_str.simps [simp del]

subsection \<open>Contracts\<close>

text \<open>The \<open>kmeans\<close> fit is assumed to give what the other strategies are proved to give:
  sorted inner edges, at most \<open>n_bins - 1\<close> of them.\<close>

definition kmeans_ok :: "(nat \<Rightarrow> real list \<Rightarrow> real list) \<Rightarrow> bool" where
  "kmeans_ok kmeans \<longleftrightarrow>
     (\<forall>nb col. col \<noteq> [] \<longrightarrow> sorted (kmeans nb col) \<and> length (kmeans nb col) \<le> nb - 1)"

text \<open>What a bin means: value \<open>x\<close> falls in bin \<open>k\<close> of a column with inner edges
  \<open>e\<^sub>1 \<le> \<dots> \<le> e\<^sub>K\<close> when \<open>e\<^sub>k \<le> x < e\<^sub>k\<^sub>+\<^sub>1\<close>, with \<open>e\<^sub>0 = -\<infinity>\<close> and \<open>e\<^sub>K\<^sub>+\<^sub>1 = \<infinity>\<close>.\<close>

definition in_bin :: "real list \<Rightarrow> real \<Rightarrow> nat \<Rightarrow> bool" where
  "in_bin inner x k \<longleftrightarrow>
     k \<le> length inner \<and> (k = 0 \<or> inner ! (k - 1) \<le> x) \<and> (k = length inner \<or> x < inner ! k)"

section \<open>Lemmas\<close>

lemma bin_index_le: "bin_index inner x \<le> length inner"
  by (simp add: bin_index_def)

lemma bin_index_mono: "x \<le> y \<Longrightarrow> bin_index inner x \<le> bin_index inner y"
  unfolding bin_index_def by (induction inner) auto

lemma sorted_filter_le_take:
  assumes s: "sorted xs" and k: "in_bin xs x k"
  shows "filter (\<lambda>e. e \<le> x) xs = take k xs"
proof -
  have kl: "k \<le> length xs" using k by (simp add: in_bin_def)
  have lo: "\<forall>e \<in> set (take k xs). e \<le> x"
  proof
    fix e assume "e \<in> set (take k xs)"
    then obtain i where i: "i < k" "e = xs ! i" using kl by (auto simp: in_set_conv_nth)
    then have "xs ! i \<le> xs ! (k - 1)" using s kl by (intro sorted_nth_mono) auto
    with i k show "e \<le> x" by (auto simp: in_bin_def)
  qed
  have hi: "\<forall>e \<in> set (drop k xs). \<not> e \<le> x"
  proof
    fix e assume "e \<in> set (drop k xs)"
    then obtain j where "j < length xs - k" "e = xs ! (k + j)" by (auto simp: in_set_conv_nth)
    then obtain i where i: "k \<le> i" "i < length xs" "e = xs ! i" by (intro that [of "k + j"]) auto
    then have "xs ! k \<le> xs ! i" using s by (intro sorted_nth_mono) auto
    moreover have "x < xs ! k" using k i by (auto simp: in_bin_def)
    ultimately show "\<not> e \<le> x" using i by simp
  qed
  have "filter (\<lambda>e. e \<le> x) xs = filter (\<lambda>e. e \<le> x) (take k xs) @ filter (\<lambda>e. e \<le> x) (drop k xs)"
    by (metis append_take_drop_id filter_append)
  also have "\<dots> = take k xs" using lo hi by (simp add: filter_id_conv filter_False)
  finally show ?thesis .
qed

lemma in_bin_bin_index:
  assumes s: "sorted xs"
  shows "in_bin xs x (bin_index xs x)"
proof -
  let ?k = "length (takeWhile (\<lambda>e. e \<le> x) xs)"
  have tw: "takeWhile (\<lambda>e. e \<le> x) xs = filter (\<lambda>e. e \<le> x) xs"
  proof (rule takeWhile_eq_filter)
    fix e assume e: "e \<in> set (dropWhile (\<lambda>e. e \<le> x) xs)"
    show "\<not> e \<le> x"
    proof (cases "dropWhile (\<lambda>e. e \<le> x) xs")
      case Nil with e show ?thesis by simp
    next
      case (Cons d ds)
      have "\<not> d \<le> x" using Cons by (metis dropWhile_eq_Cons_conv)
      moreover have "sorted (d # ds)" using s Cons by (metis sorted_dropWhile)
      ultimately show ?thesis using e Cons by auto
    qed
  qed
  have "?k \<le> length xs" by (rule length_takeWhile_le)
  moreover have "?k = 0 \<or> xs ! (?k - 1) \<le> x"
  proof (cases "?k = 0")
    case False
    then have "?k - 1 < ?k" by simp
    then show ?thesis using nth_mem [of "?k - 1" "takeWhile (\<lambda>e. e \<le> x) xs"]
      set_takeWhileD takeWhile_nth by fastforce
  qed simp
  moreover have "?k = length xs \<or> x < xs ! ?k"
  proof (cases "?k = length xs")
    case False
    then have "?k < length xs" using length_takeWhile_le [of _ xs] le_neq_implies_less by blast
    then show ?thesis using nth_length_takeWhile [of "\<lambda>e. e \<le> x" xs] by simp
  qed simp
  ultimately show ?thesis
    by (simp add: in_bin_def bin_index_def tw [symmetric])
qed

text \<open>\<open>np.searchsorted(inner, x, side='right')\<close>, the ordinal the discretizer outputs, is the bin that contains \<open>x\<close>: on sorted inner edges, \<open>x\<close> lies in bin \<open>k\<close> exactly when \<open>k\<close> is the transformed value.\<close>

theorem bin_index_refines:
  "sorted inner \<Longrightarrow> in_bin inner x k \<longleftrightarrow> k = bin_index inner x"
proof
  assume s: "sorted inner" and k: "in_bin inner x k"
  then have "filter (\<lambda>e. e \<le> x) inner = take k inner" by (rule sorted_filter_le_take)
  then show "k = bin_index inner x"
    using k by (simp add: bin_index_def in_bin_def min_def)
next
  assume "sorted inner" "k = bin_index inner x"
  then show "in_bin inner x k" by (simp add: in_bin_bin_index)
qed

lemma interp_bounds:
  assumes s: "sorted xs" and h: "0 \<le> h" "h \<le> real (length xs - 1)" and ne: "xs \<noteq> []"
  shows "xs ! nat \<lfloor>h\<rfloor> \<le> interp xs h \<and>
         interp xs h \<le> xs ! min (Suc (nat \<lfloor>h\<rfloor>)) (length xs - 1)"
proof -
  let ?lo = "nat \<lfloor>h\<rfloor>" and ?hi = "min (Suc (nat \<lfloor>h\<rfloor>)) (length xs - 1)"
  have lo: "?lo \<le> length xs - 1" using h by linarith
  have hl: "?hi < length xs" using ne by (cases xs) auto
  have "?lo \<le> ?hi" using lo by simp
  then have d: "xs ! ?lo \<le> xs ! ?hi" using s hl by (intro sorted_nth_mono) auto
  have t: "0 \<le> h - real ?lo" "h - real ?lo \<le> 1" using h by linarith+
  have "0 \<le> (h - real ?lo) * (xs ! ?hi - xs ! ?lo)" using t d by simp
  moreover have "(h - real ?lo) * (xs ! ?hi - xs ! ?lo) \<le> 1 * (xs ! ?hi - xs ! ?lo)"
    using t d by (intro mult_right_mono) auto
  ultimately show ?thesis by (simp add: interp_def)
qed

lemma interp_mono:
  assumes s: "sorted xs" and ne: "xs \<noteq> []"
    and h: "0 \<le> h" "h \<le> h'" "h' \<le> real (length xs - 1)"
  shows "interp xs h \<le> interp xs h'"
proof (cases "nat \<lfloor>h\<rfloor> = nat \<lfloor>h'\<rfloor>")
  case True
  let ?lo = "nat \<lfloor>h\<rfloor>" and ?hi = "min (Suc (nat \<lfloor>h\<rfloor>)) (length xs - 1)"
  have lo: "?lo \<le> length xs - 1" using h by linarith
  have hl: "?hi < length xs" using ne by (cases xs) auto
  have d: "xs ! ?lo \<le> xs ! ?hi" using s hl lo by (intro sorted_nth_mono) auto
  have "(h - real ?lo) * (xs ! ?hi - xs ! ?lo) \<le> (h' - real ?lo) * (xs ! ?hi - xs ! ?lo)"
    using h d by (intro mult_right_mono) auto
  then show ?thesis using True by (simp add: interp_def)
next
  case False
  then have lt: "nat \<lfloor>h\<rfloor> < nat \<lfloor>h'\<rfloor>" using h by (metis floor_mono le_less nat_mono)
  have "interp xs h \<le> xs ! min (Suc (nat \<lfloor>h\<rfloor>)) (length xs - 1)"
    using interp_bounds [OF s _ _ ne, of h] h by simp
  also have "\<dots> \<le> xs ! nat \<lfloor>h'\<rfloor>"
    using lt h s ne by (intro sorted_nth_mono) linarith+
  also have "\<dots> \<le> interp xs h'"
    using interp_bounds [OF s _ _ ne, of h'] h by simp
  finally show ?thesis .
qed

lemma percentile_mono:
  assumes ne: "col \<noteq> []" and q: "0 \<le> q" "q \<le> q'" "q' \<le> 100"
  shows "percentile col q \<le> percentile col q'"
proof -
  let ?N = "real (length col - 1)"
  have "0 \<le> ?N * q / 100" "?N * q / 100 \<le> ?N * q' / 100" "?N * q' / 100 \<le> ?N"
    using q by (simp_all add: divide_right_mono mult_left_mono)
  moreover have "sort col \<noteq> []" using ne by (metis length_0_conv length_sort)
  ultimately show ?thesis
    unfolding percentile_def by (intro interp_mono) simp_all
qed

lemma keep_edges_sorted:
  "sorted xs \<Longrightarrow> sorted (keep_edges xs) \<and> set (keep_edges xs) \<subseteq> set xs"
proof (induction xs rule: keep_edges.induct)
  case (3 x y zs)
  then have ih: "sorted (keep_edges (y # zs))" "set (keep_edges (y # zs)) \<subseteq> set (y # zs)" by auto
  have "set (tl (keep_edges (y # zs))) \<subseteq> set (keep_edges (y # zs))"
    by (cases "keep_edges (y # zs)") auto
  then show ?case
    using ih "3.prems" by (auto simp: sorted_tl)
qed auto

lemma length_keep_edges: "length (keep_edges xs) \<le> length xs"
  by (induction xs rule: keep_edges.induct) (auto simp: le_SucI)

lemma sorted_butlast_tl: "sorted xs \<Longrightarrow> sorted (butlast (tl xs))"
  by (simp add: butlast_conv_take sorted_tl sorted_wrt_take)

lemma sorted_map_mono_upt:
  "(\<And>i j. a \<le> i \<Longrightarrow> i \<le> j \<Longrightarrow> j < b \<Longrightarrow> f i \<le> (f j :: real)) \<Longrightarrow> sorted (map f [a..<b])"
  unfolding sorted_iff_nth_mono by simp

lemma quantile_inner_wf:
  assumes "col \<noteq> []"
  shows "sorted (quantile_inner nb col) \<and> length (quantile_inner nb col) \<le> nb - 1"
proof (cases "Min (set col) = Max (set col)")
  case False
  let ?ps = "map (\<lambda>k. percentile col (100 * real k / real nb)) [0..<Suc nb]"
  have "sorted ?ps"
  proof (cases "nb = 0")
    case False
    have "percentile col (100 * real i / real nb) \<le> percentile col (100 * real j / real nb)"
      if "i \<le> j" "j < Suc nb" for i j
      using assms that False by (intro percentile_mono) (simp_all add: divide_right_mono field_simps)
    then show ?thesis by (intro sorted_map_mono_upt) simp
  qed simp
  then have "sorted (butlast (tl (keep_edges ?ps)))"
    using keep_edges_sorted sorted_butlast_tl by blast
  moreover have "length (butlast (tl (keep_edges ?ps))) \<le> nb - 1"
    using length_keep_edges [of ?ps] by simp
  ultimately show ?thesis using False by (simp add: quantile_inner_def)
qed (simp add: quantile_inner_def)

lemma uniform_inner_wf:
  assumes "col \<noteq> []"
  shows "sorted (uniform_inner nb col) \<and> length (uniform_inner nb col) \<le> nb - 1"
proof -
  have "Min (set col) \<le> Max (set col)" using assms by simp
  then have "Min (set col) + (Max (set col) - Min (set col)) * real i / real nb \<le>
             Min (set col) + (Max (set col) - Min (set col)) * real j / real nb" if "i \<le> j" for i j
    using that by (simp add: divide_right_mono mult_left_mono)
  then have "sorted (map (\<lambda>k. Min (set col) + (Max (set col) - Min (set col)) * real k / real nb) [1..<nb])"
    by (intro sorted_map_mono_upt) simp
  then show ?thesis
    by (simp add: uniform_inner_def Let_def)
qed

lemma length_concat_matrix: "matrix a b s \<Longrightarrow> length (concat s) = a * b"
proof -
  assume m: "matrix a b s"
  then have "map length s = replicate a b" by (auto simp: matrix_def intro: replicate_eqI)
  then show ?thesis by (simp add: length_concat sum_list_replicate)
qed

lemma nth_concat_matrix:
  assumes m: "matrix a b s" and i: "i < a" and j: "j < b"
  shows "concat s ! (i * b + j) = s ! i ! j"
  using m i j
proof (induction s arbitrary: a i)
  case (Cons r rs)
  then obtain a' where a: "a = Suc a'" by (cases a) auto
  have lr: "length r = b" and m': "matrix a' b rs" using Cons.prems(1) a by (auto simp: matrix_def)
  show ?case
  proof (cases i)
    case 0 then show ?thesis using lr Cons.prems by (simp add: nth_append)
  next
    case (Suc i')
    then have "concat rs ! (i' * b + j) = rs ! i' ! j"
      using Cons.IH [OF m'] Cons.prems a by simp
    then show ?thesis using Suc lr by (simp add: nth_append)
  qed
qed (simp add: matrix_def)

lemma matrix_unflatten: "length row = a * b \<Longrightarrow> matrix a b (unflatten a b row)"
proof -
  assume l: "length row = a * b"
  have "length (take b (drop (i * b) row)) = b" if "i < a" for i
  proof -
    have "i * b + b \<le> a * b" using that by (metis add.commute mult_Suc less_eq_Suc_le mult_le_mono1)
    then show ?thesis using l by simp
  qed
  then show ?thesis by (auto simp: matrix_def unflatten_def)
qed

lemma matrix_square: "matrix n n s \<longleftrightarrow> square n s"
  by (simp add: matrix_def square_iff)

lemma nth_unflatten:
  "length row = a * b \<Longrightarrow> i < a \<Longrightarrow> j < b \<Longrightarrow> unflatten a b row ! i ! j = row ! (i * b + j)"
  by (simp add: unflatten_def add.commute)

text \<open>Reshaping a flattened \<open>a \<times> b\<close> array back to \<open>(a, b)\<close> in row-major order gives the array back.\<close>

theorem unflatten_concat: "matrix a b s \<Longrightarrow> unflatten a b (concat s) = s"
proof -
  assume m: "matrix a b s"
  have l: "length (concat s) = a * b" using m by (rule length_concat_matrix)
  show ?thesis
  proof (rule nth_equalityI)
    show "length (unflatten a b (concat s)) = length s" using m by (simp add: unflatten_def matrix_def)
  next
    fix i assume "i < length (unflatten a b (concat s))"
    then have i: "i < a" by (simp add: unflatten_def)
    show "unflatten a b (concat s) ! i = s ! i"
    proof (rule nth_equalityI)
      show "length (unflatten a b (concat s) ! i) = length (s ! i)"
        using matrix_unflatten [OF l] m i by (simp add: matrix_def)
    next
      fix j assume "j < length (unflatten a b (concat s) ! i)"
      then have j: "j < b" using matrix_unflatten [OF l] i by (simp add: matrix_def)
      show "unflatten a b (concat s) ! i ! j = s ! i ! j"
        using nth_unflatten [OF l i j] nth_concat_matrix [OF m i j] by simp
    qed
  qed
qed

text \<open>Every fitted column is well formed: its inner edges are sorted and there are at most \<open>n_bins - 1\<close> of them, for the uniform and quantile strategies (numpy's linear percentile is monotone and the narrow-bin mask keeps a subsequence) and for a k-means fit that has this property.\<close>

theorem fit_column_wf:
  "kmeans_ok kmeans \<Longrightarrow> col \<noteq> [] \<Longrightarrow>
   sorted (fit_column kmeans strategy nb col) \<and> length (fit_column kmeans strategy nb col) \<le> nb - 1"
  using quantile_inner_wf [of col nb] uniform_inner_wf [of col nb]
  by (cases strategy) (simp_all add: fit_column_def kmeans_ok_def)

lemma length_transform_row:
  "length (transform_row edges row) = min (length edges) (length row)"
  by (simp add: transform_row_def)

lemma nth_transform_row:
  "k < length edges \<Longrightarrow> k < length row \<Longrightarrow>
   transform_row edges row ! k = real (bin_index (edges ! k) (row ! k))"
  by (simp add: transform_row_def)

lemma set_unflatten: "r \<in> set (unflatten a b row) \<Longrightarrow> set r \<subseteq> set row"
  by (auto simp: unflatten_def dest: in_set_takeD in_set_dropD)

lemma flat_index_less: "i < a \<Longrightarrow> j < b \<Longrightarrow> i * b + j < a * (b :: nat)"
proof -
  assume i: "i < a" and j: "j < b"
  have "i * b + j < Suc i * b" using j by simp
  also have "\<dots> \<le> a * b" using i by (intro mult_le_mono1) simp
  finally show ?thesis .
qed

lemma quantizer_init_Inr:
  assumes "quantizer_init kmeans kw (Some (a, b, S)) = Inr q"
  shows "q_shape q = (a, b) \<and> S \<noteq> [] \<and> 0 < a * b \<and> 2 \<le> kb_n_bins (quantizer_params kw) \<and>
         q_edges q = map (\<lambda>j. fit_column kmeans (kb_strategy (quantizer_params kw))
                              (nat (kb_n_bins (quantizer_params kw))) (column (map concat S) j)) [0..<a * b] \<and>
         (q_encode q = Ordinal \<and>
            q_surfaces q = map (\<lambda>row. unflatten a b (transform_row (q_edges q) row)) (map concat S) \<or>
          q_encode q = OneHotDense \<and> list_all (\<lambda>inner. inner = []) (q_edges q) \<and>
            q_surfaces q = map (\<lambda>row. unflatten a b (map (\<lambda>x. 1) row)) (map concat S))"
  using assms
  by (auto simp: quantizer_init_def Let_def split: if_splits kbd_encode.splits)

text \<open>C14: Calling a quantizer on one of the surfaces it was built from returns that surface's quantization in \<open>self.surfaces\<close>: \<open>__call__\<close> and \<open>__init__\<close> agree.\<close>

theorem quantizer_call_train:
  assumes q: "quantizer_init kmeans kw (Some (a, b, S)) = Inr q" and c: "cube a b S"
    and i: "i < length S"
  shows "quantizer_call q (S ! i) = Inr (q_surfaces q ! i)"
proof -
  have "matrix a b (S ! i)" using c i by (simp add: cube_def)
  then have l: "length (concat (S ! i)) = a * b" by (rule length_concat_matrix)
  show ?thesis
    using quantizer_init_Inr [OF q] i l by (auto simp: quantizer_call_def)
qed

text \<open>What \<open>__call__\<close> returns at each pixel of an \<open>(a, b)\<close> tensor.\<close>

lemma quantizer_call_pixels:
  assumes q: "quantizer_init kmeans kw (Some (a, b, S)) = Inr q" and t: "matrix a b t"
  shows "\<exists>u. quantizer_call q t = Inr u \<and> matrix a b u \<and>
      (\<forall>i < a. \<forall>j < b. u ! i ! j = (if q_encode q = Ordinal
          then real (bin_index (q_edges q ! (i * b + j)) (t ! i ! j)) else 1))"
proof -
  have Q: "q_shape q = (a, b)" "length (q_edges q) = a * b"
    using quantizer_init_Inr [OF q] by simp_all
  have l: "length (concat t) = a * b" using t by (rule length_concat_matrix)
  have e: "q_encode q = Ordinal \<or> q_encode q = OneHotDense \<and> list_all (\<lambda>inner. inner = []) (q_edges q)"
    using quantizer_init_Inr [OF q] by blast
  have k: "i * b + j < a * b" if "i < a" "j < b" for i j
    using that by (rule flat_index_less)
  show ?thesis
  proof (cases "q_encode q = Ordinal")
    case True
    then show ?thesis
      using Q l k t by (auto simp: quantizer_call_def matrix_unflatten length_transform_row
          nth_unflatten nth_transform_row nth_concat_matrix)
  next
    case False
    then show ?thesis
      using Q l k e by (auto simp: quantizer_call_def matrix_unflatten nth_unflatten)
  qed
qed

text \<open>C19: Calling a quantizer on an \<open>a \<times> b\<close> tensor never fails, returns an \<open>a \<times> b\<close> array, and keeps order pixel by pixel: a pointwise larger tensor gets pointwise larger ordinals.\<close>

theorem quantizer_call_mono:
  assumes q: "quantizer_init kmeans kw (Some (a, b, S)) = Inr q"
    and t: "matrix a b t" and t': "matrix a b t'"
    and le: "\<forall>i < a. \<forall>j < b. t ! i ! j \<le> t' ! i ! j"
  shows "\<exists>u u'. quantizer_call q t = Inr u \<and> quantizer_call q t' = Inr u' \<and>
           matrix a b u \<and> (\<forall>i < a. \<forall>j < b. u ! i ! j \<le> u' ! i ! j)"
proof -
  obtain u where U: "quantizer_call q t = Inr u" "matrix a b u"
      "\<forall>i < a. \<forall>j < b. u ! i ! j = (if q_encode q = Ordinal
          then real (bin_index (q_edges q ! (i * b + j)) (t ! i ! j)) else 1)"
    using quantizer_call_pixels [OF q t] by blast
  obtain u' where U': "quantizer_call q t' = Inr u'"
      "\<forall>i < a. \<forall>j < b. u' ! i ! j = (if q_encode q = Ordinal
          then real (bin_index (q_edges q ! (i * b + j)) (t' ! i ! j)) else 1)"
    using quantizer_call_pixels [OF q t'] by blast
  have "u ! i ! j \<le> u' ! i ! j" if "i < a" "j < b" for i j
    using U(3) U'(2) le that bin_index_mono by simp
  with U U' show ?thesis by blast
qed

lemma quantizer_init_ordinal_eq:
  assumes "2 \<le> kb_n_bins (quantizer_params kw)" "kb_encode (quantizer_params kw) = Ordinal"
    "S \<noteq> []" "0 < a * b"
  shows "quantizer_init kmeans kw (Some (a, b, S)) =
    Inr \<lparr>q_edges = map (\<lambda>j. fit_column kmeans (kb_strategy (quantizer_params kw))
                            (nat (kb_n_bins (quantizer_params kw))) (column (map concat S) j)) [0..<a * b],
         q_encode = Ordinal, q_shape = (a, b),
         q_surfaces = map (\<lambda>row. unflatten a b (transform_row
            (map (\<lambda>j. fit_column kmeans (kb_strategy (quantizer_params kw))
               (nat (kb_n_bins (quantizer_params kw))) (column (map concat S) j)) [0..<a * b]) row))
            (map concat S)\<rparr>"
  using assms by (simp add: quantizer_init_def Let_def)

lemma length_fit_column:
  "kmeans_ok kmeans \<Longrightarrow> col \<noteq> [] \<Longrightarrow> length (fit_column kmeans strategy nb col) \<le> nb - 1"
  using quantile_inner_wf [of col nb] uniform_inner_wf [of col nb]
  by (cases strategy) (simp_all add: fit_column_def kmeans_ok_def)

text \<open>The surfaces an ordinal quantizer stores: \<open>(a, b)\<close> arrays of bin numbers.\<close>

lemma ordinal_surfaces:
  assumes km: "kmeans_ok kmeans" and nb: "2 \<le> nb" and ne: "S \<noteq> []" and c: "cube a b S"
    and sS: "s \<in> set (map (\<lambda>row. unflatten a b (transform_row
               (map (\<lambda>j. fit_column kmeans strategy nb (column (map concat S) j)) [0..<a * b]) row))
               (map concat S))"
  shows "matrix a b s \<and> (\<forall>r \<in> set s. \<forall>v \<in> set r. v \<in> real ` {..<nb})"
proof -
  let ?X = "map concat S"
  let ?edges = "map (\<lambda>j. fit_column kmeans strategy nb (column ?X j)) [0..<a * b]"
  have lrow: "length row = a * b" if "row \<in> set ?X" for row
    using that c by (auto simp: cube_def length_concat_matrix)
  have bin: "v \<in> real ` {..<nb}" if row: "row \<in> set ?X" and v: "v \<in> set (transform_row ?edges row)"
    for row v
  proof -
    obtain k where k: "k < a * b" "v = transform_row ?edges row ! k"
      using v lrow [OF row] by (auto simp: in_set_conv_nth length_transform_row)
    have "column ?X k \<noteq> []" using ne by (simp add: column_def)
    then have "length (?edges ! k) \<le> nb - 1"
      using length_fit_column [OF km] k by simp
    then have "bin_index (?edges ! k) (row ! k) < nb"
      using bin_index_le [of "?edges ! k" "row ! k"] nb by linarith
    then show ?thesis
      using k lrow [OF row] by (simp add: nth_transform_row)
  qed
  obtain row where row: "row \<in> set ?X" "s = unflatten a b (transform_row ?edges row)"
    using sS unfolding set_map by blast
  have "length (transform_row ?edges row) = a * b"
    using lrow [OF row(1)] by (simp add: length_transform_row)
  then have "matrix a b s" using row(2) by (simp add: matrix_unflatten)
  moreover have "v \<in> real ` {..<nb}" if "r \<in> set s" "v \<in> set r" for r v
  proof -
    have "v \<in> set (transform_row ?edges row)"
      using set_unflatten [of r a b] that row(2) by blast
    then show ?thesis by (rule bin [OF row(1)])
  qed
  ultimately show ?thesis by blast
qed

text \<open>C13: With at least two bins, ordinal encoding and a non-empty \<open>(m, a, b)\<close> array, the quantizer is built and its surfaces form an \<open>(m, a, b)\<close> array of ordinals in \<open>{0, ..., n_bins - 1}\<close>.\<close>

theorem quantizer_init_ordinal:
  assumes km: "kmeans_ok kmeans" and nb: "2 \<le> kb_n_bins (quantizer_params kw)"
    and enc: "kb_encode (quantizer_params kw) = Ordinal"
    and ne: "S \<noteq> []" and ab: "0 < a * b" and c: "cube a b S"
  shows "\<exists>q. quantizer_init kmeans kw (Some (a, b, S)) = Inr q \<and> q_shape q = (a, b) \<and>
           length (q_surfaces q) = length S \<and>
           (\<forall>s \<in> set (q_surfaces q). matrix a b s \<and>
              (\<forall>r \<in> set s. \<forall>v \<in> set r. v \<in> real ` {..<nat (kb_n_bins (quantizer_params kw))}))"
proof -
  have nb': "2 \<le> nat (kb_n_bins (quantizer_params kw))" using nb by linarith
  show ?thesis
    using quantizer_init_ordinal_eq [OF nb enc ne ab] ordinal_surfaces [OF km nb' ne c] by auto
qed

text \<open>C12: With ordinal encoding, calling a quantizer on an \<open>(a, b)\<close>
  tensor refines the abstract bin relation pixel by pixel: the value at \<open>(i, j)\<close> is
  \<open>k\<close> exactly when the pixel lies in bin \<open>k\<close> of the column fitted for feature
  \<open>i * b + j\<close>, the feature the wrapper's row-major flattening gives that pixel.\<close>

theorem quantizer_call_refines:
  assumes q: "quantizer_init kmeans kw (Some (a, b, S)) = Inr q" and km: "kmeans_ok kmeans"
    and enc: "kb_encode (quantizer_params kw) = Ordinal" and t: "matrix a b t"
  shows "\<exists>u. quantizer_call q t = Inr u \<and> matrix a b u \<and>
           (\<forall>i < a. \<forall>j < b. \<forall>k. in_bin (q_edges q ! (i * b + j)) (t ! i ! j) k \<longleftrightarrow> u ! i ! j = real k)"
proof -
  let ?p = "quantizer_params kw"
  have I: "2 \<le> kb_n_bins ?p" "S \<noteq> []" "0 < a * b"
    "q_edges q = map (\<lambda>j. fit_column kmeans (kb_strategy ?p) (nat (kb_n_bins ?p))
        (column (map concat S) j)) [0..<a * b]"
    using quantizer_init_Inr [OF q] by simp_all
  have ord: "q_encode q = Ordinal"
    using quantizer_init_ordinal_eq [OF I(1) enc I(2) I(3)] q by auto
  have sorted: "sorted (q_edges q ! (i * b + j))" if "i < a" "j < b" for i j
  proof -
    have "i * b + j < a * b" using that by (rule flat_index_less)
    moreover have "column (map concat S) (i * b + j) \<noteq> []" using I(2) by (simp add: column_def)
    ultimately show ?thesis using fit_column_wf [OF km] I(4) by simp
  qed
  obtain u where U: "quantizer_call q t = Inr u" "matrix a b u"
      "\<forall>i < a. \<forall>j < b. u ! i ! j = real (bin_index (q_edges q ! (i * b + j)) (t ! i ! j))"
    using quantizer_call_pixels [OF q t] ord by auto
  have "in_bin (q_edges q ! (i * b + j)) (t ! i ! j) k \<longleftrightarrow> u ! i ! j = real k"
    if "i < a" "j < b" for i j k
    using bin_index_refines [OF sorted [OF that], of "t ! i ! j" k] U(3) that by auto
  then show ?thesis using U(1,2) by blast
qed

text \<open>C20: The quantizer raises AttributeError with its default \<open>surfaces=None\<close>, ValueError with fewer than two bins, no surfaces or a sparse one-hot encoding, and its call raises ValueError on a tensor with another number of values.\<close>

theorem quantizer_errors:
  "quantizer_init kmeans kw None = Inl AttributeError \<and>
   (kb_n_bins (quantizer_params kw) < 2 \<longrightarrow> quantizer_init kmeans kw (Some (a, b, S)) = Inl ValueError) \<and>
   (S = [] \<longrightarrow> quantizer_init kmeans kw (Some (a, b, S)) = Inl ValueError) \<and>
   (kb_encode (quantizer_params kw) = OneHot \<longrightarrow>
      quantizer_init kmeans kw (Some (a, b, S)) = Inl ValueError) \<and>
   (length (concat t) \<noteq> length (q_edges q) \<longrightarrow> quantizer_call q t = Inl ValueError)"
  by (auto simp: quantizer_init_def quantizer_call_def Let_def split: prod.split)

text \<open>The quantizer sets \<open>encode\<close>, which differs from the estimator's default, so its
  string names it.\<close>

lemma quantizer_str_default:
  assumes "q_shape q = (4, 4)" "length (q_surfaces q) = 10"
  shows "quantizer_str \<lparr>kw_n_bins = None, kw_encode = None, kw_strategy = None\<rparr> q =
    ''{'' @ py_quote ''underlying'' @ '': KBinsDiscretizer(encode='' @ py_quote ''ordinal'' @ ''), '' @
    py_quote ''shape'' @ '': (10, 4, 4)}''"
  using assms
  by (simp add: quantizer_str_def kbd_repr_def quantizer_params_def encode_name_def nat_str.simps)

subsection \<open>Witnesses\<close>

lemma kmeans_ok_uniform: "kmeans_ok uniform_inner"
  unfolding kmeans_ok_def using uniform_inner_wf by blast

lemma default_kwargs:
  "kb_n_bins (quantizer_params \<lparr>kw_n_bins = None, kw_encode = None, kw_strategy = None\<rparr>) = 5"
  "kb_encode (quantizer_params \<lparr>kw_n_bins = None, kw_encode = None, kw_strategy = None\<rparr>) = Ordinal"
  by (simp_all add: quantizer_params_def)

lemma small_quantizer:
  "\<exists>q. quantizer_init uniform_inner \<lparr>kw_n_bins = None, kw_encode = None, kw_strategy = None\<rparr>
         (Some (1, 1, [[[1]], [[3]]])) = Inr q"
  using quantizer_init_ordinal_eq [of "\<lparr>kw_n_bins = None, kw_encode = None, kw_strategy = None\<rparr>"
      "[[[1]], [[3]]]" 1 1 uniform_inner] default_kwargs by simp

lemma small_cube: "cube 1 1 [[[1]], [[3 :: real]]]"
  by (simp add: cube_def matrix_def)

theorem quantizer_init_ordinal_witness:
  "kmeans_ok uniform_inner \<and>
   2 \<le> kb_n_bins (quantizer_params \<lparr>kw_n_bins = None, kw_encode = None, kw_strategy = None\<rparr>) \<and>
   kb_encode (quantizer_params \<lparr>kw_n_bins = None, kw_encode = None, kw_strategy = None\<rparr>) = Ordinal \<and>
   [[[1]], [[3 :: real]]] \<noteq> [] \<and> 0 < (1 :: nat) * 1 \<and> cube 1 1 [[[1]], [[3 :: real]]] \<and>
   (\<exists>q. quantizer_init uniform_inner \<lparr>kw_n_bins = None, kw_encode = None, kw_strategy = None\<rparr>
          (Some (1, 1, [[[1]], [[3]]])) = Inr q \<and> q_shape q = (1, 1) \<and> length (q_surfaces q) = 2)"
proof -
  have h: "2 \<le> kb_n_bins (quantizer_params \<lparr>kw_n_bins = None, kw_encode = None, kw_strategy = None\<rparr>)"
    "[[[1]], [[3 :: real]]] \<noteq> []" "0 < (1 :: nat) * 1"
    by (simp_all add: default_kwargs)
  show ?thesis
    using h kmeans_ok_uniform default_kwargs small_cube
      quantizer_init_ordinal [OF kmeans_ok_uniform h(1) default_kwargs(2) h(2) h(3) small_cube]
    by auto
qed

theorem quantizer_call_train_witness:
  "cube 1 1 [[[1]], [[3 :: real]]] \<and> 1 < length [[[1]], [[3 :: real]]] \<and>
   (\<exists>q. quantizer_init uniform_inner \<lparr>kw_n_bins = None, kw_encode = None, kw_strategy = None\<rparr>
          (Some (1, 1, [[[1]], [[3]]])) = Inr q \<and>
        quantizer_call q ([[[1]], [[3]]] ! 1) = Inr (q_surfaces q ! 1))"
proof -
  obtain q where q: "quantizer_init uniform_inner \<lparr>kw_n_bins = None, kw_encode = None, kw_strategy = None\<rparr>
      (Some (1, 1, [[[1]], [[3]]])) = Inr q"
    using small_quantizer by blast
  have i: "1 < length [[[1]], [[3 :: real]]]" by simp
  show ?thesis using small_cube i q quantizer_call_train [OF q small_cube i] by blast
qed

theorem quantizer_call_mono_witness:
  "matrix 1 1 [[1 :: real]] \<and> matrix 1 1 [[2 :: real]] \<and> (1 :: real) \<le> 2 \<and>
   (\<exists>q u u'. quantizer_init uniform_inner \<lparr>kw_n_bins = None, kw_encode = None, kw_strategy = None\<rparr>
          (Some (1, 1, [[[1]], [[3]]])) = Inr q \<and>
        quantizer_call q [[1]] = Inr u \<and> quantizer_call q [[2]] = Inr u' \<and> u ! 0 ! 0 \<le> u' ! 0 ! 0)"
proof -
  obtain q where q: "quantizer_init uniform_inner \<lparr>kw_n_bins = None, kw_encode = None, kw_strategy = None\<rparr>
      (Some (1, 1, [[[1]], [[3]]])) = Inr q"
    using small_quantizer by blast
  have m: "matrix 1 1 [[1 :: real]]" "matrix 1 1 [[2 :: real]]" by (simp_all add: matrix_def)
  have le: "\<forall>i < 1. \<forall>j < 1. [[1 :: real]] ! i ! j \<le> [[2]] ! i ! j" by simp
  show ?thesis using m q quantizer_call_mono [OF q m le] by fastforce
qed

theorem quantizer_errors_witness:
  "quantizer_init uniform_inner \<lparr>kw_n_bins = None, kw_encode = None, kw_strategy = None\<rparr> None =
     Inl AttributeError \<and>
   quantizer_init uniform_inner \<lparr>kw_n_bins = Some 1, kw_encode = None, kw_strategy = None\<rparr>
     (Some (1, 1, [[[1]]])) = Inl ValueError \<and>
   quantizer_init uniform_inner \<lparr>kw_n_bins = None, kw_encode = None, kw_strategy = None\<rparr>
     (Some (1, 1, [])) = Inl ValueError \<and>
   quantizer_init uniform_inner \<lparr>kw_n_bins = None, kw_encode = Some OneHot, kw_strategy = None\<rparr>
     (Some (1, 1, [[[1]]])) = Inl ValueError \<and>
   quantizer_call \<lparr>q_edges = [], q_encode = Ordinal, q_shape = (1, 1), q_surfaces = []\<rparr> [[1]] =
     Inl ValueError"
  using quantizer_errors [of uniform_inner "\<lparr>kw_n_bins = None, kw_encode = None, kw_strategy = None\<rparr>"
      1 1 "[[[1]]]" "[[1]]" "\<lparr>q_edges = [], q_encode = Ordinal, q_shape = (1, 1), q_surfaces = []\<rparr>"]
    quantizer_errors [of uniform_inner "\<lparr>kw_n_bins = Some 1, kw_encode = None, kw_strategy = None\<rparr>"
      1 1 "[[[1]]]"]
    quantizer_errors [of uniform_inner "\<lparr>kw_n_bins = None, kw_encode = None, kw_strategy = None\<rparr>"
      1 1 "[]"]
    quantizer_errors [of uniform_inner "\<lparr>kw_n_bins = None, kw_encode = Some OneHot, kw_strategy = None\<rparr>"
      1 1 "[[[1]]]"]
  by (simp add: quantizer_params_def)

theorem quantizer_call_refines_witness:
  "kmeans_ok uniform_inner \<and>
   kb_encode (quantizer_params \<lparr>kw_n_bins = None, kw_encode = None, kw_strategy = None\<rparr>) = Ordinal \<and>
   matrix 1 1 [[2 :: real]] \<and>
   (\<exists>q u. quantizer_init uniform_inner \<lparr>kw_n_bins = None, kw_encode = None, kw_strategy = None\<rparr>
          (Some (1, 1, [[[1]], [[3]]])) = Inr q \<and>
        quantizer_call q [[2]] = Inr u \<and> (in_bin (q_edges q ! 0) 2 0 \<longleftrightarrow> u ! 0 ! 0 = 0))"
proof -
  obtain q where q: "quantizer_init uniform_inner \<lparr>kw_n_bins = None, kw_encode = None, kw_strategy = None\<rparr>
      (Some (1, 1, [[[1]], [[3]]])) = Inr q"
    using small_quantizer by blast
  have m: "matrix 1 1 [[2 :: real]]" by (simp add: matrix_def)
  obtain u where "quantizer_call q [[2]] = Inr u"
      "\<forall>i < 1. \<forall>j < 1. \<forall>k. in_bin (q_edges q ! (i * 1 + j)) ([[2]] ! i ! j) k \<longleftrightarrow> u ! i ! j = real k"
    using quantizer_call_refines [OF q kmeans_ok_uniform default_kwargs(2) m] by blast
  then show ?thesis using q m kmeans_ok_uniform default_kwargs(2) by fastforce
qed

end
