(* ===== verification/QuantizerModule.thy ===== *)
theory QuantizerModule
  imports Quantizer
begin

text \<open>
  The top level of src/src/roughgan/content/quantization.py: the names its imports and
  class statements bind (lines 1--21), the two classes, and the \<open>__main__\<close> demo
  (lines 40--51).  \<open>Quantizer\<close> derives from \<open>Configuration\<close> and \<open>ABC\<close> and declares
  \<open>__call__\<close> abstract; \<open>KBinsDiscretizerQuantizer\<close> derives from \<open>Configuration\<close>
  only.  \<open>Configuration\<close> (roughgan/shared/configuration.py) is not among the sources;
  it is taken to be a plain class.  The demo reads the global \<open>torch\<close>, which the
  module never binds: it raises NameError before it prints.  Its body is modelled
  over the module's globals; \<open>torch.rand(10, 4, 4)\<close> is an input.
\<close>

section \<open>Definitions\<close>

text \<open>The classes the module names; \<open>object\<close> is the root.\<close>

datatype py_class = PyObject | PyABC | Configuration | Quantizer | KBinsDiscretizerQuantizer

text \<open>Lines 8 and 21: the bases of each class statement.\<close>

definition class_bases :: "py_class \<Rightarrow> py_class list" where
  "class_bases c = (case c of
                      Quantizer \<Rightarrow> [Configuration, PyABC]
                    | KBinsDiscretizerQuantizer \<Rightarrow> [Configuration]
                    | PyObject \<Rightarrow> []
                    | _ \<Rightarrow> [PyObject])"

text \<open>Lines 16--18: \<open>@abstractstaticmethod\<close> marks \<open>__call__\<close> of \<open>Quantizer\<close> abstract;
  \<open>KBinsDiscretizerQuantizer\<close> is no subclass of it and has none.\<close>

definition abstract_methods :: "py_class \<Rightarrow> string list" where
  "abstract_methods c = (case c of Quantizer \<Rightarrow> [''__call__''] | _ \<Rightarrow> [])"

text \<open>\<open>issubclass(c, d)\<close>: \<open>d\<close> is \<open>c\<close> or a superclass of one of its bases.  A class
  statement only names classes defined before it, so the recursion goes down the
  depth of the hierarchy.\<close>

definition class_depth :: "py_class \<Rightarrow> nat" where
  "class_depth c = (case c of PyObject \<Rightarrow> 0 | Quantizer \<Rightarrow> 2 | KBinsDiscretizerQuantizer \<Rightarrow> 2 | _ \<Rightarrow> 1)"

function issubclass :: "py_class \<Rightarrow> py_class \<Rightarrow> bool" where
  "issubclass c d = (c = d \<or> (\<exists>b \<in> set (class_bases c). issubclass b d))"
  by pat_completeness auto
termination
  by (relation "measure (\<lambda>(c, d). class_depth c)")
    (auto simp: class_bases_def class_depth_def split: py_class.splits)

declare issubclass.simps [simp del]

text \<open>\<open>C()\<close>: ABCMeta refuses to instantiate a class with abstract methods.\<close>

definition py_instantiate :: "py_class \<Rightarrow> py_class result" where
  "py_instantiate c = (if abstract_methods c = [] then Inr c else Inl TypeError)"

text \<open>Lines 1--5, 8 and 21: the module's globals after its top level has run.\<close>

definition module_globals :: "string set" where
  "module_globals = {''ABC'', ''abstractstaticmethod'', ''KBinsDiscretizer'', ''Configuration'',
                     ''Quantizer'', ''KBinsDiscretizerQuantizer''}"

text \<open>What the demo prints: the tensor, the quantizer (its \<open>__str__\<close> formats the
  estimator and the shape, lines 36--37) and the quantized tensor.\<close>

datatype printed =
    PrintTensor "real list list list"
  | PrintQuantizer quantizer
  | PrintSurface "real list list"

text \<open>Lines 40--51 over the globals \<open>G\<close>: the printed values in order and the exception
  that ends the script, if any.  \<open>KBinsDiscretizerQuantizer(tensors)\<close> passes no
  keyword.\<close>

definition quantization_main ::
  "string set \<Rightarrow> (nat \<Rightarrow> real list \<Rightarrow> real list) \<Rightarrow> real list list list \<Rightarrow> printed list \<times> py_error option" where
  "quantization_main G kmeans tensors =
     (if ''torch'' \<notin> G then ([], Some NameError)
      else case quantizer_init kmeans \<lparr>kw_n_bins = None, kw_encode = None, kw_strategy = None\<rparr>
                  (Some (4, 4, tensors)) of
             Inl e \<Rightarrow> ([PrintTensor tensors], Some e)
           | Inr q \<Rightarrow>
               (case quantizer_call q (tensors ! 0) of
                  Inl e \<Rightarrow> ([PrintTensor tensors, PrintQuantizer q], Some e)
                | Inr t \<Rightarrow> ([PrintTensor tensors, PrintQuantizer q, PrintSurface t], None)))"

section \<open>Lemmas\<close>

lemma module_classes:
  "py_instantiate Quantizer = Inl TypeError"
  "py_instantiate KBinsDiscretizerQuantizer = Inr KBinsDiscretizerQuantizer"
  "\<not> issubclass KBinsDiscretizerQuantizer Quantizer"
  "issubclass Quantizer PyABC"
  by (simp_all add: py_instantiate_def abstract_methods_def)
    (subst issubclass.simps, simp add: class_bases_def, subst issubclass.simps, simp add: class_bases_def,
     subst issubclass.simps, simp add: class_bases_def)+

lemma quantization_main_globals:
  "quantization_main module_globals kmeans tensors = ([], Some NameError)"
  by (simp add: quantization_main_def module_globals_def)

end
