(* ===== verification/Spec2Isabelle.thy ===== *)
theory Spec2Isabelle
  imports Prelude Datasets RankSwap Autocorrelation GeneratorRepr LagGrid Fourier GaussianField Generator Loaders Cli
    Quantizer QuantizerModule
begin

text \<open>
  \<^bold>\<open>RoughGAN surface generator: a verification development.\<close>

  The program synthesises rough-surface height maps, loads them as datasets, and
  quantizes them.  src/src/roughgan/data/generators.py: a generator object holds a
  configuration (\<open>n_points\<close>, \<open>rms\<close>, \<open>skewness\<close>, \<open>kurtosis\<close>, \<open>corlength_x\<close>,
  \<open>corlength_y\<close>, \<open>alpha\<close>, and for the Bessel variant \<open>beta_x\<close>, \<open>beta_y\<close>) and a
  length \<open>_length\<close>; iterating it runs \<open>generate_surface\<close> once per surface.
  \<open>generate_surface\<close> has three stages: an autocorrelation grid \<open>R\<close> (lines 53--67)
  built from the model's \<open>autocorrelation\<close> (lines 139--145 and 165--169), a
  correlated Gaussian field obtained by filtering uniform noise with the amplitude
  spectrum of \<open>R\<close> (lines 69--100), and a rank-order swap that gives the field the
  values of a Pearson III sample (lines 102--121).  src/src/roughgan/data/loaders.py
  builds datasets from a generator, a zip of .mat files or .pt files;
  src/src/roughml/cli/dataset.py is the \<open>dataset standard\<close> / \<open>dataset besel\<close>
  command line over the generators; src/src/roughgan/content/quantization.py turns an
  \<open>(m, a, b)\<close> array of surfaces into bin numbers with scikit-learn's
  \<open>KBinsDiscretizer\<close>.

  \<^bold>\<open>Theories and correspondence.\<close>
  \<^item> Prelude: the Python exceptions as the datatype \<open>py_error\<close> and results as
    \<open>py_error + 'a\<close>; Python floor division; numpy's negative-index wrap-around
    (\<open>np_index\<close>, \<open>np_set2\<close> for \<open>R[i, j] = v\<close>); square arrays as lists of rows;
    elementwise maps (\<open>map2d\<close>, \<open>zip2d\<close>); \<open>np.mean\<close> and the population
    standard deviation; their behaviour under affine maps.
  \<^item> Autocorrelation: the record \<open>surface_generator\<close> of the object's fields (the
    subclass as \<open>acf_kind\<close>), the constructors, numpy's \<open>0.0 ** e\<close> and
    \<open>exp(-inf)\<close>, sympy's \<open>besselj(0, x)\<close> as its power series, and both
    \<open>autocorrelation\<close> methods with their ZeroDivisionError.
  \<^item> GeneratorRepr: \<open>__str__\<close> and \<open>__repr__\<close> (lines 23--27), the class name and
    the seven configuration fields, with Python's formatting of numbers a parameter.
  \<^item> LagGrid: lines 53--67, the lag bounds and step under floor division and the two
    \<open>range\<close> loops as structural recursion (\<open>fill_row\<close>, \<open>fill_grid\<close>) writing
    through numpy's index wrap-around, every exception a branch.
  \<^item> Fourier: \<open>np.fft.fft2\<close> and \<open>ifft2\<close> on square arrays as their defining sums.
  \<^item> GaussianField: lines 69--100, the amplitude filter, the noise normalisation,
    the filtering, the renormalisation to \<open>rms\<close> and the slice; the all-NaN field
    of a zero standard deviation is \<open>None\<close>.
  \<^item> RankSwap: lines 110--121 and \<open>SurfaceGenerator.sort\<close>: column-major flatten
    and reshape, \<open>np.argsort\<close> as any sorting permutation (numpy's default sort is
    not stable), \<open>np.sort\<close>, the index-array assignment \<open>v[idx] = vals\<close>, and the
    conjugate transpose.
  \<^item> Generator: \<open>generate_surface\<close> as the composition of the three stages, with
    \<open>pearson3.rvs\<close>'s ValueError on a negative scale and numpy's NaN-last argsort as
    a parameter; \<open>__call__\<close>, \<open>__len__\<close>, and \<open>__iter__\<close> as the state machine of a
    Python generator (\<open>Created\<close>, \<open>Suspended i n\<close>, \<open>Exhausted\<close>) whose \<open>next\<close>
    reads the object when it runs; \<open>list(it)\<close>, a run of \<open>k\<close> calls of \<open>next\<close>, and
    the states \<open>next\<close> can reach (the inductive \<open>gen_reach\<close>); the module's
    demo as the list of surfaces it plots (\<open>generators_main\<close>).
  \<^item> Loaders: the four loaders of loaders.py, each a function returning what its
    Python generator yields or the exception raised first; \<open>itertools.islice\<close>,
    the suffix filter over a directory listing (an input), the negative slice stop.
  \<^item> Datasets: the container \<open>NanoroughSurfaceDataset\<close> (roughgan/data/sets.py, not
    among the sources), modelled from its uses as a record of surfaces and transforms
    with \<open>from_list\<close>, and the \<open>.pt\<close> files as a map from paths to the datasets
    \<open>to_pt\<close> stored there, which \<open>from_pt\<close> reads back.
  \<^item> Cli: the option table of the \<open>dataset\<close> group with click's resolution of a
    flag declared twice, the configuration dictionary, both generator factories,
    \<open>generate\<close> with its \<open>to_pt\<close> write, the two subcommands, and click's parsing of
    the command line into them (\<open>cli_main\<close>).
  \<^item> Quantizer: \<open>KBinsDiscretizerQuantizer.__init__\<close> and \<open>__call__\<close> with the
    keyword defaults; scikit-learn's fit for the \<open>uniform\<close> and \<open>quantile\<close>
    strategies (numpy's linear percentile and the \<open>1e-8\<close> narrow-bin mask) and its
    transform (\<open>searchsorted\<close> right); the row-major reshapes; every exception;
    \<open>__str__\<close> with scikit-learn's \<open>repr\<close> of the estimator.
  \<^item> QuantizerModule: the module's top level, the names its imports and class
    statements bind, the classes \<open>Quantizer\<close> (abstract) and
    \<open>KBinsDiscretizerQuantizer\<close> with their bases, \<open>issubclass\<close> and
    instantiation, and the \<open>__main__\<close> demo as the values it prints and the
    exception that ends it, over the module's globals.

  \<^bold>\<open>What is proved.\<close>
  End to end (Generator): on a valid configuration every surface is an
  \<open>n \<times> n\<close> rearrangement of its Pearson sample, ranked as the transposed Gaussian
  field; iterating \<open>g(l)\<close> (a \<open>for\<close> loop, or \<open>list(iter(g(l)))\<close>) yields exactly \<open>max l 0\<close> surfaces and the next call raises
  StopIteration; every reachable state of the iteration satisfies \<open>0 < i \<le> n\<close>
  (rule induction on \<open>gen_reach\<close>); \<open>max l 0 + 1\<close> calls of \<open>next\<close> always
  exhaust the generator; once a run has started, calling \<open>g(l)\<close> between
  calls of \<open>next\<close> does not change it; the TypeError and ValueError paths of \<open>None\<close> and
  negative lengths; the demo plots two \<open>128 \<times> 128\<close> surfaces; two generators
  print alike exactly when their class and seven fields do, so the Bessel periods
  are lost.  Gaussian field: the output is NaN exactly when a standard
  deviation is 0, and otherwise has mean 0 and standard deviation \<open>|rms|\<close>; it
  does not depend on the mean of the noise; the filter is non-negative.  Reshaper: the output is a permutation of the sample (a
  multiset equality) in the rank order of the field, equal to the gather the spec
  describes, and flatten/reshape are mutually inverse.  Grid: the loops fill every
  cell with the autocorrelation at lags \<open>i - n // 2\<close>, except the last row and column
  for odd \<open>n\<close>, which numpy's wrap-around gives the lag \<open>-(n + 1) // 2\<close>; the lag step
  is always 1, and every error path.  Autocorrelation: values at the origin, bounds
  \<open>[0, rms^2]\<close>, evenness and exactly when ZeroDivisionError is raised.  Loaders
  and command line: the number of surfaces each produces, the effect of limits,
  and their error paths, including the ValueError tqdm's \<open>len\<close> raises on a negative
  number of surfaces; on the command line \<open>-s N\<close> sets the skewness, not the number
  of surfaces, \<open>--dataset\<close> is required, and every other option takes its declared
  default (kurtosis 0).  Quantizer: on every pixel \<open>__call__\<close> refines the abstract bin
  relation \<open>in_bin\<close> of the column fitted for that pixel's feature (with the fitted
  columns sorted, which is proved for the uniform and quantile fits); the stored surfaces are \<open>(a, b)\<close> arrays of bin
  numbers below \<open>n_bins\<close>; \<open>__call__\<close> agrees with \<open>__init__\<close> on the training
  surfaces and is monotone; the error paths.  Across components (this theory): a
  dataset loaded from a generator and quantized gives \<open>l\<close> surfaces of shape
  \<open>(n, n)\<close> of bin numbers; the dataset the command line writes for a
  non-negative number of surfaces is read back by
  \<open>load_dataset_from_pt\<close> with the requested number of \<open>n \<times> n\<close> surfaces.

  \<^bold>\<open>Choices.\<close>  Floats are reals: rounding is not modelled, and the one IEEE
  special value the code reaches, NaN from a zero standard deviation, is modelled
  explicitly (\<open>None\<close>).  The random draws (\<open>np.random.rand\<close>, \<open>pearson3.rvs\<close>) are
  inputs; the \<open>k\<close>-th surface of a run uses draw \<open>k\<close>, so iteration needs no fuel:
  \<open>py_list\<close> terminates by a measure on the generator state.  The loops of
  \<open>generate_surface\<close> run over finite ranges and are structural recursion.  File
  contents, directory listings and archives are inputs of the loaders.  The
  k-means strategy of the discretizer is a parameter, assumed (\<open>kmeans_ok\<close>) to
  give sorted inner edges, at most \<open>n_bins - 1\<close> of them, as the other two are
  proved to.

  Python's decimal formatting of numbers is a parameter of \<open>__str__\<close>, of which
  only that it writes no comma is assumed.  \<open>Configuration\<close>
  (roughgan/shared/configuration.py, not among the sources) is taken to be a plain
  class.

  \<^bold>\<open>Not modelled.\<close>  The plotting of generators.py's \<open>__main__\<close> demo and the
  printing of quantization.py's (the values they plot and print are modelled);
  module imports other than the names they bind; the internals of scikit-learn's
  k-means; logging, the display of tqdm's progress bar (its \<open>len\<close> call is
  modelled), archive extraction and the byte format of the \<open>.pt\<close> and \<open>.mat\<close> files;
  click's \<open>--opt=value\<close> and \<open>-sVALUE\<close> spellings, the \<open>--\<close> separator, and the
  file-system checks of \<open>click.Path(dir_okay=False)\<close> on \<open>--dataset\<close> (an existing
  directory or an unreadable file is refused); the keyword arguments of
  \<open>load_dataset_from_generator\<close>, which is modelled over the generator object
  \<open>NonGaussianSurfaceGenerator(**kwargs)\<close> builds; the distribution of the random draws (only their shape is
  assumed).
\<close>

section \<open>Across components\<close>

text \<open>C10: A dataset loaded from a valid generator with a positive
  limit \<open>l\<close>, given to an ordinal quantizer of at least two bins as its \<open>(l, n, n)\<close> array, is
  quantized into \<open>l\<close> surfaces of shape \<open>(n, n)\<close> whose values are bin numbers
  below \<open>n_bins\<close>.\<close>

theorem quantized_generated_dataset:
  assumes n: "0 < n_points g" and ok: "acf_divisors_ok g" and r: "0 \<le> rms g"
    and ds: "draws_ok g ds" and ags: "\<forall>v. argsort_nan_spec v (ags v)"
    and km: "kmeans_ok kmeans" and nb: "2 \<le> kb_n_bins (quantizer_params kw)"
    and enc: "kb_encode (quantizer_params kw) = Ordinal" and l: "0 < l"
  shows "\<exists>d q. load_dataset_from_generator transforms (Some l) g ags ds = Inr (None, d) \<and>
           quantizer_init kmeans kw (Some (nat (n_points g), nat (n_points g), ds_surfaces d)) = Inr q \<and>
           length (q_surfaces q) = nat l \<and>
           (\<forall>s \<in> set (q_surfaces q). square (nat (n_points g)) s \<and>
              (\<forall>r \<in> set s. \<forall>v \<in> set r. v \<in> real ` {..<nat (kb_n_bins (quantizer_params kw))}))"
proof -
  let ?n = "nat (n_points g)"
  obtain F where F: "\<forall>k. generate_surface g (fst (ds k)) (snd (ds k)) ags = Inr (F k) \<and> square ?n (F k)"
    using surface_draws [OF n ok r ds ags] by blast
  let ?S = "map F [0..<nat l]"
  have "py_list (sg_call g (Some l)) ags ds Created = Inr ?S"
    using F by (intro py_list_call) simp
  then have load: "load_dataset_from_generator transforms (Some l) g ags ds = Inr (None, from_list ?S transforms)"
    by (simp add: load_dataset_from_generator_def)
  have ne: "?S \<noteq> []" using l by simp
  have c: "cube ?n ?n ?S" using F by (auto simp: cube_def matrix_square)
  have ab: "0 < ?n * ?n" using n by simp
  have nb': "2 \<le> nat (kb_n_bins (quantizer_params kw))" using nb by linarith
  show ?thesis
    using load quantizer_init_ordinal_eq [OF nb enc ne ab] ordinal_surfaces [OF km nb' ne c]
    by (auto simp: from_list_def matrix_square)
qed

text \<open>C11: The dataset the \<open>standard\<close> subcommand writes on a valid
  configuration with a non-negative number of surfaces is read back from its \<open>--dataset\<close> path, and \<open>load_dataset_from_pt\<close> with
  a limit \<open>k \<ge> 0\<close> yields that path and \<open>min k surfaces\<close> surfaces, each of the
  configured \<open>n \<times> n\<close> size.\<close>

theorem cli_dataset_roundtrip:
  assumes c: "config_ok c" and ds: "draws_ok (get_standard_generator c) ds"
    and ags: "\<forall>v. argsort_nan_spec v (ags v)" and k: "0 \<le> k" and s: "0 \<le> cfg_surfaces c"
  shows "\<exists>files' d. standard c ags ds files = Inr files' \<and> from_pt (cfg_dataset_path c) files' = Inr d \<and>
    fst (load_dataset_from_pt (cfg_dataset_path c) [] (Some k) d) = cfg_dataset_path c \<and>
    length (ds_surfaces (snd (load_dataset_from_pt (cfg_dataset_path c) [] (Some k) d))) =
      min (nat k) (nat (cfg_surfaces c)) \<and>
    (\<forall>S \<in> set (ds_surfaces (snd (load_dataset_from_pt (cfg_dataset_path c) [] (Some k) d))).
       square (nat (cfg_number_of_points c)) S)"
proof -
  let ?g = "get_standard_generator c"
  obtain Ss where Ss: "generate ?g (cfg_surfaces c) (cfg_dataset_path c) ags ds files =
      Inr (to_pt (from_list Ss []) (cfg_dataset_path c) files)"
      "length Ss = nat (cfg_surfaces c)" "\<forall>S \<in> set Ss. square (nat (n_points ?g)) S"
    using generate_count [OF standard_generator_ok [OF c, THEN conjunct1]
        standard_generator_ok [OF c, THEN conjunct2, THEN conjunct1]
        standard_generator_ok [OF c, THEN conjunct2, THEN conjunct2] ds ags s] by blast
  have n: "n_points ?g = cfg_number_of_points c"
    by (simp add: get_standard_generator_def NonGaussianSurfaceGenerator_def sg_init_def)
  have "\<forall>S \<in> set (take (nat k) Ss). square (nat (cfg_number_of_points c)) S"
    using Ss(3) n by (auto dest: in_set_takeD)
  then show ?thesis
    using Ss(1,2) k
    by (simp add: standard_def load_dataset_from_pt_def Let_def py_slice_stop_def from_list_def)
qed

subsection \<open>Witnesses\<close>

theorem quantized_generated_dataset_witness:
  "0 < n_points (NonGaussianSurfaceGenerator 1 1 0 3 4 4 1) \<and> acf_divisors_ok (NonGaussianSurfaceGenerator 1 1 0 3 4 4 1) \<and>
   0 \<le> rms (NonGaussianSurfaceGenerator 1 1 0 3 4 4 1) \<and>
   draws_ok (NonGaussianSurfaceGenerator 1 1 0 3 4 4 1) (\<lambda>k. ([[5]], [[7]])) \<and>
   (\<forall>v. argsort_nan_spec v (np_argsort_nan v)) \<and> kmeans_ok uniform_inner \<and>
   2 \<le> kb_n_bins (quantizer_params \<lparr>kw_n_bins = None, kw_encode = None, kw_strategy = None\<rparr>) \<and>
   kb_encode (quantizer_params \<lparr>kw_n_bins = None, kw_encode = None, kw_strategy = None\<rparr>) = Ordinal \<and>
   (0 :: int) < 2 \<and>
   (\<exists>d q. load_dataset_from_generator ([] :: nat list) (Some 2) (NonGaussianSurfaceGenerator 1 1 0 3 4 4 1)
          np_argsort_nan (\<lambda>k. ([[5]], [[7]])) = Inr (None, d) \<and>
        quantizer_init uniform_inner \<lparr>kw_n_bins = None, kw_encode = None, kw_strategy = None\<rparr>
          (Some (1, 1, ds_surfaces d)) = Inr q \<and> length (q_surfaces q) = 2)"
proof -
  have h: "2 \<le> kb_n_bins (quantizer_params \<lparr>kw_n_bins = None, kw_encode = None, kw_strategy = None\<rparr>)"
    "(0 :: int) < 2"
    by (simp_all add: default_kwargs)
  have n1: "nat (n_points (NonGaussianSurfaceGenerator 1 1 0 3 4 4 1)) = 1"
    by (simp add: NonGaussianSurfaceGenerator_def sg_init_def)
  show ?thesis
    using small_generator_ok small_draws_ok np_argsort_nan_all kmeans_ok_uniform h default_kwargs
      quantized_generated_dataset [OF small_generator_ok small_draws_ok np_argsort_nan_all kmeans_ok_uniform
        h(1) default_kwargs(2) h(2), of "[] :: nat list"]
    unfolding n1 by auto
qed

theorem cli_dataset_roundtrip_witness:
  "config_ok (dataset_cmd 2 ''d.pt'' ''NOTSET'' 1 1 0 0 (4, 4) 1) \<and>
   draws_ok (get_standard_generator (dataset_cmd 2 ''d.pt'' ''NOTSET'' 1 1 0 0 (4, 4) 1)) (\<lambda>k. ([[5]], [[7]])) \<and>
   (\<forall>v. argsort_nan_spec v (np_argsort_nan v)) \<and> (0 :: int) \<le> 1 \<and>
   0 \<le> cfg_surfaces (dataset_cmd 2 ''d.pt'' ''NOTSET'' 1 1 0 0 (4, 4) 1) \<and>
   (\<exists>files' d. standard (dataset_cmd 2 ''d.pt'' ''NOTSET'' 1 1 0 0 (4, 4) 1) np_argsort_nan
        (\<lambda>k. ([[5]], [[7]])) (Map.empty :: nat pt_files) = Inr files' \<and>
      from_pt ''d.pt'' files' = Inr d \<and>
      length (ds_surfaces (snd (load_dataset_from_pt ''d.pt'' ([] :: nat list) (Some 1) d))) = 1)"
proof -
  have k: "(0 :: int) \<le> 1" by simp
  have s: "0 \<le> cfg_surfaces (dataset_cmd 2 ''d.pt'' ''NOTSET'' 1 1 0 0 (4, 4) 1)"
    by (simp add: dataset_cmd_def)
  have p: "cfg_dataset_path (dataset_cmd 2 ''d.pt'' ''NOTSET'' 1 1 0 0 (4, 4) 1) = ''d.pt''"
    "min (nat 1) (nat (cfg_surfaces (dataset_cmd 2 ''d.pt'' ''NOTSET'' 1 1 0 0 (4, 4) 1))) = 1"
    by (simp_all add: dataset_cmd_def)
  obtain files' d where
    "standard (dataset_cmd 2 ''d.pt'' ''NOTSET'' 1 1 0 0 (4, 4) 1) np_argsort_nan
        (\<lambda>k. ([[5]], [[7]])) (Map.empty :: nat pt_files) = Inr files'"
    "from_pt ''d.pt'' files' = Inr d"
    "length (ds_surfaces (snd (load_dataset_from_pt ''d.pt'' ([] :: nat list) (Some 1) d))) = 1"
    using cli_dataset_roundtrip [OF small_config(1,2) np_argsort_nan_all k s, of "Map.empty :: nat pt_files"]
    unfolding p by blast
  then show ?thesis
    using small_config(1,2) np_argsort_nan_all k s by blast
qed

end
